(* ===== verification/Prelude.thy ===== *)
theory Prelude
  imports "HOL-Library.Word"
begin

text \<open>
  Shared vocabulary of the development: the machine integer types of the C sources, the
  errno values and macros of \<^verbatim>\<open>client/common.h\<close>, byte-addressed memory with
  little-endian access, and the generic facts on words, alignment and memory that the
  component theories use.
\<close>

unbundle bit_operations_syntax

subsection \<open>Types\<close>

type_synonym u8 = "8 word"
type_synonym u16 = "16 word"
type_synonym u32 = "32 word"
type_synonym u64 = "64 word"

type_synonym memory = "u64 \<Rightarrow> u8"

named_theorems mem_simps
named_theorems unat_simps

subsection \<open>Error numbers\<close>

abbreviation (input) ENOENT :: int where "ENOENT \<equiv> 2"
abbreviation (input) EIO :: int where "EIO \<equiv> 5"
abbreviation (input) ENOEXEC :: int where "ENOEXEC \<equiv> 8"
abbreviation (input) ENOMEM :: int where "ENOMEM \<equiv> 12"
abbreviation (input) EFAULT :: int where "EFAULT \<equiv> 14"
abbreviation (input) EEXIST :: int where "EEXIST \<equiv> 17"
abbreviation (input) EINVAL :: int where "EINVAL \<equiv> 22"
abbreviation (input) ENOSPC :: int where "ENOSPC \<equiv> 28"
abbreviation (input) ENOSYS :: int where "ENOSYS \<equiv> 38"
abbreviation (input) EPROTO :: int where "EPROTO \<equiv> 71"
abbreviation (input) ELIBBAD :: int where "ELIBBAD \<equiv> 80"
abbreviation (input) EOPNOTSUPP :: int where "EOPNOTSUPP \<equiv> 95"

text \<open>
  \<open>c_int\<close> is the conversion of a 64-bit value to C's \<^verbatim>\<open>int\<close>, the cast
  \<^verbatim>\<open>(int) (uintptr_t) p\<close> of the sources. \<open>err_ptr\<close> is the cast
  \<^verbatim>\<open>(void*) (uintptr_t) -E\<close> of a negative error to a pointer.
\<close>

definition c_int :: "u64 \<Rightarrow> int" where
  "c_int r = sint (ucast r :: u32)"

definition err_ptr :: "int \<Rightarrow> u64" where
  "err_ptr e = word_of_int e"

definition BAD_ADDR :: "u64 \<Rightarrow> bool" where
  "BAD_ADDR a \<longleftrightarrow> a > 0xfffffffffffff000"

definition ALIGN_DOWN :: "'a::len word \<Rightarrow> 'a word \<Rightarrow> 'a word" where
  "ALIGN_DOWN v a = v AND NOT (a - 1)"

definition ALIGN_UP :: "'a::len word \<Rightarrow> 'a word \<Rightarrow> 'a word" where
  "ALIGN_UP v a = (v + (a - 1)) AND NOT (a - 1)"

subsection \<open>Bytes and little-endian integers\<close>

text \<open>
  \<open>le_bytes n w\<close> is the little-endian encoding of \<open>w\<close> in \<open>n\<close> bytes and
  \<open>le_word\<close> its inverse.
\<close>

fun le_bytes :: "nat \<Rightarrow> 'a::len word \<Rightarrow> u8 list" where
  "le_bytes 0 w = []"
| "le_bytes (Suc n) w = ucast w # le_bytes n (drop_bit 8 w)"

fun le_word :: "u8 list \<Rightarrow> 'a::len word" where
  "le_word [] = 0"
| "le_word (b # bs) = ucast b OR push_bit 8 (le_word bs)"

fun read_bytes :: "memory \<Rightarrow> u64 \<Rightarrow> nat \<Rightarrow> u8 list" where
  "read_bytes m a 0 = []"
| "read_bytes m a (Suc n) = m a # read_bytes m (a + 1) n"

fun write_bytes :: "memory \<Rightarrow> u64 \<Rightarrow> u8 list \<Rightarrow> memory" where
  "write_bytes m a [] = m"
| "write_bytes m a (b # bs) = write_bytes (m(a := b)) (a + 1) bs"

definition load8 :: "memory \<Rightarrow> u64 \<Rightarrow> u8" where
  "load8 m a = m a"

definition load16 :: "memory \<Rightarrow> u64 \<Rightarrow> u16" where
  "load16 m a = le_word (read_bytes m a 2)"

definition load32 :: "memory \<Rightarrow> u64 \<Rightarrow> u32" where
  "load32 m a = le_word (read_bytes m a 4)"

definition load64 :: "memory \<Rightarrow> u64 \<Rightarrow> u64" where
  "load64 m a = le_word (read_bytes m a 8)"

definition store8 :: "memory \<Rightarrow> u64 \<Rightarrow> u8 \<Rightarrow> memory" where
  "store8 m a v = m(a := v)"

definition store16 :: "memory \<Rightarrow> u64 \<Rightarrow> u16 \<Rightarrow> memory" where
  "store16 m a v = write_bytes m a (le_bytes 2 v)"

definition store32 :: "memory \<Rightarrow> u64 \<Rightarrow> u32 \<Rightarrow> memory" where
  "store32 m a v = write_bytes m a (le_bytes 4 v)"

definition store64 :: "memory \<Rightarrow> u64 \<Rightarrow> u64 \<Rightarrow> memory" where
  "store64 m a v = write_bytes m a (le_bytes 8 v)"

text \<open>The half-open address range of \<open>n\<close> bytes from \<open>a\<close>, as offsets modulo the address space.\<close>

definition range_at :: "u64 \<Rightarrow> nat \<Rightarrow> u64 set" where
  "range_at a n = {x. unat (x - a) < n}"

subsection \<open>Facts on memory\<close>

lemma length_read_bytes [simp]: "length (read_bytes m a n) = n"
  by (induction n arbitrary: a) auto

lemma length_le_bytes [simp]: "length (le_bytes n w) = n"
  by (induction n arbitrary: w) auto

lemma nth_read_bytes: "i < n \<Longrightarrow> read_bytes m a n ! i = m (a + of_nat i)"
  by (induction n arbitrary: a i) (auto simp: nth_Cons' algebra_simps of_nat_diff)

lemma read_bytes_cong:
  "(\<And>i. i < n \<Longrightarrow> m (a + of_nat i) = m' (a + of_nat i)) \<Longrightarrow> read_bytes m a n = read_bytes m' a n"
  by (rule nth_equalityI) (auto simp: nth_read_bytes)

lemma unat_of_nat_64: "n < 2 ^ 64 \<Longrightarrow> unat (of_nat n :: u64) = n"
  by (simp add: unat_of_nat take_bit_nat_eq_self)

lemma unat_diff_1_64: "(x :: u64) \<noteq> 0 \<Longrightarrow> unat (x - 1) = unat x - 1"
  by (simp add: unat_minus_one)

lemma write_bytes_apply:
  assumes "length bs \<le> 2 ^ 64"
  shows "write_bytes m a bs x = (if unat (x - a) < length bs then bs ! unat (x - a) else m x)"
  using assms
proof (induction bs arbitrary: m a)
  case Nil
  then show ?case by simp
next
  case (Cons b bs)
  have IH: "write_bytes (m(a := b)) (a + 1) bs x =
      (if unat (x - (a + 1)) < length bs then bs ! unat (x - (a + 1)) else (m(a := b)) x)"
    using Cons by simp
  show ?case
  proof (cases "x = a")
    case True
    have "unat (- 1 :: u64) = 2 ^ 64 - 1"
      by (simp add: unsigned_minus_1_eq_mask mask_eq_exp_minus_1)
    with Cons.prems have "\<not> unat (x - (a + 1)) < length bs"
      by (simp add: True)
    with IH True show ?thesis by simp
  next
    case False
    then have "x - a \<noteq> 0" by simp
    then have "unat (x - a - 1) = unat (x - a) - 1" and "0 < unat (x - a)"
      by (auto simp: unat_diff_1_64 unat_gt_0)
    moreover have "x - (a + 1) = x - a - 1" by simp
    ultimately show ?thesis using IH False
      by (auto simp: nth_Cons' algebra_simps)
  qed
qed

lemma write_bytes_outside:
  "length bs \<le> 2 ^ 64 \<Longrightarrow> x \<notin> range_at a (length bs) \<Longrightarrow> write_bytes m a bs x = m x"
  by (simp add: write_bytes_apply range_at_def)

lemma read_write_bytes [mem_simps]:
  assumes "length bs < 2 ^ 64"
  shows "read_bytes (write_bytes m a bs) a (length bs) = bs"
proof (rule nth_equalityI)
  fix i assume "i < length (read_bytes (write_bytes m a bs) a (length bs))"
  then have i: "i < length bs" by simp
  then have "unat (of_nat i :: u64) = i" using assms by (simp add: unat_of_nat_64)
  with i assms show "read_bytes (write_bytes m a bs) a (length bs) ! i = bs ! i"
    by (simp add: nth_read_bytes write_bytes_apply)
qed simp

lemma write_bytes_append:
  "write_bytes m a (xs @ ys) = write_bytes (write_bytes m a xs) (a + of_nat (length xs)) ys"
  by (induction xs arbitrary: m a) (auto simp: algebra_simps)

lemma read_bytes_numeral:
  "read_bytes m a (numeral k) = m a # read_bytes m (a + 1) (pred_numeral k)"
  by (simp add: numeral_eq_Suc)

lemma read_bytes_append:
  "read_bytes m a (i + j) = read_bytes m a i @ read_bytes m (a + of_nat i) j"
  by (induction i arbitrary: a) (auto simp: algebra_simps)

subsection \<open>Facts on little-endian encodings\<close>

lemma bit_le_word:
  "bit (le_word bs :: 'a::len word) i \<longleftrightarrow>
     i < LENGTH('a) \<and> i div 8 < length bs \<and> bit (bs ! (i div 8)) (i mod 8)"
proof (induction bs arbitrary: i)
  case Nil
  then show ?case by simp
next
  case (Cons b bs)
  show ?case
  proof (cases "i < 8")
    case True
    then show ?thesis by (auto simp: bit_simps)
  next
    case False
    then obtain j where j: "i = j + 8" by (metis add.commute le_Suc_ex not_less)
    have d: "(j + 8) div 8 = Suc (j div 8)" by simp
    have "\<not> bit b i" using False bit_imp_le_length[of b i] by auto
    then show ?thesis using Cons.IH[of j] bit_imp_le_length[of "le_word bs :: 'a word" j]
      by (auto simp: bit_simps j d)
  qed
qed

lemma nth_le_bytes: "i < n \<Longrightarrow> le_bytes n w ! i = ucast (drop_bit (8 * i) w)"
  by (induction n arbitrary: w i) (auto simp: nth_Cons' drop_bit_drop_bit algebra_simps)

lemma le_word_le_bytes:
  assumes "LENGTH('a) \<le> 8 * n"
  shows "le_word (le_bytes n (w :: 'a::len word)) = w"
proof (rule bit_word_eqI)
  fix i assume i: "i < LENGTH('a)"
  then have "i div 8 < n" using assms by linarith
  then show "bit (le_word (le_bytes n w) :: 'a word) i = bit w i"
    using i by (simp add: bit_le_word nth_le_bytes bit_simps)
qed

lemma load_store64 [mem_simps]: "load64 (store64 m a v) a = v"
  using read_write_bytes[of "le_bytes 8 v" m a]
  by (simp add: load64_def store64_def le_word_le_bytes del: le_bytes.simps le_word.simps)

lemma load_store32 [mem_simps]: "load32 (store32 m a v) a = v"
  using read_write_bytes[of "le_bytes 4 v" m a]
  by (simp add: load32_def store32_def le_word_le_bytes del: le_bytes.simps le_word.simps)

lemma load_store16 [mem_simps]: "load16 (store16 m a v) a = v"
  using read_write_bytes[of "le_bytes 2 v" m a]
  by (simp add: load16_def store16_def le_word_le_bytes del: le_bytes.simps le_word.simps)

subsection \<open>Facts on alignment\<close>

lemma exp_minus_1_mask: "(2 ^ n - 1 :: 'a::len word) = mask n"
  by (simp add: mask_eq_exp_minus_1)

lemma unat_and_not_mask: "unat (v AND NOT (mask n) :: 'a::len word) = unat v - unat v mod 2 ^ n"
proof -
  have "v - take_bit n v = v AND NOT (take_bit n v)"
    by (rule disjunctive_diff_eq_and_not, rule bit_word_eqI) (simp add: bit_simps)
  also have "\<dots> = v AND NOT (mask n)"
    by (rule bit_word_eqI) (auto simp: bit_simps)
  finally have "v AND NOT (mask n) = v - take_bit n v" by simp
  moreover have "take_bit n v \<le> v"
    by (simp add: word_le_nat_alt unsigned_take_bit_eq take_bit_nat_less_eq_self)
  ultimately show ?thesis
    by (simp add: unat_sub unsigned_take_bit_eq flip: take_bit_eq_mod)
qed

lemma unat_ALIGN_DOWN: "unat (ALIGN_DOWN v (2 ^ n)) = unat v - unat v mod 2 ^ n"
  by (simp add: ALIGN_DOWN_def exp_minus_1_mask unat_and_not_mask)

lemma nat_minus_mod_dvd: "(d::nat) dvd (x - x mod d)"
  by (simp add: minus_mod_eq_mult_div)

lemma ALIGN_DOWN_dvd: "2 ^ n dvd unat (ALIGN_DOWN v (2 ^ n))"
  by (simp add: unat_ALIGN_DOWN nat_minus_mod_dvd)

lemma unat_exp_lt: "n < LENGTH('a) \<Longrightarrow> unat (2 ^ n :: 'a::len word) = 2 ^ n"
  using unat_of_nat[of "2 ^ n", where 'a = 'a] by (simp add: take_bit_eq_mod)

lemma unat_mask_lt: "n < LENGTH('a) \<Longrightarrow> unat (2 ^ n - 1 :: 'a::len word) = 2 ^ n - 1"
  by (simp add: unat_minus_one unat_exp_lt)

lemma unat_ALIGN_UP:
  assumes "n < LENGTH('a)" and "unat v + (2 ^ n - 1) < 2 ^ LENGTH('a)"
  shows "unat (ALIGN_UP v (2 ^ n) :: 'a::len word) =
    (unat v + (2 ^ n - 1)) - (unat v + (2 ^ n - 1)) mod 2 ^ n"
proof -
  have "unat (v + (2 ^ n - 1)) = unat v + (2 ^ n - 1)"
    using assms by (simp add: unat_word_ariths unat_mask_lt)
  then show ?thesis
    by (simp add: ALIGN_UP_def exp_minus_1_mask unat_and_not_mask)
qed

lemma ALIGN_UP_bounds:
  assumes "n < LENGTH('a)" and "unat v + (2 ^ n - 1) < 2 ^ LENGTH('a)"
  shows "unat v \<le> unat (ALIGN_UP v (2 ^ n) :: 'a::len word)"
    and "unat (ALIGN_UP v (2 ^ n) :: 'a word) < unat v + 2 ^ n"
    and "2 ^ n dvd unat (ALIGN_UP v (2 ^ n) :: 'a word)"
proof -
  let ?s = "unat v + (2 ^ n - 1)"
  have m: "?s mod 2 ^ n < 2 ^ n" by simp
  show "unat v \<le> unat (ALIGN_UP v (2 ^ n) :: 'a word)"
    using m unfolding unat_ALIGN_UP[OF assms] by linarith
  show "unat (ALIGN_UP v (2 ^ n) :: 'a word) < unat v + 2 ^ n"
    using m unfolding unat_ALIGN_UP[OF assms] by (simp add: less_diff_conv2)
  show "2 ^ n dvd unat (ALIGN_UP v (2 ^ n) :: 'a word)"
    unfolding unat_ALIGN_UP[OF assms] by (rule nat_minus_mod_dvd)
qed

text \<open>The power-of-two test \<^verbatim>\<open>a & (a - 1)\<close> of the sources.\<close>

lemma bit_top_nat: "2 ^ k \<le> x \<Longrightarrow> x < 2 ^ Suc k \<Longrightarrow> bit (x::nat) k"
proof -
  assume a: "2 ^ k \<le> x" "x < 2 ^ Suc k"
  then have "x div 2 ^ k = 1"
    by (intro div_nat_eqI) auto
  then show ?thesis by (simp add: bit_iff_odd)
qed

lemma and_pred_eq_0_pow2:
  fixes x :: "'a::len word"
  assumes nz: "x \<noteq> 0" and z: "x AND (x - 1) = 0"
  obtains n where "n < LENGTH('a)" and "x = 2 ^ n"
proof -
  have pos: "0 < unat x" using nz by (simp add: unat_gt_0)
  obtain k where k: "2 ^ k \<le> unat x" "unat x < 2 ^ Suc k"
    using ex_power_ivl1[of 2 "unat x"] pos by auto
  have kl: "k < LENGTH('a)"
    using k(1) unsigned_less[of x] by (meson le_less_trans power_less_imp_less_exp one_less_numeral_iff semiring_norm(76))
  have "unat x = 2 ^ k"
  proof (rule ccontr)
    assume "unat x \<noteq> 2 ^ k"
    then have "2 ^ k \<le> unat (x - 1)" and "unat (x - 1) < 2 ^ Suc k"
      using k nz by (simp_all add: unat_minus_one)
    then have "bit (unat (x - 1)) k" and "bit (unat x) k"
      using k by (auto intro: bit_top_nat)
    then have "bit (x AND (x - 1)) k"
      using kl by (simp add: bit_and_iff bit_unsigned_iff)
    with z show False by simp
  qed
  then have "x = 2 ^ k"
    using kl by (simp add: word_unat_eq_iff unat_exp_lt)
  with kl show thesis by (rule that)
qed

subsection \<open>Steps that end early\<close>

text \<open>
  A step that may not return (\<open>None\<close>), end the whole computation early (\<open>Inl\<close>) or hand on a value (\<open>Inr\<close>).
\<close>

definition and_then :: "('e + 'a) option \<Rightarrow> ('a \<Rightarrow> ('e + 'b) option) \<Rightarrow> ('e + 'b) option" where
  "and_then x f = Option.bind x (\<lambda>r. case r of Inl e \<Rightarrow> Some (Inl e) | Inr a \<Rightarrow> f a)"

lemma and_then_simps [simp]:
  "and_then None g = None" "and_then (Some (Inl e)) g = Some (Inl e)" "and_then (Some (Inr a)) g = g a"
  by (simp_all add: and_then_def)

lemma and_then_cases:
  assumes "and_then x g = Some r"
  obtains (stop) e where "x = Some (Inl e)" "r = Inl e" | (go) a where "x = Some (Inr a)" "g a = Some r"
  using assms by (cases x rule: option.exhaust; cases "the x") auto

end
