(* ===== verification/Libc_Io.thy ===== *)
theory Libc_Io
  imports Prelude
begin

text \<open>
  The system call layer of \<^verbatim>\<open>client/minilibc.c\<close>: the process state, the
  \<^verbatim>\<open>syscallN\<close> stubs, the thin wrappers and the two transfer loops
  \<^verbatim>\<open>read_full\<close> and \<^verbatim>\<open>write_full\<close>. The kernel is a parameter \<open>sys\<close> of every
  definition: given a system call number, its arguments, memory and the kernel state it
  yields the result register, memory and the next kernel state. The numbers are those of
  the x86-64 host.
\<close>

subsection \<open>Process state and system calls\<close>

type_synonym 'k sysfn = "u64 \<Rightarrow> u64 list \<Rightarrow> memory \<Rightarrow> 'k \<Rightarrow> u64 \<times> memory \<times> 'k"

record 'k world =
  mem :: memory
  kern :: 'k
  pagesize :: u64

abbreviation (input) NR_read :: u64 where "NR_read \<equiv> 0"
abbreviation (input) NR_write :: u64 where "NR_write \<equiv> 1"
abbreviation (input) NR_close :: u64 where "NR_close \<equiv> 3"
abbreviation (input) NR_lseek :: u64 where "NR_lseek \<equiv> 8"
abbreviation (input) NR_mmap :: u64 where "NR_mmap \<equiv> 9"
abbreviation (input) NR_mprotect :: u64 where "NR_mprotect \<equiv> 10"
abbreviation (input) NR_munmap :: u64 where "NR_munmap \<equiv> 11"
abbreviation (input) NR_rt_sigaction :: u64 where "NR_rt_sigaction \<equiv> 13"
abbreviation (input) NR_rt_sigprocmask :: u64 where "NR_rt_sigprocmask \<equiv> 14"
abbreviation (input) NR_nanosleep :: u64 where "NR_nanosleep \<equiv> 35"
abbreviation (input) NR_getpid :: u64 where "NR_getpid \<equiv> 39"
abbreviation (input) NR_execve :: u64 where "NR_execve \<equiv> 59"
abbreviation (input) NR_exit :: u64 where "NR_exit \<equiv> 60"
abbreviation (input) NR_kill :: u64 where "NR_kill \<equiv> 62"
abbreviation (input) NR_fcntl :: u64 where "NR_fcntl \<equiv> 72"
abbreviation (input) NR_rt_sigsuspend :: u64 where "NR_rt_sigsuspend \<equiv> 130"
abbreviation (input) NR_arch_prctl :: u64 where "NR_arch_prctl \<equiv> 158"
abbreviation (input) NR_gettid :: u64 where "NR_gettid \<equiv> 186"
abbreviation (input) NR_clock_gettime :: u64 where "NR_clock_gettime \<equiv> 228"
abbreviation (input) NR_openat :: u64 where "NR_openat \<equiv> 257"
abbreviation (input) NR_dup3 :: u64 where "NR_dup3 \<equiv> 292"
abbreviation (input) NR_pipe2 :: u64 where "NR_pipe2 \<equiv> 293"

abbreviation (input) AT_FDCWD :: int where "AT_FDCWD \<equiv> - 100"
abbreviation (input) F_GETFL :: u64 where "F_GETFL \<equiv> 3"
abbreviation (input) ARCH_SET_FS :: u64 where "ARCH_SET_FS \<equiv> 0x1002"

definition do_syscall :: "'k sysfn \<Rightarrow> u64 \<Rightarrow> u64 list \<Rightarrow> 'k world \<Rightarrow> u64 \<times> 'k world" where
  "do_syscall sys nr args w =
     (case sys nr args (mem w) (kern w) of (r, m, k) \<Rightarrow> (r, w\<lparr>mem := m, kern := k\<rparr>))"

definition syscall0 :: "'k sysfn \<Rightarrow> u64 \<Rightarrow> 'k world \<Rightarrow> u64 \<times> 'k world" where
  "syscall0 sys nr w = do_syscall sys nr [] w"

definition syscall1 :: "'k sysfn \<Rightarrow> u64 \<Rightarrow> u64 \<Rightarrow> 'k world \<Rightarrow> u64 \<times> 'k world" where
  "syscall1 sys nr a1 w = do_syscall sys nr [a1] w"

definition syscall2 :: "'k sysfn \<Rightarrow> u64 \<Rightarrow> u64 \<Rightarrow> u64 \<Rightarrow> 'k world \<Rightarrow> u64 \<times> 'k world" where
  "syscall2 sys nr a1 a2 w = do_syscall sys nr [a1, a2] w"

definition syscall3 :: "'k sysfn \<Rightarrow> u64 \<Rightarrow> u64 \<Rightarrow> u64 \<Rightarrow> u64 \<Rightarrow> 'k world \<Rightarrow> u64 \<times> 'k world" where
  "syscall3 sys nr a1 a2 a3 w = do_syscall sys nr [a1, a2, a3] w"

definition syscall4 ::
  "'k sysfn \<Rightarrow> u64 \<Rightarrow> u64 \<Rightarrow> u64 \<Rightarrow> u64 \<Rightarrow> u64 \<Rightarrow> 'k world \<Rightarrow> u64 \<times> 'k world" where
  "syscall4 sys nr a1 a2 a3 a4 w = do_syscall sys nr [a1, a2, a3, a4] w"

definition syscall6 ::
  "'k sysfn \<Rightarrow> u64 \<Rightarrow> u64 \<Rightarrow> u64 \<Rightarrow> u64 \<Rightarrow> u64 \<Rightarrow> u64 \<Rightarrow> u64 \<Rightarrow> 'k world \<Rightarrow> u64 \<times> 'k world" where
  "syscall6 sys nr a1 a2 a3 a4 a5 a6 w = do_syscall sys nr [a1, a2, a3, a4, a5, a6] w"

text \<open>A result register read as the C types \<^verbatim>\<open>int\<close> and \<^verbatim>\<open>ssize_t\<close>.\<close>

definition ret_int :: "u64 \<times> 'k world \<Rightarrow> int \<times> 'k world" where
  "ret_int rw = (c_int (fst rw), snd rw)"

definition ret_ssize :: "u64 \<times> 'k world \<Rightarrow> int \<times> 'k world" where
  "ret_ssize rw = (sint (fst rw), snd rw)"

subsection \<open>Wrappers\<close>

definition set_thread_area :: "'k sysfn \<Rightarrow> u64 \<Rightarrow> 'k world \<Rightarrow> int \<times> 'k world" where
  "set_thread_area sys tp w = ret_int (syscall2 sys NR_arch_prctl ARCH_SET_FS tp w)"

text \<open>The stub takes the number as an \<^verbatim>\<open>int\<close>, so that a \<^verbatim>\<open>long\<close> is narrowed and extended again.\<close>

definition c_syscall ::
  "'k sysfn \<Rightarrow> u64 \<Rightarrow> u64 \<Rightarrow> u64 \<Rightarrow> u64 \<Rightarrow> u64 \<Rightarrow> u64 \<Rightarrow> u64 \<Rightarrow> 'k world \<Rightarrow> int \<times> 'k world" where
  "c_syscall sys nr a1 a2 a3 a4 a5 a6 w = ret_ssize (syscall6 sys (word_of_int (c_int nr)) a1 a2 a3 a4 a5 a6 w)"

definition getpid :: "'k sysfn \<Rightarrow> 'k world \<Rightarrow> int \<times> 'k world" where
  "getpid sys w = ret_int (syscall0 sys NR_getpid w)"

definition gettid :: "'k sysfn \<Rightarrow> 'k world \<Rightarrow> int \<times> 'k world" where
  "gettid sys w = ret_int (syscall0 sys NR_gettid w)"

definition openat :: "'k sysfn \<Rightarrow> int \<Rightarrow> u64 \<Rightarrow> int \<Rightarrow> int \<Rightarrow> 'k world \<Rightarrow> int \<times> 'k world" where
  "openat sys dirfd path flags mode w =
     ret_int (syscall4 sys NR_openat (word_of_int dirfd) path (word_of_int flags) (word_of_int mode) w)"

definition c_open :: "'k sysfn \<Rightarrow> u64 \<Rightarrow> int \<Rightarrow> int \<Rightarrow> 'k world \<Rightarrow> int \<times> 'k world" where
  "c_open sys path flags mode w = openat sys AT_FDCWD path flags mode w"

definition lseek :: "'k sysfn \<Rightarrow> int \<Rightarrow> u64 \<Rightarrow> int \<Rightarrow> 'k world \<Rightarrow> int \<times> 'k world" where
  "lseek sys fd off whence w =
     ret_ssize (syscall3 sys NR_lseek (word_of_int fd) off (word_of_int whence) w)"

definition c_read :: "'k sysfn \<Rightarrow> int \<Rightarrow> u64 \<Rightarrow> u64 \<Rightarrow> 'k world \<Rightarrow> int \<times> 'k world" where
  "c_read sys fd buf count w = ret_ssize (syscall3 sys NR_read (word_of_int fd) buf count w)"

definition c_write :: "'k sysfn \<Rightarrow> int \<Rightarrow> u64 \<Rightarrow> u64 \<Rightarrow> 'k world \<Rightarrow> int \<times> 'k world" where
  "c_write sys fd buf count w = ret_ssize (syscall3 sys NR_write (word_of_int fd) buf count w)"

definition c_close :: "'k sysfn \<Rightarrow> int \<Rightarrow> 'k world \<Rightarrow> int \<times> 'k world" where
  "c_close sys fd w = ret_int (syscall1 sys NR_close (word_of_int fd) w)"

definition mmap ::
  "'k sysfn \<Rightarrow> u64 \<Rightarrow> u64 \<Rightarrow> int \<Rightarrow> int \<Rightarrow> int \<Rightarrow> u64 \<Rightarrow> 'k world \<Rightarrow> u64 \<times> 'k world" where
  "mmap sys addr len prot flags fd off w =
     syscall6 sys NR_mmap addr len (word_of_int prot) (word_of_int flags) (word_of_int fd) off w"

definition mprotect :: "'k sysfn \<Rightarrow> u64 \<Rightarrow> u64 \<Rightarrow> int \<Rightarrow> 'k world \<Rightarrow> int \<times> 'k world" where
  "mprotect sys addr len prot w = ret_int (syscall3 sys NR_mprotect addr len (word_of_int prot) w)"

definition munmap :: "'k sysfn \<Rightarrow> u64 \<Rightarrow> u64 \<Rightarrow> 'k world \<Rightarrow> int \<times> 'k world" where
  "munmap sys addr len w = ret_int (syscall2 sys NR_munmap addr len w)"

definition clock_gettime :: "'k sysfn \<Rightarrow> int \<Rightarrow> u64 \<Rightarrow> 'k world \<Rightarrow> int \<times> 'k world" where
  "clock_gettime sys clk tp w = ret_int (syscall2 sys NR_clock_gettime (word_of_int clk) tp w)"

definition nanosleep :: "'k sysfn \<Rightarrow> u64 \<Rightarrow> u64 \<Rightarrow> 'k world \<Rightarrow> int \<times> 'k world" where
  "nanosleep sys req rem w = ret_int (syscall2 sys NR_nanosleep req rem w)"

definition execve :: "'k sysfn \<Rightarrow> u64 \<Rightarrow> u64 \<Rightarrow> u64 \<Rightarrow> 'k world \<Rightarrow> int \<times> 'k world" where
  "execve sys filename argv envp w = ret_int (syscall3 sys NR_execve filename argv envp w)"

definition dup2 :: "'k sysfn \<Rightarrow> int \<Rightarrow> int \<Rightarrow> 'k world \<Rightarrow> int \<times> 'k world" where
  "dup2 sys oldfd newfd w =
     (if oldfd = newfd then
        (case ret_int (syscall2 sys NR_fcntl (word_of_int oldfd) F_GETFL w) of
           (ret, w') \<Rightarrow> (if ret < 0 then ret else newfd, w'))
      else ret_int (syscall3 sys NR_dup3 (word_of_int oldfd) (word_of_int newfd) 0 w))"

definition pipe2 :: "'k sysfn \<Rightarrow> u64 \<Rightarrow> int \<Rightarrow> 'k world \<Rightarrow> int \<times> 'k world" where
  "pipe2 sys pipefd flags w = ret_int (syscall2 sys NR_pipe2 pipefd (word_of_int flags) w)"

definition c_kill :: "'k sysfn \<Rightarrow> int \<Rightarrow> int \<Rightarrow> 'k world \<Rightarrow> int \<times> 'k world" where
  "c_kill sys pid sig w = ret_int (syscall2 sys NR_kill (word_of_int pid) (word_of_int sig) w)"

subsection \<open>The transfer loops\<close>

text \<open>
  The loops retry short transfers. They run as long as the kernel makes progress, so they are
  partial functions: \<open>None\<close> is a loop that never returns.
\<close>

partial_function (option) read_full_loop ::
  "'k sysfn \<Rightarrow> int \<Rightarrow> u64 \<Rightarrow> u64 \<Rightarrow> u64 \<Rightarrow> 'k world \<Rightarrow> (int \<times> 'k world) option" where
  "read_full_loop sys fd buf nbytes total_read w =
     (if total_read < nbytes then
        (case c_read sys fd (buf + total_read) (nbytes - total_read) w of (bytes_read, w') \<Rightarrow>
           if bytes_read < 0 then Some (bytes_read, w')
           else if bytes_read = 0 then Some (- EIO, w')
           else read_full_loop sys fd buf nbytes (total_read + word_of_int bytes_read) w')
      else Some (sint total_read, w))"

definition read_full ::
  "'k sysfn \<Rightarrow> int \<Rightarrow> u64 \<Rightarrow> u64 \<Rightarrow> 'k world \<Rightarrow> (int \<times> 'k world) option" where
  "read_full sys fd buf nbytes w = read_full_loop sys fd buf nbytes 0 w"

partial_function (option) write_full_loop ::
  "'k sysfn \<Rightarrow> int \<Rightarrow> u64 \<Rightarrow> u64 \<Rightarrow> u64 \<Rightarrow> 'k world \<Rightarrow> (int \<times> 'k world) option" where
  "write_full_loop sys fd buf nbytes total_written w =
     (if total_written < nbytes then
        (case c_write sys fd (buf + total_written) (nbytes - total_written) w of (bytes_written, w') \<Rightarrow>
           if bytes_written < 0 then Some (bytes_written, w')
           else if bytes_written = 0 then Some (- EIO, w')
           else write_full_loop sys fd buf nbytes (total_written + word_of_int bytes_written) w')
      else Some (sint total_written, w))"

definition write_full ::
  "'k sysfn \<Rightarrow> int \<Rightarrow> u64 \<Rightarrow> u64 \<Rightarrow> 'k world \<Rightarrow> (int \<times> 'k world) option" where
  "write_full sys fd buf nbytes w = write_full_loop sys fd buf nbytes 0 w"

subsection \<open>What the loops rely on\<close>

text \<open>
  The documented behaviour of blocking reads and writes on the two pipes to the server, as the
  hypothesis \<open>duplex\<close> on the kernel. The kernel state is observed through three functions:
  \<open>pend k\<close> is what is still to be read from the descriptor \<open>rd\<close>, \<open>sent k\<close> what was
  written to \<open>wr\<close>, and \<open>rdok k a\<close> says that address \<open>a\<close> is mapped and readable. A read
  may be short but makes progress while there is input and returns 0 at the end of the
  stream. A write of a readable buffer may be short but makes progress. A write of a buffer
  that is not readable throughout either fails with EFAULT and sends nothing, or sends some of
  the readable bytes in front; which of the two is up to the kernel.
\<close>

definition duplex_read ::
  "'k sysfn \<Rightarrow> int \<Rightarrow> ('k \<Rightarrow> u8 list) \<Rightarrow> ('k \<Rightarrow> u8 list) \<Rightarrow> ('k \<Rightarrow> u64 \<Rightarrow> bool) \<Rightarrow> bool" where
  "duplex_read sys rd pend sent rdok \<longleftrightarrow>
     (\<forall>buf n m k. unat n < 2 ^ 63 \<longrightarrow>
        (\<exists>c k'. sys NR_read [word_of_int rd, buf, n] m k =
             (of_nat c, write_bytes m buf (take c (pend k)), k') \<and>
           c \<le> unat n \<and> c \<le> length (pend k) \<and> (n \<noteq> 0 \<and> pend k \<noteq> [] \<longrightarrow> 0 < c) \<and>
           pend k' = drop c (pend k) \<and> sent k' = sent k \<and> rdok k' = rdok k))"

definition duplex_write ::
  "'k sysfn \<Rightarrow> int \<Rightarrow> ('k \<Rightarrow> u8 list) \<Rightarrow> ('k \<Rightarrow> u8 list) \<Rightarrow> ('k \<Rightarrow> u64 \<Rightarrow> bool) \<Rightarrow> bool" where
  "duplex_write sys wr pend sent rdok \<longleftrightarrow>
     (\<forall>buf n m k. unat n < 2 ^ 63 \<and> n \<noteq> 0 \<longrightarrow>
        (\<exists>c k'. c \<le> unat n \<and> (\<forall>i<c. rdok k (buf + of_nat i)) \<and>
           ((\<forall>i < unat n. rdok k (buf + of_nat i)) \<longrightarrow> 0 < c) \<and>
           sys NR_write [word_of_int wr, buf, n] m k =
             (if c = 0 then word_of_int (- EFAULT) else of_nat c, m, k') \<and>
           sent k' = sent k @ read_bytes m buf c \<and> pend k' = pend k \<and> rdok k' = rdok k))"

definition duplex ::
  "'k sysfn \<Rightarrow> int \<Rightarrow> int \<Rightarrow> ('k \<Rightarrow> u8 list) \<Rightarrow> ('k \<Rightarrow> u8 list) \<Rightarrow> ('k \<Rightarrow> u64 \<Rightarrow> bool) \<Rightarrow> bool" where
  "duplex sys rd wr pend sent rdok \<longleftrightarrow>
     duplex_read sys rd pend sent rdok \<and> duplex_write sys wr pend sent rdok"

text \<open>
  A concrete kernel with this behaviour, for evaluation: the state is the pending input, the
  output so far and a bound below which memory is readable; each call moves at most
  three bytes, so that the loops have to iterate.
\<close>

definition pipe_sys :: "(u8 list \<times> u8 list \<times> u64) sysfn" where
  "pipe_sys nr args m k =
     (case k of (inp, out, bound) \<Rightarrow>
       (case args of
          [fd, buf, n] \<Rightarrow>
            if nr = NR_read then
              (let c = min 3 (min (unat n) (length inp))
               in (of_nat c, write_bytes m buf (take c inp), (drop c inp, out, bound)))
            else if nr = NR_write then
              (if buf < bound then
                 (let c = min 3 (min (unat n) (unat (bound - buf)))
                  in (of_nat c, m, (inp, out @ read_bytes m buf c, bound)))
               else (word_of_int (- EFAULT), m, k))
            else (word_of_int (- ENOSYS), m, k)
        | _ \<Rightarrow> (word_of_int (- ENOSYS), m, k)))"

abbreviation pipe_pend :: "u8 list \<times> u8 list \<times> u64 \<Rightarrow> u8 list" where
  "pipe_pend k \<equiv> fst k"

abbreviation pipe_sent :: "u8 list \<times> u8 list \<times> u64 \<Rightarrow> u8 list" where
  "pipe_sent k \<equiv> fst (snd k)"

abbreviation pipe_rdok :: "u8 list \<times> u8 list \<times> u64 \<Rightarrow> u64 \<Rightarrow> bool" where
  "pipe_rdok k a \<equiv> a < snd (snd k)"

lemma sint_of_nat_64: "n < 2 ^ 63 \<Longrightarrow> sint (of_nat n :: u64) = int n"
  using sint_sbintrunc'[of "int n", where 'a = 64] by (simp add: signed_take_bit_int_eq_self)

lemma below_bound: "(buf :: u64) < bound \<Longrightarrow> i < unat (bound - buf) \<Longrightarrow> buf + of_nat i < bound"
proof -
  assume buf: "buf < bound" and i: "i < unat (bound - buf)"
  have "unat (bound - buf) = unat bound - unat buf" using buf by (simp add: unat_sub_if_size word_less_nat_alt)
  then have "unat buf + i < unat bound" using i buf by (simp add: word_less_nat_alt)
  moreover have "unat bound < 2 ^ 64" using unsigned_less[of bound] by simp
  ultimately show ?thesis by (simp add: word_less_nat_alt unat_word_ariths unat_of_nat_64)
qed

lemma pipe_duplex_write: "duplex_write pipe_sys wr (\<lambda>k. pipe_pend k) (\<lambda>k. pipe_sent k) (\<lambda>k a. pipe_rdok k a)"
  unfolding duplex_write_def
proof (intro allI impI)
  fix buf n :: u64 and m :: memory and k :: "u8 list \<times> u8 list \<times> u64"
  assume n: "unat n < 2 ^ 63 \<and> n \<noteq> 0"
  obtain inp out bound where k: "k = (inp, out, bound)" by (cases k)
  show "\<exists>c k'. c \<le> unat n \<and> (\<forall>i<c. pipe_rdok k (buf + of_nat i)) \<and>
      ((\<forall>i < unat n. pipe_rdok k (buf + of_nat i)) \<longrightarrow> 0 < c) \<and>
      pipe_sys NR_write [word_of_int wr, buf, n] m k = (if c = 0 then word_of_int (- EFAULT) else of_nat c, m, k') \<and>
      pipe_sent k' = pipe_sent k @ read_bytes m buf c \<and> pipe_pend k' = pipe_pend k \<and> pipe_rdok k' = pipe_rdok k"
  proof (cases "buf < bound")
    case True
    let ?c = "min 3 (min (unat n) (unat (bound - buf)))"
    have "0 < unat (bound - buf)" using True by (auto simp: unat_gt_0)
    then have "?c \<noteq> 0" using n by (simp add: unat_gt_0)
    then have "pipe_sys NR_write [word_of_int wr, buf, n] m k =
        (if ?c = 0 then word_of_int (- EFAULT) else of_nat ?c, m, (inp, out @ read_bytes m buf ?c, bound))"
      using True by (simp add: pipe_sys_def k Let_def)
    then show ?thesis using True \<open>?c \<noteq> 0\<close>
      by (intro exI[of _ ?c] exI[of _ "(inp, out @ read_bytes m buf ?c, bound)"]) (simp add: k below_bound)
  next
    case False
    have "0 < unat n" using n by (simp add: unat_gt_0)
    then have "\<not> (\<forall>i < unat n. pipe_rdok k (buf + of_nat i))" using False by (auto simp: k dest: spec[of _ 0])
    with False show ?thesis by (intro exI[of _ 0] exI[of _ k]) (simp add: pipe_sys_def k)
  qed
qed

lemma pipe_duplex: "duplex pipe_sys rd wr (\<lambda>k. pipe_pend k) (\<lambda>k. pipe_sent k) (\<lambda>k a. pipe_rdok k a)"
  using pipe_duplex_write by (auto simp: duplex_def duplex_read_def pipe_sys_def Let_def unat_gt_0)

subsection \<open>The loops transfer everything\<close>

text \<open>
  \<open>received\<close> and \<open>transmitted\<close> say what a completed transfer did to the process state;
  they compose, and the translator's theorems are stated with them.
\<close>

definition received ::
  "('k \<Rightarrow> u8 list) \<Rightarrow> ('k \<Rightarrow> u8 list) \<Rightarrow> ('k \<Rightarrow> u64 \<Rightarrow> bool) \<Rightarrow> 'k world \<Rightarrow> u64 \<Rightarrow> nat \<Rightarrow> 'k world \<Rightarrow> bool" where
  "received pend sent rdok w buf n w' \<longleftrightarrow>
     mem w' = write_bytes (mem w) buf (take n (pend (kern w))) \<and>
     pend (kern w') = drop n (pend (kern w)) \<and> sent (kern w') = sent (kern w) \<and>
     rdok (kern w') = rdok (kern w) \<and> pagesize w' = pagesize w"

definition transmitted ::
  "('k \<Rightarrow> u8 list) \<Rightarrow> ('k \<Rightarrow> u8 list) \<Rightarrow> ('k \<Rightarrow> u64 \<Rightarrow> bool) \<Rightarrow> 'k world \<Rightarrow> u8 list \<Rightarrow> 'k world \<Rightarrow> bool" where
  "transmitted pend sent rdok w bs w' \<longleftrightarrow>
     mem w' = mem w \<and> pend (kern w') = pend (kern w) \<and> sent (kern w') = sent (kern w) @ bs \<and>
     rdok (kern w') = rdok (kern w) \<and> pagesize w' = pagesize w"

lemma received_0 [simp]: "received pend sent rdok w buf 0 w"
  by (simp add: received_def)

lemma received_trans:
  assumes "received pend sent rdok w buf i w1" "received pend sent rdok w1 (buf + of_nat i) j w2"
    and "i \<le> length (pend (kern w))"
  shows "received pend sent rdok w buf (i + j) w2"
  using assms by (auto simp: received_def take_add write_bytes_append add.commute)

lemma transmitted_Nil [simp]: "transmitted pend sent rdok w [] w"
  by (simp add: transmitted_def)

lemma transmitted_trans:
  "transmitted pend sent rdok w xs w1 \<Longrightarrow> transmitted pend sent rdok w1 ys w2 \<Longrightarrow>
   transmitted pend sent rdok w (xs @ ys) w2"
  by (auto simp: transmitted_def)

lemma c_read_duplex:
  assumes "duplex_read sys rd pend sent rdok" and "unat n < 2 ^ 63"
  obtains c w' where "c_read sys rd buf n w = (int c, w')" and "c \<le> unat n"
    and "c \<le> length (pend (kern w))" and "n \<noteq> 0 \<Longrightarrow> pend (kern w) \<noteq> [] \<Longrightarrow> 0 < c"
    and "received pend sent rdok w buf c w'"
proof -
  from assms obtain c k' where s: "sys NR_read [word_of_int rd, buf, n] (mem w) (kern w) =
        (of_nat c, write_bytes (mem w) buf (take c (pend (kern w))), k')"
      and c: "c \<le> unat n" "c \<le> length (pend (kern w))" "n \<noteq> 0 \<and> pend (kern w) \<noteq> [] \<longrightarrow> 0 < c"
      and k: "pend k' = drop c (pend (kern w))" "sent k' = sent (kern w)" "rdok k' = rdok (kern w)"
    unfolding duplex_read_def by meson
  have "sint (of_nat c :: u64) = int c" using c(1) assms(2) by (intro sint_of_nat_64) simp
  with s have "c_read sys rd buf n w =
      (int c, w\<lparr>mem := write_bytes (mem w) buf (take c (pend (kern w))), kern := k'\<rparr>)"
    by (simp add: c_read_def syscall3_def do_syscall_def ret_ssize_def)
  then show thesis
    by (rule that) (use c k in \<open>simp_all add: received_def\<close>)
qed

lemma c_write_duplex:
  assumes "duplex_write sys wr pend sent rdok" and "unat n < 2 ^ 63" and "n \<noteq> 0"
  obtains c w' where "c_write sys wr buf n w = (if c = 0 then - EFAULT else int c, w')" and "c \<le> unat n"
    and "\<forall>i<c. rdok (kern w) (buf + of_nat i)"
    and "(\<forall>i < unat n. rdok (kern w) (buf + of_nat i)) \<longrightarrow> 0 < c"
    and "transmitted pend sent rdok w (read_bytes (mem w) buf c) w'"
proof -
  from assms obtain c k' where c: "c \<le> unat n" "\<forall>i<c. rdok (kern w) (buf + of_nat i)"
      "(\<forall>i < unat n. rdok (kern w) (buf + of_nat i)) \<longrightarrow> 0 < c"
      and s: "sys NR_write [word_of_int wr, buf, n] (mem w) (kern w) =
        (if c = 0 then word_of_int (- EFAULT) else of_nat c, mem w, k')"
      and k: "sent k' = sent (kern w) @ read_bytes (mem w) buf c" "pend k' = pend (kern w)"
        "rdok k' = rdok (kern w)"
    unfolding duplex_write_def by meson
  have "sint (of_nat c :: u64) = int c" using c(1) assms(2) by (intro sint_of_nat_64) simp
  with s have "c_write sys wr buf n w = (if c = 0 then - EFAULT else int c, w\<lparr>kern := k'\<rparr>)"
    by (simp add: c_write_def syscall3_def do_syscall_def ret_ssize_def)
  then show thesis
    by (rule that) (use c k in \<open>simp_all add: transmitted_def\<close>)
qed

lemma unat_advance:
  fixes tot n :: u64
  assumes "tot < n" and "0 < c" and "c \<le> unat (n - tot)"
  shows "unat (tot + of_nat c) = unat tot + c" and "tot + of_nat c \<le> n"
    and "unat n - unat (tot + of_nat c) < unat n - unat tot"
    and "unat (n - tot) = unat n - unat tot"
proof -
  show d: "unat (n - tot) = unat n - unat tot"
    using assms(1) by (simp add: unat_sub order_less_imp_le)
  have "unat tot + c \<le> unat n" using assms d by (simp add: word_less_nat_alt)
  moreover have "unat n < 2 ^ 64" using unsigned_less[of n] by simp
  ultimately show u: "unat (tot + of_nat c) = unat tot + c"
    by (simp add: unat_word_ariths unat_of_nat_64)
  with \<open>unat tot + c \<le> unat n\<close> assms(2)
  show "tot + of_nat c \<le> n" "unat n - unat (tot + of_nat c) < unat n - unat tot"
    by (simp_all add: word_le_nat_alt)
qed

lemma read_full_loop_complete:
  assumes "duplex_read sys rd pend sent rdok" and "unat nbytes < 2 ^ 63"
    and "tot \<le> nbytes" and "unat nbytes - unat tot \<le> length (pend (kern w))"
  shows "\<exists>w'. read_full_loop sys rd buf nbytes tot w = Some (sint nbytes, w') \<and>
           received pend sent rdok w (buf + tot) (unat nbytes - unat tot) w'"
  using assms(3,4)
proof (induction "unat nbytes - unat tot" arbitrary: tot w rule: less_induct)
  case less
  show ?case
  proof (cases "tot < nbytes")
    case False
    with less.prems have "tot = nbytes" by simp
    then show ?thesis by (subst read_full_loop.simps) auto
  next
    case True
    have d: "unat (nbytes - tot) = unat nbytes - unat tot"
      using True by (simp add: unat_sub order_less_imp_le)
    have small: "unat (nbytes - tot) < 2 ^ 63" using d assms(2) by simp
    obtain c w1 where r: "c_read sys rd (buf + tot) (nbytes - tot) w = (int c, w1)"
      and c: "c \<le> unat (nbytes - tot)" "c \<le> length (pend (kern w))"
        "nbytes - tot \<noteq> 0 \<Longrightarrow> pend (kern w) \<noteq> [] \<Longrightarrow> 0 < c"
      and rec: "received pend sent rdok w (buf + tot) c w1"
      using c_read_duplex[OF assms(1) small, of "buf + tot" w] by metis
    have "pend (kern w) \<noteq> []" using less.prems(2) True by (auto simp: word_less_nat_alt)
    with c(3) True have "0 < c" by simp
    note adv = unat_advance[OF True this c(1)]
    have "unat nbytes - unat (tot + of_nat c) \<le> length (pend (kern w1))"
      using rec less.prems(2) adv(1) by (simp add: received_def)
    from less.hyps[OF adv(3) adv(2) this] obtain w2
      where w2: "read_full_loop sys rd buf nbytes (tot + of_nat c) w1 = Some (sint nbytes, w2)"
        "received pend sent rdok w1 (buf + (tot + of_nat c)) (unat nbytes - unat (tot + of_nat c)) w2"
      by blast
    have "received pend sent rdok w (buf + tot) (c + (unat nbytes - unat (tot + of_nat c))) w2"
      by (rule received_trans[OF rec]) (use w2(2) c(2) in \<open>simp_all add: add.assoc\<close>)
    moreover have "c + (unat nbytes - unat (tot + of_nat c)) = unat nbytes - unat tot"
      using adv(1) c(1) d by simp
    ultimately show ?thesis
      using True r \<open>0 < c\<close> w2(1) by (subst read_full_loop.simps) auto
  qed
qed

lemma read_full_loop_eof:
  assumes "duplex_read sys rd pend sent rdok" and "unat nbytes < 2 ^ 63"
    and "tot \<le> nbytes" and "length (pend (kern w)) < unat nbytes - unat tot"
  shows "\<exists>w'. read_full_loop sys rd buf nbytes tot w = Some (- EIO, w') \<and>
           received pend sent rdok w (buf + tot) (length (pend (kern w))) w'"
  using assms(3,4)
proof (induction "unat nbytes - unat tot" arbitrary: tot w rule: less_induct)
  case less
  then have True: "tot < nbytes" by (auto simp: word_less_nat_alt)
  have d: "unat (nbytes - tot) = unat nbytes - unat tot"
    using True by (simp add: unat_sub order_less_imp_le)
  have small: "unat (nbytes - tot) < 2 ^ 63" using d assms(2) by simp
  obtain c w1 where r: "c_read sys rd (buf + tot) (nbytes - tot) w = (int c, w1)"
    and c: "c \<le> unat (nbytes - tot)" "c \<le> length (pend (kern w))"
      "nbytes - tot \<noteq> 0 \<Longrightarrow> pend (kern w) \<noteq> [] \<Longrightarrow> 0 < c"
    and rec: "received pend sent rdok w (buf + tot) c w1"
    using c_read_duplex[OF assms(1) small, of "buf + tot" w] by metis
  show ?case
  proof (cases "c = 0")
    case c0: True
    with c(3) True have "pend (kern w) = []" by auto
    with c0 rec r True show ?thesis by (subst read_full_loop.simps) auto
  next
    case False
    then have "0 < c" by simp
    note adv = unat_advance[OF True this c(1)]
    have "length (pend (kern w1)) < unat nbytes - unat (tot + of_nat c)"
      using rec less.prems(2) adv(1) c(2) by (simp add: received_def)
    from less.hyps[OF adv(3) adv(2) this] obtain w2
      where w2: "read_full_loop sys rd buf nbytes (tot + of_nat c) w1 = Some (- EIO, w2)"
        "received pend sent rdok w1 (buf + (tot + of_nat c)) (length (pend (kern w1))) w2"
      by blast
    have "received pend sent rdok w (buf + tot) (c + length (pend (kern w1))) w2"
      by (rule received_trans[OF rec]) (use w2(2) c(2) in \<open>simp_all add: add.assoc\<close>)
    moreover have "c + length (pend (kern w1)) = length (pend (kern w))"
      using rec c(2) by (simp add: received_def)
    ultimately show ?thesis
      using True r \<open>0 < c\<close> w2(1) by (subst read_full_loop.simps) auto
  qed
qed

text \<open>
  A write loop transmits a readable prefix of \<open>q\<close> bytes, which is all of the buffer when that is
  readable; it succeeds in that case only, and reports EFAULT otherwise.
\<close>

lemma write_full_loop_prefix:
  assumes "duplex_write sys wr pend sent rdok" and "unat nbytes < 2 ^ 63" and "tot \<le> nbytes"
  shows "\<exists>q w'. write_full_loop sys wr buf nbytes tot w =
             Some (if q = unat nbytes - unat tot then sint nbytes else - EFAULT, w') \<and>
           q \<le> unat nbytes - unat tot \<and> (\<forall>i<q. rdok (kern w) (buf + tot + of_nat i)) \<and>
           ((\<forall>i < unat nbytes - unat tot. rdok (kern w) (buf + tot + of_nat i)) \<longrightarrow> q = unat nbytes - unat tot) \<and>
           transmitted pend sent rdok w (read_bytes (mem w) (buf + tot) q) w'"
  using assms(3)
proof (induction "unat nbytes - unat tot" arbitrary: tot w rule: less_induct)
  case less
  show ?case
  proof (cases "tot < nbytes")
    case False
    with less.prems have "tot = nbytes" by simp
    then show ?thesis by (subst write_full_loop.simps) auto
  next
    case True
    have d: "unat (nbytes - tot) = unat nbytes - unat tot"
      using True by (simp add: unat_sub order_less_imp_le)
    have small: "unat (nbytes - tot) < 2 ^ 63" and nz: "nbytes - tot \<noteq> 0"
      using d assms(2) True by simp_all
    obtain c w1 where r: "c_write sys wr (buf + tot) (nbytes - tot) w = (if c = 0 then - EFAULT else int c, w1)"
      and c: "c \<le> unat (nbytes - tot)" "\<forall>i<c. rdok (kern w) (buf + tot + of_nat i)"
        "(\<forall>i < unat (nbytes - tot). rdok (kern w) (buf + tot + of_nat i)) \<longrightarrow> 0 < c"
      and tr: "transmitted pend sent rdok w (read_bytes (mem w) (buf + tot) c) w1"
      using c_write_duplex[OF assms(1) small nz, of "buf + tot" w] by metis
    show ?thesis
    proof (cases "c = 0")
      case c0: True
      then have "write_full_loop sys wr buf nbytes tot w = Some (- EFAULT, w1)"
        using r True by (subst write_full_loop.simps) simp
      moreover have "unat nbytes - unat tot \<noteq> 0" using True by (simp add: word_less_nat_alt)
      ultimately show ?thesis using c0 c(3) tr d by (intro exI[of _ 0] exI[of _ w1]) auto
    next
      case False
      then have pos: "0 < c" by simp
      note adv = unat_advance[OF True pos c(1)]
      have split: "buf + (tot + of_nat c) + of_nat i = buf + tot + of_nat (c + i)" for i by simp
      have ok: "rdok (kern w1) = rdok (kern w)" and mm: "mem w1 = mem w"
        using tr by (simp_all add: transmitted_def)
      have rest: "unat nbytes - unat (tot + of_nat c) = unat nbytes - unat tot - c" using adv(1) by simp
      from less.hyps[OF adv(3) adv(2), of w1] obtain q w2
        where w2: "write_full_loop sys wr buf nbytes (tot + of_nat c) w1 =
             Some (if q = unat nbytes - unat tot - c then sint nbytes else - EFAULT, w2)"
          and q: "q \<le> unat nbytes - unat tot - c" "\<forall>i<q. rdok (kern w) (buf + tot + of_nat (c + i))"
            "(\<forall>i < unat nbytes - unat tot - c. rdok (kern w) (buf + tot + of_nat (c + i))) \<longrightarrow>
               q = unat nbytes - unat tot - c"
          and t2: "transmitted pend sent rdok w1 (read_bytes (mem w) (buf + (tot + of_nat c)) q) w2"
        unfolding split ok mm rest by blast
      have "transmitted pend sent rdok w (read_bytes (mem w) (buf + tot) (c + q)) w2"
        using transmitted_trans[OF tr t2] by (simp add: read_bytes_append add.assoc)
      moreover have "write_full_loop sys wr buf nbytes tot w =
          Some (if c + q = unat nbytes - unat tot then sint nbytes else - EFAULT, w2)"
        using r True pos w2 c(1) d q(1) by (subst write_full_loop.simps) auto
      moreover have "rdok (kern w) (buf + tot + of_nat i)" if "i < c + q" for i
        using that c(2) q(2)[rule_format, of "i - c"] by (cases "i < c") auto
      moreover have "c + q = unat nbytes - unat tot"
        if all: "\<forall>i < unat nbytes - unat tot. rdok (kern w) (buf + tot + of_nat i)"
      proof -
        have "rdok (kern w) (buf + tot + of_nat (c + i))" if "i < unat nbytes - unat tot - c" for i
          using all[rule_format, of "c + i"] that by linarith
        with q(3) c(1) d show ?thesis by simp
      qed
      ultimately show ?thesis
        using q(1) c(1) d by (intro exI[of _ "c + q"] exI[of _ w2]) auto
    qed
  qed
qed

lemma read_full_complete:
  assumes "duplex_read sys rd pend sent rdok" and "unat nbytes < 2 ^ 63"
    and "unat nbytes \<le> length (pend (kern w))"
  shows "\<exists>w'. read_full sys rd buf nbytes w = Some (sint nbytes, w') \<and>
           received pend sent rdok w buf (unat nbytes) w'"
  using read_full_loop_complete[OF assms(1,2), of 0 w buf] assms(3) by (simp add: read_full_def)

lemma write_full_complete:
  assumes "duplex_write sys wr pend sent rdok" and "unat nbytes < 2 ^ 63"
    and "\<forall>i < unat nbytes. rdok (kern w) (buf + of_nat i)"
  shows "\<exists>w'. write_full sys wr buf nbytes w = Some (sint nbytes, w') \<and>
           transmitted pend sent rdok w (read_bytes (mem w) buf (unat nbytes)) w'"
  using write_full_loop_prefix[OF assms(1,2), of 0 buf w] assms(3) by (auto simp: write_full_def)

subsection \<open>Properties\<close>

text \<open>
  C19: read_full on a stream returns in every case: with the whole request stored at the
  buffer when the stream has that many bytes, however short the individual reads are, and with
  -EIO after all that was left when the stream ends early. It consumes exactly what it stored.
\<close>

theorem read_full_exact:
  assumes "duplex_read sys rd pend sent rdok" and "unat nbytes < 2 ^ 63"
  shows "\<exists>w'. read_full sys rd buf nbytes w =
      Some (if unat nbytes \<le> length (pend (kern w)) then int (unat nbytes) else - EIO, w') \<and>
    mem w' = write_bytes (mem w) buf (take (unat nbytes) (pend (kern w))) \<and>
    pend (kern w') = drop (unat nbytes) (pend (kern w)) \<and> sent (kern w') = sent (kern w)"
proof (cases "unat nbytes \<le> length (pend (kern w))")
  case True
  then show ?thesis
    using read_full_complete[OF assms, of w buf] sint_of_nat_64[OF assms(2)] by (auto simp: received_def)
next
  case False
  then show ?thesis
    using read_full_loop_eof[OF assms, of 0 w buf] by (auto simp: received_def read_full_def)
qed

theorem read_full_exact_witness:
  "\<exists>w'. read_full pipe_sys 0 64 5 \<lparr>mem = (\<lambda>_. 0), kern = ([1, 2, 3, 4, 5, 6, 7], [], 0), pagesize = 0x1000\<rparr> =
      Some (5, w') \<and>
    mem w' = write_bytes (\<lambda>_. 0) 64 [1, 2, 3, 4, 5] \<and> pipe_pend (kern w') = [6, 7]"
  using read_full_exact[of pipe_sys 0 fst "\<lambda>k. pipe_sent k" "\<lambda>k a. pipe_rdok k a" 5 64
      "\<lparr>mem = (\<lambda>_. 0), kern = ([1, 2, 3, 4, 5, 6, 7], [], 0), pagesize = 0x1000\<rparr>"]
    pipe_duplex[of 0 0] by (auto simp: duplex_def)

text \<open>
  C18: write_full returns in every case, however the kernel divides the transfer. It gives the full
  count, after the whole buffer has been sent in order, when the buffer is readable, and
  only then. Otherwise it gives -EFAULT, and what it has sent by then is a readable prefix of
  the buffer.
\<close>

theorem write_full_exact:
  assumes "duplex_write sys wr pend sent rdok" and "unat nbytes < 2 ^ 63"
  shows "\<exists>q w'. write_full sys wr buf nbytes w =
      Some (if \<forall>i < unat nbytes. rdok (kern w) (buf + of_nat i) then int (unat nbytes) else - EFAULT, w') \<and>
    sent (kern w') = sent (kern w) @ read_bytes (mem w) buf q \<and>
    q \<le> unat nbytes \<and> (\<forall>i<q. rdok (kern w) (buf + of_nat i)) \<and>
    (q = unat nbytes \<longleftrightarrow> (\<forall>i < unat nbytes. rdok (kern w) (buf + of_nat i))) \<and>
    mem w' = mem w \<and> pend (kern w') = pend (kern w)"
proof -
  from write_full_loop_prefix[OF assms, of 0 buf w] obtain q w' where
    w: "write_full sys wr buf nbytes w = Some (if q = unat nbytes then sint nbytes else - EFAULT, w')"
    and q: "q \<le> unat nbytes" "\<forall>i<q. rdok (kern w) (buf + of_nat i)"
      "(\<forall>i < unat nbytes. rdok (kern w) (buf + of_nat i)) \<longrightarrow> q = unat nbytes"
    and t: "transmitted pend sent rdok w (read_bytes (mem w) buf q) w'"
    unfolding write_full_def by auto
  have "q = unat nbytes \<longleftrightarrow> (\<forall>i < unat nbytes. rdok (kern w) (buf + of_nat i))" using q by auto
  with w q t sint_of_nat_64[OF assms(2)] show ?thesis
    by (intro exI[of _ q] exI[of _ w']) (auto simp: transmitted_def)
qed

theorem write_full_exact_witness:
  "(\<exists>w'. write_full pipe_sys 1 64 4 \<lparr>mem = (\<lambda>a. ucast a), kern = ([], [9], 68), pagesize = 0x1000\<rparr> =
      Some (4, w') \<and> pipe_sent (kern w') = [9, 64, 65, 66, 67]) \<and>
   (\<exists>w'. write_full pipe_sys 1 64 8 \<lparr>mem = (\<lambda>a. ucast a), kern = ([], [9], 68), pagesize = 0x1000\<rparr> =
      Some (- EFAULT, w'))"
proof -
  let ?w = "\<lparr>mem = (\<lambda>a. ucast a), kern = ([], [9], 68), pagesize = 0x1000\<rparr>"
  have dw: "duplex_write pipe_sys 1 fst (\<lambda>k. pipe_sent k) (\<lambda>k a. pipe_rdok k a)"
    using pipe_duplex[of 0 1] by (simp add: duplex_def)
  have ok: "\<forall>i<4. (64 :: u64) + of_nat i < 68"
    by (simp add: word_less_nat_alt unat_word_ariths unat_of_nat_64)
  have bad: "\<not> (\<forall>i<8. (64 :: u64) + of_nat i < 68)" by (rule notI) (drule spec[of _ 4]; simp)
  have rd: "read_bytes (\<lambda>a. ucast a) 64 4 = [64, 65, 66, 67]" by (simp add: read_bytes_numeral)
  have "\<exists>w'. write_full pipe_sys 1 64 4 ?w = Some (4, w') \<and> pipe_sent (kern w') = [9, 64, 65, 66, 67]"
    using write_full_exact[OF dw, of 4 64 ?w] ok rd by (simp del: read_bytes.simps) metis
  moreover have "\<exists>w'. write_full pipe_sys 1 64 8 ?w = Some (- EFAULT, w')"
    using write_full_exact[OF dw, of 8 64 ?w] bad by (simp del: read_bytes.simps) blast
  ultimately show ?thesis by blast
qed

end
