(* ===== verification/Memory.thy ===== *)
theory Memory
  imports Libc_Io
begin

text \<open>
  The two memory arenas of \<^verbatim>\<open>client/memory.c\<close>: a reserved address range in which pages
  are made accessible on demand and blocks are handed out by moving a break pointer. The
  record \<open>arena\<close> is \<^verbatim>\<open>struct Arena\<close>; \<open>arenas\<close> holds the two global arenas. The
  locale \<open>bump_allocator\<close> is what the clients of the allocator rely on, and both
  allocation entry points are interpretations of it.
\<close>

unbundle bit_operations_syntax

subsection \<open>Model\<close>

record arena =
  arena_start :: u64
  arena_end :: u64
  arena_brk :: u64
  arena_brkp :: u64

record arenas =
  main_arena_code :: arena
  main_arena_data :: arena

abbreviation (input) PROT_NONE :: int where "PROT_NONE \<equiv> 0"
abbreviation (input) PROT_READ :: int where "PROT_READ \<equiv> 1"
abbreviation (input) PROT_WRITE :: int where "PROT_WRITE \<equiv> 2"
abbreviation (input) PROT_EXEC :: int where "PROT_EXEC \<equiv> 4"
abbreviation (input) MAP_PRIVATE :: int where "MAP_PRIVATE \<equiv> 0x02"
abbreviation (input) MAP_FIXED :: int where "MAP_FIXED \<equiv> 0x10"
abbreviation (input) MAP_ANONYMOUS :: int where "MAP_ANONYMOUS \<equiv> 0x20"
abbreviation (input) MAP_NORESERVE :: int where "MAP_NORESERVE \<equiv> 0x4000"

abbreviation (input) MEM_BASE :: u64 where "MEM_BASE \<equiv> 0x0000400000000000"
abbreviation (input) MEM_CODE_SIZE :: u64 where "MEM_CODE_SIZE \<equiv> 0x40000000"
abbreviation (input) MEM_DATA_SIZE :: u64 where "MEM_DATA_SIZE \<equiv> 0x01000000"

definition arena_init ::
  "'k sysfn \<Rightarrow> arena \<Rightarrow> u64 \<Rightarrow> u64 \<Rightarrow> 'k world \<Rightarrow> int \<times> arena \<times> 'k world" where
  "arena_init sys a base sz w =
     (case mmap sys base sz PROT_NONE (or (or MAP_PRIVATE MAP_ANONYMOUS) MAP_NORESERVE) (- 1) 0 w of
        (m, w') \<Rightarrow>
          if BAD_ADDR m then (c_int m, a, w')
          else (0, \<lparr>arena_start = m, arena_end = m + sz, arena_brk = m, arena_brkp = m\<rparr>, w'))"

definition arena_alloc ::
  "'k sysfn \<Rightarrow> arena \<Rightarrow> u64 \<Rightarrow> u64 \<Rightarrow> bool \<Rightarrow> 'k world \<Rightarrow> u64 \<times> arena \<times> 'k world" where
  "arena_alloc sys a sz alignment0 exec w =
     (let alignment = (if alignment0 < 0x40 then 0x40 else alignment0) in
      if alignment AND (alignment - 1) \<noteq> 0 then (err_ptr (- EINVAL), a, w)
      else
        let brk_al = ALIGN_UP (arena_brk a) alignment in
        if brk_al + sz \<le> arena_brkp a then (brk_al, a\<lparr>arena_brk := brk_al + sz\<rparr>, w)
        else
          let newpgsz = ALIGN_UP (sz - (arena_brkp a - brk_al)) (pagesize w) in
          if arena_brk a + newpgsz > arena_end a then (err_ptr (- ENOMEM), a, w)
          else
            let prot = or (or PROT_READ PROT_WRITE) (if exec then PROT_EXEC else 0) in
            (case mprotect sys (arena_brkp a) newpgsz prot w of
               (ret, w') \<Rightarrow>
                 if ret < 0 then (err_ptr ret, a, w')
                 else (brk_al,
                       a\<lparr>arena_brkp := arena_brkp a + newpgsz, arena_brk := brk_al + sz\<rparr>, w')))"

definition mem_init :: "'k sysfn \<Rightarrow> arenas \<Rightarrow> 'k world \<Rightarrow> int \<times> arenas \<times> 'k world" where
  "mem_init sys g w =
     (case arena_init sys (main_arena_data g) MEM_BASE MEM_DATA_SIZE w of (ret, d, w1) \<Rightarrow>
        let g1 = g\<lparr>main_arena_data := d\<rparr> in
        if ret \<noteq> 0 then (ret, g1, w1)
        else
          (case arena_init sys (main_arena_code g1) (MEM_BASE + MEM_DATA_SIZE) MEM_CODE_SIZE w1 of
             (ret2, c, w2) \<Rightarrow>
               let g2 = g1\<lparr>main_arena_code := c\<rparr> in
               if ret2 \<noteq> 0 then (ret2, g2, w2) else (0, g2, w2)))"

definition mem_alloc_data ::
  "'k sysfn \<Rightarrow> arenas \<Rightarrow> u64 \<Rightarrow> u64 \<Rightarrow> 'k world \<Rightarrow> u64 \<times> arenas \<times> 'k world" where
  "mem_alloc_data sys g sz alignment w =
     (case arena_alloc sys (main_arena_data g) sz alignment False w of
        (p, a, w') \<Rightarrow> (p, g\<lparr>main_arena_data := a\<rparr>, w'))"

definition mem_alloc_code ::
  "'k sysfn \<Rightarrow> arenas \<Rightarrow> u64 \<Rightarrow> u64 \<Rightarrow> 'k world \<Rightarrow> u64 \<times> arenas \<times> 'k world" where
  "mem_alloc_code sys g sz alignment w =
     (case arena_alloc sys (main_arena_code g) sz alignment True w of
        (p, a, w') \<Rightarrow> (p, g\<lparr>main_arena_code := a\<rparr>, w'))"

text \<open>
  \<^verbatim>\<open>mem_write_code\<close> on the x86-64 host is a copy of the bytes; the instruction cache
  needs no flush there.
\<close>

definition mem_write_code :: "u64 \<Rightarrow> u8 list \<Rightarrow> 'k world \<Rightarrow> int \<times> 'k world" where
  "mem_write_code dst src w = (0, w\<lparr>mem := write_bytes (mem w) dst src\<rparr>)"

subsection \<open>The allocator interface\<close>

text \<open>
  What clients rely on. A request \<open>r\<close> that satisfies \<open>okreq\<close> either fails with an error
  pointer and leaves the frontier where it was, or yields a block of \<open>rsize r\<close> bytes at
  or above the old frontier, aligned for the request and ending at the new frontier, which stays
  within the limit.
\<close>

text \<open>A sequence of requests, and the blocks it was granted.\<close>

fun alloc_seq ::
  "('s \<Rightarrow> 'r \<Rightarrow> u64 \<times> 's) \<Rightarrow> ('r \<Rightarrow> nat) \<Rightarrow> 's \<Rightarrow> 'r list \<Rightarrow> (nat \<times> nat) list \<times> 's" where
  "alloc_seq alloc rsize s [] = ([], s)"
| "alloc_seq alloc rsize s (r # rs) =
     (case alloc s r of (p, s') \<Rightarrow>
        case alloc_seq alloc rsize s' rs of (bs, s'') \<Rightarrow>
          (if BAD_ADDR p then bs else (unat p, rsize r) # bs, s''))"

locale bump_allocator =
  fixes alloc :: "'s \<Rightarrow> 'r \<Rightarrow> u64 \<times> 's"
    and inv :: "'s \<Rightarrow> bool"
    and frontier :: "'s \<Rightarrow> nat"
    and limit :: "'s \<Rightarrow> nat"
    and okreq :: "'r \<Rightarrow> bool"
    and rsize :: "'r \<Rightarrow> nat"
  assumes alloc_inv: "inv s \<Longrightarrow> okreq r \<Longrightarrow> alloc s r = (p, s') \<Longrightarrow> inv s'"
    and alloc_limit: "inv s \<Longrightarrow> okreq r \<Longrightarrow> alloc s r = (p, s') \<Longrightarrow> limit s' = limit s"
    and alloc_fail: "inv s \<Longrightarrow> okreq r \<Longrightarrow> alloc s r = (p, s') \<Longrightarrow> BAD_ADDR p \<Longrightarrow>
      frontier s' = frontier s"
    and alloc_block: "inv s \<Longrightarrow> okreq r \<Longrightarrow> alloc s r = (p, s') \<Longrightarrow> \<not> BAD_ADDR p \<Longrightarrow>
      frontier s \<le> unat p \<and> unat p + rsize r = frontier s'"
    and frontier_limit: "inv s \<Longrightarrow> frontier s \<le> limit s"
begin

lemma frontier_mono:
  "inv s \<Longrightarrow> okreq r \<Longrightarrow> alloc s r = (p, s') \<Longrightarrow> frontier s \<le> frontier s'"
  using alloc_fail[of s r p s'] alloc_block[of s r p s'] by (cases "BAD_ADDR p") auto

lemma alloc_seq_blocks:
  assumes "inv s" and "\<forall>r\<in>set rs. okreq r" and "alloc_seq alloc rsize s rs = (bs, s')"
  shows "inv s' \<and> frontier s \<le> frontier s' \<and>
    (\<forall>(p, n)\<in>set bs. frontier s \<le> p \<and> p + n \<le> frontier s' \<and> p + n \<le> limit s)"
  using assms
proof (induction rs arbitrary: s bs s')
  case Nil
  then show ?case by simp
next
  case (Cons r rs)
  obtain p s1 where a: "alloc s r = (p, s1)" by fastforce
  obtain bs1 s2 where b: "alloc_seq alloc rsize s1 rs = (bs1, s2)" by fastforce
  have i1: "inv s1" and l1: "limit s1 = limit s" and f1: "frontier s \<le> frontier s1"
    using Cons.prems a alloc_inv alloc_limit frontier_mono by auto
  have IH: "inv s2 \<and> frontier s1 \<le> frontier s2 \<and>
      (\<forall>(p, n)\<in>set bs1. frontier s1 \<le> p \<and> p + n \<le> frontier s2 \<and> p + n \<le> limit s1)"
    using Cons.IH[OF i1 _ b] Cons.prems by simp
  have s': "s' = s2" and bs: "bs = (if BAD_ADDR p then bs1 else (unat p, rsize r) # bs1)"
    using Cons.prems(3) a b by auto
  have "frontier s \<le> unat p \<and> unat p + rsize r = frontier s1" if "\<not> BAD_ADDR p"
    using alloc_block[OF _ _ a that] Cons.prems by simp
  moreover have "frontier s1 \<le> limit s" using frontier_limit[OF i1] l1 by simp
  ultimately show ?case using IH f1 l1 s' bs by (fastforce split: if_splits)
qed

lemma alloc_seq_disjoint:
  assumes "inv s" and "\<forall>r\<in>set rs. okreq r" and "alloc_seq alloc rsize s rs = (bs, s')"
    and "i < j" and "j < length bs"
  shows "fst (bs ! i) + snd (bs ! i) \<le> fst (bs ! j)"
  using assms
proof (induction rs arbitrary: s bs s' i j)
  case Nil
  then show ?case by simp
next
  case (Cons r rs)
  obtain p s1 where a: "alloc s r = (p, s1)" by fastforce
  obtain bs1 s2 where b: "alloc_seq alloc rsize s1 rs = (bs1, s2)" by fastforce
  have i1: "inv s1" using Cons.prems a alloc_inv by auto
  have ok: "\<forall>r\<in>set rs. okreq r" using Cons.prems by simp
  have bs: "bs = (if BAD_ADDR p then bs1 else (unat p, rsize r) # bs1)"
    using Cons.prems(3) a b by auto
  show ?case
  proof (cases "BAD_ADDR p \<or> i \<noteq> 0")
    case True
    then show ?thesis using Cons.IH[OF i1 ok b, of i j] Cons.IH[OF i1 ok b, of "i - 1" "j - 1"]
        Cons.prems(4,5) bs by (cases i; cases j) (auto split: if_splits)
  next
    case False
    with bs Cons.prems(4,5) have "bs ! j \<in> set bs1" by (cases j) auto
    then have "frontier s1 \<le> fst (bs ! j)"
      using alloc_seq_blocks[OF i1 ok b] by fastforce
    moreover have "unat p + rsize r = frontier s1"
      using alloc_block[OF _ _ a] False Cons.prems by simp
    ultimately show ?thesis using False bs by simp
  qed
qed

end

subsection \<open>The arena invariant\<close>

text \<open>
  The invariant of an arena with pages of \<open>2 ^ pg\<close> bytes: the break lies between the start and
  the end of the accessible part, less than a page below the latter, and the accessible part
  ends on a page boundary within the arena. The addresses are user addresses, far from
  wrapping around. The distance of less than a page is what makes the test against
  \<^verbatim>\<open>arena->brk\<close> rather than \<^verbatim>\<open>arena->brkp\<close> in \<open>arena_alloc\<close> sufficient.
\<close>

definition arena_inv :: "nat \<Rightarrow> arena \<Rightarrow> bool" where
  "arena_inv pg a \<longleftrightarrow>
     unat (arena_start a) \<le> unat (arena_brk a) \<and> unat (arena_brk a) \<le> unat (arena_brkp a) \<and>
     unat (arena_brkp a) \<le> unat (arena_end a) \<and> unat (arena_brkp a) < unat (arena_brk a) + 2 ^ pg \<and>
     2 ^ pg dvd unat (arena_brkp a) \<and> 2 ^ pg dvd unat (arena_end a) \<and>
     unat (arena_end a) \<le> 2 ^ 61 \<and> pg < 32"

text \<open>The kernel reports failures of \<^verbatim>\<open>mprotect\<close> as errno values.\<close>

definition mprotect_errno :: "'k sysfn \<Rightarrow> bool" where
  "mprotect_errno sys \<longleftrightarrow> (\<forall>args m k. - 4095 \<le> c_int (fst (sys NR_mprotect args m k)))"

lemma mprotect_ret:
  "mprotect_errno sys \<Longrightarrow> mprotect sys addr len prot w = (ret, w') \<Longrightarrow> - 4095 \<le> ret \<and> pagesize w' = pagesize w"
  by (auto simp: mprotect_errno_def mprotect_def ret_int_def syscall3_def do_syscall_def
      split: prod.splits) (metis fst_conv)

lemma BAD_ADDR_err: "- 4095 \<le> e \<Longrightarrow> e < 0 \<Longrightarrow> BAD_ADDR (err_ptr e)"
proof -
  assume "- 4095 \<le> e" "e < 0"
  then have "(e + 2 ^ 64) mod 2 ^ 64 = e + 2 ^ 64"
    by (intro mod_pos_pos_trivial) simp_all
  then have "uint (err_ptr e) = 2 ^ 64 + e"
    by (simp add: err_ptr_def uint_word_of_int take_bit_eq_mod)
  with \<open>- 4095 \<le> e\<close> show ?thesis by (simp add: BAD_ADDR_def word_less_def)
qed

lemma BAD_ADDR_small: "unat p \<le> 2 ^ 62 \<Longrightarrow> \<not> BAD_ADDR p"
  by (simp add: BAD_ADDR_def word_less_nat_alt)

lemma dvd_less_add_le:
  fixes x y d :: nat
  assumes "d dvd x" "d dvd y" "x < y + d"
  shows "x \<le> y"
proof -
  obtain i j where "x = d * i" "y = d * j" using assms(1,2) by (auto elim!: dvdE)
  with assms(3) have "d * i < d * (j + 1)" by simp
  then have "i < j + 1" by (rule mult_less_cancel1[THEN iffD1, THEN conjunct2])
  then show ?thesis by (simp add: \<open>x = d * i\<close> \<open>y = d * j\<close>)
qed

text \<open>The alignment used for a request that passes the power-of-two test.\<close>

lemma alignment_pow2:
  fixes al :: u64
  assumes "(if al < 0x40 then 0x40 else al) AND ((if al < 0x40 then 0x40 else al) - 1) = 0"
    and "unat al \<le> 2 ^ 61"
  obtains n where "n \<le> 61" and "(if al < 0x40 then 0x40 else al) = 2 ^ n"
proof -
  let ?a = "if al < 0x40 then 0x40 else al"
  have "?a \<noteq> 0" by (auto simp: word_less_nat_alt)
  then obtain n where n: "n < 64" "?a = 2 ^ n"
    using and_pred_eq_0_pow2[OF _ assms(1)] by auto
  have "unat ?a \<le> 2 ^ 61" using assms(2) by simp
  then have "(2::nat) ^ n \<le> 2 ^ 61" using n by (simp add: unat_exp_lt)
  then have "n \<le> 61" by (simp only: power_increasing_iff one_less_numeral_iff semiring_norm)
  with n(2) show thesis by (rule that[rotated])
qed

lemma arena_alloc_cases:
  assumes inv: "arena_inv pg a" and err: "mprotect_errno sys" and pgs: "pagesize w = 2 ^ pg"
    and sz: "unat sz \<le> 2 ^ 61" and al: "unat al \<le> 2 ^ 61"
    and r: "arena_alloc sys a sz al exec w = (p, a', w')"
  shows "pagesize w' = pagesize w \<and> arena_inv pg a' \<and>
    arena_start a' = arena_start a \<and> arena_end a' = arena_end a \<and>
    (BAD_ADDR p \<and> a' = a \<or>
     \<not> BAD_ADDR p \<and> unat (arena_brk a) \<le> unat p \<and> unat p + unat sz = unat (arena_brk a') \<and>
       unat (if al < 0x40 then 0x40 else al) dvd unat p \<and>
       unat (arena_brkp a) \<le> unat (arena_brkp a'))"
proof (cases "(if al < 0x40 then 0x40 else al) AND ((if al < 0x40 then 0x40 else al) - 1) = 0")
  case False
  then show ?thesis using r inv by (auto simp: arena_alloc_def Let_def BAD_ADDR_err)
next
  case True
  obtain n where n: "n \<le> 61" "(if al < 0x40 then 0x40 else al) = 2 ^ n"
    using alignment_pow2[OF True al] by blast
  note inv' = inv[unfolded arena_inv_def]
  define b where "b = ALIGN_UP (arena_brk a) (2 ^ n)"
  have p61: "(2::nat) ^ n \<le> 2 ^ 61" using n(1) by (rule power_increasing) simp
  have nw: "unat (arena_brk a) + (2 ^ n - 1) < 2 ^ LENGTH(64)" using inv' p61 by auto
  have n64: "n < LENGTH(64)" using n(1) by simp
  have b: "unat (arena_brk a) \<le> unat b" "unat b < unat (arena_brk a) + 2 ^ n" "2 ^ n dvd unat b"
    using ALIGN_UP_bounds[OF n64 nw] by (simp_all add: b_def)
  have bsz: "unat (b + sz) = unat b + unat sz"
    using b(2) sz p61 inv' by (simp add: unat_word_ariths)
  have ndvd: "unat (if al < 0x40 then 0x40 else al) dvd unat b"
    unfolding n(2) using b(3) n64 by (simp add: unat_exp_lt)
  show ?thesis
  proof (cases "b + sz \<le> arena_brkp a")
    case easy: True
    then have "unat b + unat sz \<le> unat (arena_brkp a)" using bsz by (simp add: word_le_nat_alt)
    moreover have "p = b" "a' = a\<lparr>arena_brk := b + sz\<rparr>" "w' = w"
      using r True easy n(2)
      by (auto simp: arena_alloc_def Let_def b_def[symmetric] simp del: if_split)
    ultimately show ?thesis using b bsz inv' ndvd BAD_ADDR_small[of b]
      by (auto simp: arena_inv_def)
  next
    case slow: False
    define need where "need = sz - (arena_brkp a - b)"
    define np where "np = ALIGN_UP need (2 ^ pg)"
    have gt: "unat (arena_brkp a) < unat b + unat sz" using slow bsz by (simp add: word_le_nat_alt)
    have "need = (b + sz) - arena_brkp a" by (simp add: need_def)
    then have need: "unat need = unat b + unat sz - unat (arena_brkp a)"
      using gt bsz slow by (simp add: unat_sub)
    have pg64: "pg < LENGTH(64)" and p32: "(2::nat) ^ pg \<le> 2 ^ 32"
      using inv' by (simp, intro power_increasing) simp_all
    have need61: "unat need \<le> 2 ^ 61 + 2 ^ 61 + 2 ^ 61"
      using need b(2) p61 sz inv' by linarith
    then have nw2: "unat need + (2 ^ pg - 1) < 2 ^ LENGTH(64)" using p32 by simp
    have np: "unat need \<le> unat np" "unat np < unat need + 2 ^ pg" "2 ^ pg dvd unat np"
      using ALIGN_UP_bounds[OF pg64 nw2] by (simp_all add: np_def)
    have np62: "unat np \<le> 2 ^ 61 + 2 ^ 61 + 2 ^ 61 + 2 ^ 32"
      using np(2) need61 p32 by linarith
    then have brknp: "unat (arena_brk a + np) = unat (arena_brk a) + unat np"
      and brkpnp: "unat (arena_brkp a + np) = unat (arena_brkp a) + unat np"
      using inv' by (simp_all add: unat_word_ariths)
    show ?thesis
    proof (cases "arena_brk a + np > arena_end a")
      case True
      with r slow n(2) \<open>_ AND _ = 0\<close> show ?thesis using inv
        by (auto simp: arena_alloc_def Let_def b_def[symmetric] need_def[symmetric] np_def[symmetric]
            pgs BAD_ADDR_err simp del: if_split)
    next
      case fits: False
      obtain ret w1 where mp: "mprotect sys (arena_brkp a) np
          (or (or PROT_READ PROT_WRITE) (if exec then PROT_EXEC else 0)) w = (ret, w1)" by fastforce
      note mpr = mprotect_ret[OF err mp]
      have res: "(p, a', w') = (if ret < 0 then (err_ptr ret, a, w1)
          else (b, a\<lparr>arena_brkp := arena_brkp a + np, arena_brk := b + sz\<rparr>, w1))"
        using r slow fits n(2) True mp
        by (simp add: arena_alloc_def Let_def b_def[symmetric] need_def[symmetric] np_def[symmetric]
            pgs del: if_split)
      show ?thesis
      proof (cases "ret < 0")
        case True
        then show ?thesis using res mpr inv by (simp add: BAD_ADDR_err)
      next
        case False
        have "unat (arena_brk a) + unat np \<le> unat (arena_end a)"
          using fits brknp by (simp add: not_less word_le_nat_alt)
        then have "unat (arena_brkp a) + unat np \<le> unat (arena_end a)"
          using inv' np(3) by (intro dvd_less_add_le[of "2 ^ pg"]) (auto intro: dvd_add)
        moreover have "\<not> BAD_ADDR b"
          by (rule BAD_ADDR_small) (use b(2) p61 inv' in auto)
        ultimately show ?thesis using res False mpr inv' b bsz brkpnp np need gt ndvd
          by (auto simp: arena_inv_def intro: dvd_add)
      qed
    qed
  qed
qed

subsection \<open>Both entry points are bump allocators\<close>

definition code_request :: "'k sysfn \<Rightarrow> arenas \<times> 'k world \<Rightarrow> u64 \<times> u64 \<Rightarrow> u64 \<times> arenas \<times> 'k world" where
  "code_request sys s r = mem_alloc_code sys (fst s) (fst r) (snd r) (snd s)"

definition data_request :: "'k sysfn \<Rightarrow> arenas \<times> 'k world \<Rightarrow> u64 \<times> u64 \<Rightarrow> u64 \<times> arenas \<times> 'k world" where
  "data_request sys s r = mem_alloc_data sys (fst s) (fst r) (snd r) (snd s)"

definition arenas_inv :: "'k sysfn \<Rightarrow> nat \<Rightarrow> arenas \<times> 'k world \<Rightarrow> bool" where
  "arenas_inv sys pg s \<longleftrightarrow> arena_inv pg (main_arena_code (fst s)) \<and>
     arena_inv pg (main_arena_data (fst s)) \<and> mprotect_errno sys \<and> pagesize (snd s) = 2 ^ pg"

abbreviation okrequest :: "u64 \<times> u64 \<Rightarrow> bool" where
  "okrequest r \<equiv> unat (fst r) \<le> 2 ^ 61 \<and> unat (snd r) \<le> 2 ^ 61"

lemma code_request_cases:
  assumes "arenas_inv sys pg s" and "okrequest r" and "code_request sys s r = (p, s')"
  shows "arenas_inv sys pg s' \<and> main_arena_data (fst s') = main_arena_data (fst s) \<and>
    arena_end (main_arena_code (fst s')) = arena_end (main_arena_code (fst s)) \<and>
    (BAD_ADDR p \<and> arena_brk (main_arena_code (fst s')) = arena_brk (main_arena_code (fst s)) \<or>
     \<not> BAD_ADDR p \<and> unat (arena_brk (main_arena_code (fst s))) \<le> unat p \<and>
     unat p + unat (fst r) = unat (arena_brk (main_arena_code (fst s'))))"
  using assms arena_alloc_cases[of pg "main_arena_code (fst s)" sys "snd s" "fst r" "snd r" True]
  by (auto simp: arenas_inv_def code_request_def mem_alloc_code_def split: prod.splits)

lemma data_request_cases:
  assumes "arenas_inv sys pg s" and "okrequest r" and "data_request sys s r = (p, s')"
  shows "arenas_inv sys pg s' \<and> main_arena_code (fst s') = main_arena_code (fst s) \<and>
    arena_end (main_arena_data (fst s')) = arena_end (main_arena_data (fst s)) \<and>
    (BAD_ADDR p \<and> arena_brk (main_arena_data (fst s')) = arena_brk (main_arena_data (fst s)) \<or>
     \<not> BAD_ADDR p \<and> unat (arena_brk (main_arena_data (fst s))) \<le> unat p \<and>
     unat p + unat (fst r) = unat (arena_brk (main_arena_data (fst s'))))"
  using assms arena_alloc_cases[of pg "main_arena_data (fst s)" sys "snd s" "fst r" "snd r" False]
  by (auto simp: arenas_inv_def data_request_def mem_alloc_data_def split: prod.splits)

interpretation code_alloc: bump_allocator
  "code_request sys" "arenas_inv sys pg" "\<lambda>s. unat (arena_brk (main_arena_code (fst s)))"
  "\<lambda>s. unat (arena_end (main_arena_code (fst s)))" okrequest "\<lambda>r. unat (fst r)"
  for sys :: "'k sysfn" and pg
proof (unfold_locales, goal_cases)
  case (1 s r p s')
  then show ?case using code_request_cases by blast
next
  case (2 s r p s')
  then show ?case using code_request_cases by metis
next
  case (3 s r p s')
  then show ?case using code_request_cases by metis
next
  case (4 s r p s')
  then show ?case using code_request_cases by metis
next
  case (5 s)
  then show ?case by (auto simp: arenas_inv_def arena_inv_def)
qed

interpretation data_alloc: bump_allocator
  "data_request sys" "arenas_inv sys pg" "\<lambda>s. unat (arena_brk (main_arena_data (fst s)))"
  "\<lambda>s. unat (arena_end (main_arena_data (fst s)))" okrequest "\<lambda>r. unat (fst r)"
  for sys :: "'k sysfn" and pg
proof (unfold_locales, goal_cases)
  case (1 s r p s')
  then show ?case using data_request_cases by blast
next
  case (2 s r p s')
  then show ?case using data_request_cases by metis
next
  case (3 s r p s')
  then show ?case using data_request_cases by metis
next
  case (4 s r p s')
  then show ?case using data_request_cases by metis
next
  case (5 s)
  then show ?case by (auto simp: arenas_inv_def arena_inv_def)
qed

subsection \<open>Properties\<close>

text \<open>
  What \<^verbatim>\<open>mem_init\<close> relies on: a mapping is a page-aligned range of user addresses. And a
  concrete kernel for the witnesses, which maps where it is asked to and grants every change of
  protection.
\<close>

definition mmap_user :: "'k sysfn \<Rightarrow> nat \<Rightarrow> bool" where
  "mmap_user sys pg \<longleftrightarrow> (\<forall>args m k. let r = fst (sys NR_mmap args m k) in
     BAD_ADDR r \<or> 2 ^ pg dvd unat r \<and> unat r + unat (args ! 1) \<le> 2 ^ 47)"

definition grant_sys :: "unit sysfn" where
  "grant_sys nr args m k =
     (if nr = NR_mmap then
        (if 0x1000 dvd unat (args ! 0) \<and> unat (args ! 0) + unat (args ! 1) \<le> 2 ^ 47
         then args ! 0 else err_ptr (- ENOMEM), m, k)
      else (0, m, k))"

lemma grant_sys_errno: "mprotect_errno grant_sys"
  by (simp add: mprotect_errno_def grant_sys_def c_int_def)

lemma grant_sys_mmap: "mmap_user grant_sys 12"
  by (simp add: mmap_user_def grant_sys_def BAD_ADDR_err)

definition fresh_arena :: "u64 \<Rightarrow> u64 \<Rightarrow> arena" where
  "fresh_arena base sz = \<lparr>arena_start = base, arena_end = base + sz, arena_brk = base, arena_brkp = base\<rparr>"

definition fresh_arenas :: arenas where
  "fresh_arenas = \<lparr>main_arena_code = fresh_arena (MEM_BASE + MEM_DATA_SIZE) MEM_CODE_SIZE,
                   main_arena_data = fresh_arena MEM_BASE MEM_DATA_SIZE\<rparr>"

definition boot_world :: "'k \<Rightarrow> 'k world" where
  "boot_world k = \<lparr>mem = (\<lambda>_. 0), kern = k, pagesize = 0x1000\<rparr>"

lemma fresh_arenas_inv: "arenas_inv grant_sys 12 (fresh_arenas, boot_world ())"
  by (simp add: arenas_inv_def arena_inv_def fresh_arenas_def fresh_arena_def boot_world_def
      grant_sys_errno)

text \<open>
  C5: An allocation from an arena that satisfies the arena invariant either returns an error
  pointer and leaves the arena unchanged, or returns a block that starts at or above the old
  break, ends at the new break inside the accessible part of the arena, and is aligned to the
  requested alignment (at least 64 bytes). The invariant is kept in every case; in
  particular the accessible part never grows past the end of the arena, although the
  code compares the break and not the end of the accessible part with it.
\<close>

theorem arena_alloc_correct:
  assumes "arena_inv pg a" and "mprotect_errno sys" and "pagesize w = 2 ^ pg"
    and "unat sz \<le> 2 ^ 61" and "unat al \<le> 2 ^ 61"
    and "arena_alloc sys a sz al exec w = (p, a', w')"
  shows "arena_inv pg a' \<and> arena_start a' = arena_start a \<and> arena_end a' = arena_end a \<and>
    (BAD_ADDR p \<and> a' = a \<or>
     \<not> BAD_ADDR p \<and> unat (arena_brk a) \<le> unat p \<and> unat p + unat sz = unat (arena_brk a') \<and>
     unat (arena_brk a') \<le> unat (arena_brkp a') \<and> unat (arena_brkp a') \<le> unat (arena_end a) \<and>
     64 dvd unat p \<and> unat (max 0x40 al) dvd unat p)"
proof -
  note c = arena_alloc_cases[OF assms]
  have m: "max 0x40 al = (if al < 0x40 then 0x40 else al)" by (auto simp: max_def)
  have "64 dvd unat p" if "\<not> BAD_ADDR p"
  proof -
    have d: "unat (if al < 0x40 then 0x40 else al) dvd unat p" using c that by blast
    have "(if al < 0x40 then 0x40 else al) AND ((if al < 0x40 then 0x40 else al) - 1) = 0"
    proof (rule ccontr)
      assume "\<not> ?thesis"
      then have "p = err_ptr (- EINVAL)" using assms(6) by (auto simp: arena_alloc_def Let_def)
      with that show False by (simp add: BAD_ADDR_err)
    qed
    from alignment_pow2[OF this assms(5)] obtain n
      where n: "n \<le> 61" "(if al < 0x40 then 0x40 else al) = 2 ^ n" by blast
    have "unat (if al < 0x40 then 0x40 else al) \<ge> 64" by (auto simp: word_less_nat_alt)
    then have "(2::nat) ^ 6 \<le> 2 ^ n" unfolding n(2) using n(1) by (simp add: unat_exp_lt)
    then have "6 \<le> n" by (simp only: power_increasing_iff one_less_numeral_iff semiring_norm)
    then have "(2::nat) ^ 6 dvd 2 ^ n" by (rule le_imp_power_dvd)
    then show ?thesis using d unfolding n(2) using n(1) by (auto simp: unat_exp_lt elim: dvd_trans)
  qed
  then show ?thesis using c unfolding m arena_inv_def by auto
qed

theorem arena_alloc_correct_witness:
  "let a = fresh_arena MEM_BASE MEM_DATA_SIZE; w = boot_world () in
   case arena_alloc grant_sys a 100 8 False w of (p, a', w') \<Rightarrow>
     arena_inv 12 a' \<and> p = MEM_BASE \<and> arena_brk a' = MEM_BASE + 100 \<and>
     unat p + unat (100::u64) = unat (arena_brk a')"
proof -
  let ?a = "fresh_arena MEM_BASE MEM_DATA_SIZE"
  have i: "arena_inv 12 ?a" by (simp add: arena_inv_def fresh_arena_def)
  have r: "arena_alloc grant_sys ?a 100 8 False (boot_world ()) =
    (MEM_BASE, ?a\<lparr>arena_brkp := MEM_BASE + 0x1000, arena_brk := MEM_BASE + 100\<rparr>, boot_world ())"
    by (simp add: arena_alloc_def fresh_arena_def boot_world_def ALIGN_UP_def Let_def mprotect_def
        ret_int_def syscall3_def do_syscall_def grant_sys_def c_int_def)
  show ?thesis
    using arena_alloc_correct[OF i grant_sys_errno _ _ _ r]
    unfolding Let_def r by (simp add: boot_world_def fresh_arena_def BAD_ADDR_def)
qed

text \<open>
  C23: Any sequence of code allocations grants blocks that lie inside the code arena and are
  pairwise disjoint, in the order they were granted.
\<close>

theorem code_blocks_disjoint:
  assumes "arenas_inv sys pg (g, w)" and "\<forall>r\<in>set rs. unat (fst r) \<le> 2 ^ 61 \<and> unat (snd r) \<le> 2 ^ 61"
    and "alloc_seq (code_request sys) (\<lambda>r. unat (fst r)) (g, w) rs = (bs, g', w')"
  shows "arenas_inv sys pg (g', w') \<and>
    (\<forall>(p, n)\<in>set bs. unat (arena_brk (main_arena_code g)) \<le> p \<and>
                     p + n \<le> unat (arena_end (main_arena_code g))) \<and>
    (\<forall>i j. i < j \<longrightarrow> j < length bs \<longrightarrow> fst (bs ! i) + snd (bs ! i) \<le> fst (bs ! j))"
  using code_alloc.alloc_seq_blocks[OF assms] code_alloc.alloc_seq_disjoint[OF assms] by fastforce

theorem code_blocks_disjoint_witness:
  "let rs = [(100, 8), (0x2000, 0x1000), (16, 64)] in
   alloc_seq (code_request grant_sys) (\<lambda>r. unat (fst r)) (fresh_arenas, boot_world ()) rs =
     ([(0x400001000000, 100), (0x400001001000, 0x2000), (0x400001003000, 16)],
      snd (alloc_seq (code_request grant_sys) (\<lambda>r. unat (fst r)) (fresh_arenas, boot_world ()) rs)) \<and>
   fst ([(0x400001000000, 100), (0x400001001000, 0x2000), (0x400001003000, 16::nat)] ! 0) + 100
     \<le> (0x400001001000::nat)"
proof -
  let ?rs = "[(100, 8), (0x2000, 0x1000), (16, 64)] :: (u64 \<times> u64) list"
  let ?bs = "[(0x400001000000, 100), (0x400001001000, 0x2000), (0x400001003000, 16)] :: (nat \<times> nat) list"
  obtain g w where s: "alloc_seq (code_request grant_sys) (\<lambda>r. unat (fst r)) (fresh_arenas, boot_world ()) ?rs
      = (?bs, g, w)"
    by (simp add: code_request_def mem_alloc_code_def arena_alloc_def fresh_arenas_def fresh_arena_def
        boot_world_def ALIGN_UP_def Let_def mprotect_def ret_int_def syscall3_def do_syscall_def
        grant_sys_def c_int_def BAD_ADDR_def)
  show ?thesis
    using code_blocks_disjoint[OF fresh_arenas_inv _ s] s by (simp add: Let_def)
qed

lemma c_int_bad: "BAD_ADDR r \<Longrightarrow> c_int r \<noteq> 0"
proof -
  assume "BAD_ADDR r"
  then have lo: "(0xfffffffffffff000 :: nat) < unat r" by (simp add: BAD_ADDR_def word_less_nat_alt)
  have hi: "unat r < 0x10000000000000000" using unsigned_less[of r] by simp
  obtain x where x: "unat r = x + 0xffffffff * 0x100000000" "0 < x" "x < 0x100000000"
    using that[of "unat r - 0xffffffff00000000"] lo hi by auto
  have "unat r mod 0x100000000 = x"
    unfolding x(1) mod_mult_self1 using x(3) by (rule mod_less)
  then have "unat r mod 0x100000000 \<noteq> 0" using x(2) by simp
  then have "unat (ucast r :: u32) \<noteq> 0" by (simp add: unsigned_ucast_eq take_bit_eq_mod)
  then have "(ucast r :: u32) \<noteq> 0" by (metis unsigned_0)
  then show ?thesis by (simp add: c_int_def signed_eq_0_iff)
qed

lemma arena_init_inv:
  assumes "mmap_user sys pg" and "pg < 32" and "2 ^ pg dvd unat sz"
    and "arena_init sys a base sz w = (0, a', w')"
  shows "arena_inv pg a' \<and> arena_brk a' = arena_start a' \<and> arena_end a' = arena_start a' + sz \<and>
    pagesize w' = pagesize w"
proof -
  let ?args = "[base, sz, word_of_int PROT_NONE,
      word_of_int (or (or MAP_PRIVATE MAP_ANONYMOUS) MAP_NORESERVE), word_of_int (- 1), 0]"
  obtain r m k where s: "sys NR_mmap ?args (mem w) (kern w) = (r, m, k)" by (metis prod_cases3)
  have "BAD_ADDR r \<or> 2 ^ pg dvd unat r \<and> unat r + unat sz \<le> 2 ^ 47"
    using assms(1)[unfolded mmap_user_def, rule_format, of ?args "mem w" "kern w"] s
    by (simp add: Let_def)
  moreover have "unat (r + sz) = unat r + unat sz" if "unat r + unat sz \<le> 2 ^ 47"
    using that by (simp add: unat_word_ariths)
  ultimately show ?thesis using assms(2-4) s c_int_bad[of r]
    by (auto simp: arena_init_def mmap_def syscall6_def do_syscall_def arena_inv_def
        split: if_splits intro: dvd_add)
qed

text \<open>
  C38: When \<open>mem_init\<close> succeeds, both arenas satisfy the arena invariant, nothing of them
  is allocated yet, and they have the sizes the code asks for.
\<close>

theorem mem_init_establishes:
  assumes "mprotect_errno sys" and "mmap_user sys 12" and "pagesize w = 0x1000"
    and "mem_init sys g w = (0, g', w')"
  shows "arenas_inv sys 12 (g', w') \<and>
    arena_brk (main_arena_code g') = arena_start (main_arena_code g') \<and>
    arena_brk (main_arena_data g') = arena_start (main_arena_data g') \<and>
    arena_end (main_arena_code g') = arena_start (main_arena_code g') + MEM_CODE_SIZE \<and>
    arena_end (main_arena_data g') = arena_start (main_arena_data g') + MEM_DATA_SIZE"
proof -
  obtain d w1 where d: "arena_init sys (main_arena_data g) MEM_BASE MEM_DATA_SIZE w = (0, d, w1)"
    using assms(4) by (auto simp: mem_init_def Let_def split: prod.splits if_splits)
  obtain c w2 where c: "arena_init sys (main_arena_code g) (MEM_BASE + MEM_DATA_SIZE) MEM_CODE_SIZE w1 = (0, c, w2)"
    using assms(4) d by (auto simp: mem_init_def Let_def split: prod.splits if_splits)
  have g': "g' = g\<lparr>main_arena_data := d, main_arena_code := c\<rparr>" "w' = w2"
    using assms(4) d c by (auto simp: mem_init_def Let_def)
  show ?thesis
    using arena_init_inv[OF assms(2) _ _ d] arena_init_inv[OF assms(2) _ _ c] assms(1,3) g'
    by (simp add: arenas_inv_def)
qed

theorem mem_init_establishes_witness:
  "mem_init grant_sys fresh_arenas (boot_world ()) = (0, fresh_arenas, boot_world ()) \<and>
   arenas_inv grant_sys 12 (fresh_arenas, boot_world ())"
proof -
  have e: "mem_init grant_sys fresh_arenas (boot_world ()) = (0, fresh_arenas, boot_world ())"
    by (simp add: mem_init_def arena_init_def mmap_def syscall6_def do_syscall_def Let_def
        grant_sys_def boot_world_def fresh_arenas_def fresh_arena_def BAD_ADDR_def)
  show ?thesis
    using e mem_init_establishes[OF grant_sys_errno grant_sys_mmap _ e] by (simp add: boot_world_def)
qed

end
