(* ===== verification/Libc_String.thy ===== *)
theory Libc_String
  imports Prelude "HOL-Library.Char_ord" "HOL-Library.List_Lexorder"
begin

text \<open>
  The string and memory functions of \<^verbatim>\<open>client/minilibc.c\<close>. A pointer into a C string is
  the list of characters from it to the terminating NUL, which is not part of the list:
  reading at the end of the list yields NUL. \<open>cstring\<close> says that no NUL occurs earlier.
  The memory functions work on byte-addressed memory.
\<close>

subsection \<open>Strings\<close>

abbreviation (input) NUL :: char where "NUL \<equiv> CHR 0x00"

definition cstring :: "string \<Rightarrow> bool" where
  "cstring s \<longleftrightarrow> NUL \<notin> set s"

definition deref :: "string \<Rightarrow> char" where
  "deref s = (case s of [] \<Rightarrow> NUL | c # _ \<Rightarrow> c)"

lemma deref_simps [simp]: "deref [] = NUL" "deref (c # s) = c"
  by (simp_all add: deref_def)

lemma deref_NUL: "cstring s \<Longrightarrow> deref s = NUL \<longleftrightarrow> s = []"
  by (cases s) (auto simp: cstring_def)

lemma cstring_simps [simp]: "cstring []" "cstring (c # s) \<longleftrightarrow> c \<noteq> NUL \<and> cstring s"
  by (auto simp: cstring_def)

abbreviation uchar :: "char \<Rightarrow> int" where "uchar \<equiv> of_char"

fun strlen :: "string \<Rightarrow> nat" where
  "strlen [] = 0"
| "strlen (c # s) = (if c = NUL then 0 else Suc (strlen s))"

function strcmp :: "string \<Rightarrow> string \<Rightarrow> int" where
  "strcmp s1 s2 =
     (if deref s1 \<noteq> NUL \<and> deref s1 = deref s2 then strcmp (tl s1) (tl s2)
      else uchar (deref s1) - uchar (deref s2))"
  by pat_completeness auto
termination
  by (relation "measure (\<lambda>(s1, s2). length s1)") (auto simp: deref_def split: list.splits)

function strncmp_loop :: "string \<Rightarrow> string \<Rightarrow> nat \<Rightarrow> int" where
  "strncmp_loop s1 s2 n =
     (let n' = n - 1 in
      if n' \<noteq> 0 \<and> deref s1 \<noteq> NUL \<and> deref s1 = deref s2 then strncmp_loop (tl s1) (tl s2) n'
      else uchar (deref s1) - uchar (deref s2))"
  by pat_completeness auto
termination
  by (relation "measure (\<lambda>(s1, s2, n). length s1)") (auto simp: deref_def split: list.splits)

definition strncmp :: "string \<Rightarrow> string \<Rightarrow> nat \<Rightarrow> int" where
  "strncmp s1 s2 n = (if n > 0 then strncmp_loop s1 s2 n else 0)"

function strchr_loop :: "string \<Rightarrow> char \<Rightarrow> string" where
  "strchr_loop s c = (if deref s \<noteq> NUL \<and> deref s \<noteq> c then strchr_loop (tl s) c else s)"
  by pat_completeness auto
termination
  by (relation "measure (\<lambda>(s, c). length s)") (auto simp: deref_def split: list.splits)

definition strchr :: "string \<Rightarrow> char \<Rightarrow> string option" where
  "strchr s c = (let s' = strchr_loop s c in if deref s' = c then Some s' else None)"

declare strcmp.simps [simp del] strncmp_loop.simps [simp del] strchr_loop.simps [simp del]

subsection \<open>Memory\<close>

fun memset :: "memory \<Rightarrow> u64 \<Rightarrow> u8 \<Rightarrow> nat \<Rightarrow> memory" where
  "memset m s c 0 = m"
| "memset m s c (Suc n) = memset (m(s := c)) (s + 1) c n"

fun memcmp :: "memory \<Rightarrow> u64 \<Rightarrow> u64 \<Rightarrow> nat \<Rightarrow> int" where
  "memcmp m s1 s2 0 = 0"
| "memcmp m s1 s2 (Suc n) =
     (if m s1 \<noteq> m s2 then uint (m s1) - uint (m s2) else memcmp m (s1 + 1) (s2 + 1) n)"

fun memcpy :: "memory \<Rightarrow> u64 \<Rightarrow> u64 \<Rightarrow> nat \<Rightarrow> memory" where
  "memcpy m dest src 0 = m"
| "memcpy m dest src (Suc n) = memcpy (m(dest := m src)) (dest + 1) (src + 1) n"

subsection \<open>Lemmas\<close>

lemma strlen_cstring: "cstring s \<Longrightarrow> strlen s = length s"
  by (induction s) auto

lemma strlen_le: "strlen s \<le> length s"
  by (induction s) auto

lemma uchar_eq_iff: "uchar a = uchar b \<longleftrightarrow> a = b"
  by simp

lemma uchar_NUL [simp]: "uchar NUL = 0"
  by (simp add: of_char_Char)

lemma uchar_char_of: "n < 256 \<Longrightarrow> uchar (char_of n :: char) = int n"
  by (subst of_nat_of_char[symmetric]) simp

lemma uchar_nonneg: "0 \<le> uchar c"
  by (metis of_nat_0_le_iff of_nat_of_char)

lemma uchar_pos: "c \<noteq> NUL \<Longrightarrow> 0 < uchar c"
  using uchar_nonneg[of c] uchar_eq_iff[of c NUL] by simp

lemma uchar_less: "uchar a < uchar b \<longleftrightarrow> a < b"
  by (metis less_char_def of_nat_less_iff of_nat_of_char)

lemma strcmp_Nil: "strcmp [] s2 = - uchar (deref s2)"
  by (subst strcmp.simps) simp

lemma strcmp_Nil2: "c \<noteq> NUL \<Longrightarrow> strcmp (c # s1) [] = uchar c"
  by (subst strcmp.simps) auto

lemma strcmp_Cons:
  "c \<noteq> NUL \<Longrightarrow> strcmp (c # s1) (d # s2) = (if c = d then strcmp s1 s2 else uchar c - uchar d)"
  by (subst strcmp.simps) simp

lemma strcmp_sgn:
  "cstring s1 \<Longrightarrow> cstring s2 \<Longrightarrow>
   sgn (strcmp s1 s2) = (if s1 < s2 then - 1 else if s1 = s2 then 0 else 1)"
proof (induction s1 arbitrary: s2)
  case Nil
  then show ?case by (cases s2) (auto simp: strcmp_Nil uchar_pos)
next
  case (Cons c s1)
  show ?case
  proof (cases s2)
    case Nil
    with Cons.prems show ?thesis by (simp add: strcmp_Nil2 uchar_pos)
  next
    case (Cons d s2')
    show ?thesis
    proof (cases "c = d")
      case True
      with Cons Cons.prems Cons.IH[of s2'] show ?thesis by (simp add: strcmp_Cons)
    next
      case False
      then have "sgn (uchar c - uchar d) = (if c < d then - 1 else 1)"
        using uchar_less[of c d] by (auto simp: sgn_if)
      with False Cons Cons.prems show ?thesis by (auto simp: strcmp_Cons)
    qed
  qed
qed

lemma strncmp_loop_take:
  "cstring s1 \<Longrightarrow> cstring s2 \<Longrightarrow>
   strncmp_loop s1 s2 (Suc n) = strcmp (take (Suc n) s1) (take (Suc n) s2)"
proof (induction n arbitrary: s1 s2)
  case 0
  then show ?case
    by (cases s1; cases s2; subst strncmp_loop.simps) (auto simp: strcmp_Cons strcmp_Nil strcmp_Nil2)
next
  case (Suc n)
  then show ?case
    by (cases s1; cases s2; subst strncmp_loop.simps) (auto simp: strcmp_Cons strcmp_Nil strcmp_Nil2)
qed

lemma strncmp_take:
  "cstring s1 \<Longrightarrow> cstring s2 \<Longrightarrow> strncmp s1 s2 n = strcmp (take n s1) (take n s2)"
  by (cases n) (simp_all add: strncmp_def strncmp_loop_take strcmp_Nil)

lemma strchr_loop_dropWhile:
  "cstring s \<Longrightarrow> strchr_loop s c = dropWhile (\<lambda>x. x \<noteq> c) s"
  by (induction s; subst strchr_loop.simps) auto

lemma strchr_None: "cstring s \<Longrightarrow> c \<noteq> NUL \<Longrightarrow> strchr s c = None \<longleftrightarrow> c \<notin> set s"
  by (induction s) (auto simp: strchr_def strchr_loop_dropWhile)

lemma strchr_Some:
  assumes "cstring s" and "c \<noteq> NUL" and "strchr s c = Some t"
  shows "s = takeWhile (\<lambda>x. x \<noteq> c) s @ t \<and> (\<exists>t'. t = c # t') \<and> cstring t"
proof -
  have t: "t = dropWhile (\<lambda>x. x \<noteq> c) s" and d: "deref t = c"
    using assms by (auto simp: strchr_def strchr_loop_dropWhile Let_def split: if_splits)
  then have "s = takeWhile (\<lambda>x. x \<noteq> c) s @ t" by simp
  moreover have "\<exists>t'. t = c # t'" using d assms(2) by (cases t) auto
  moreover have "cstring t" using assms(1) t by (auto simp: cstring_def dest: set_dropWhileD)
  ultimately show ?thesis by blast
qed

lemma memset_write_bytes: "memset m s c n = write_bytes m s (replicate n c)"
  by (induction n arbitrary: m s) auto

lemma memcmp_eq_0: "memcmp m s1 s2 n = 0 \<longleftrightarrow> read_bytes m s1 n = read_bytes m s2 n"
  by (induction n arbitrary: s1 s2) (auto simp: word_uint_eq_iff)

text \<open>A forward copy is correct when no destination byte is read after it was written.\<close>

lemma memcpy_forward:
  "(\<And>i j. i < j \<Longrightarrow> j < n \<Longrightarrow> dest + of_nat i \<noteq> src + of_nat j) \<Longrightarrow>
   memcpy m dest src n = write_bytes m dest (read_bytes m src n)"
proof (induction n arbitrary: m dest src)
  case 0
  then show ?case by simp
next
  case (Suc n)
  have "memcpy (m(dest := m src)) (dest + 1) (src + 1) n =
      write_bytes (m(dest := m src)) (dest + 1) (read_bytes (m(dest := m src)) (src + 1) n)"
  proof (rule Suc.IH)
    fix i j assume "i < j" "j < n"
    then show "dest + 1 + of_nat i \<noteq> src + 1 + of_nat j"
      using Suc.prems[of "Suc i" "Suc j"] by (simp add: algebra_simps)
  qed
  moreover have "read_bytes (m(dest := m src)) (src + 1) n = read_bytes m (src + 1) n"
  proof (rule read_bytes_cong)
    fix i assume "i < n"
    then show "(m(dest := m src)) (src + 1 + of_nat i) = m (src + 1 + of_nat i)"
      using Suc.prems[of 0 "Suc i"] by (auto simp: algebra_simps)
  qed
  ultimately show ?case by simp
qed

subsection \<open>Properties\<close>

text \<open>
  C39: strcmp orders two C strings lexicographically by their bytes, the sign of its result being
  negative, zero or positive accordingly, and strncmp compares exactly the first n characters.
\<close>

theorem string_compare_correct:
  assumes "cstring s1" and "cstring s2"
  shows "sgn (strcmp s1 s2) = (if s1 < s2 then - 1 else if s1 = s2 then 0 else 1) \<and>
    strncmp s1 s2 n = strcmp (take n s1) (take n s2)"
  using assms by (simp add: strcmp_sgn strncmp_take)

theorem string_compare_correct_witness:
  "sgn (strcmp ''fd=3'' ''fd=12'') = 1 \<and> strncmp ''fd=3'' ''fd=12'' 3 = 0"
proof -
  have "\<not> ''fd=3'' < ''fd=12''" by (simp add: less_char_def of_char_Char)
  then show ?thesis
    using string_compare_correct[of "''fd=3''" "''fd=12''" 3]
    by (simp add: cstring_def strcmp_Cons strcmp_Nil numeral_3_eq_3)
qed

end
