(* ===== verification/Libc_Printf.thy ===== *)
theory Libc_Printf
  imports Libc_Io Libc_String
begin

text \<open>
  Formatted output of \<^verbatim>\<open>client/minilibc.c\<close>: the driver \<^verbatim>\<open>printf_driver\<close>, which
  passes chunks of text to a write function, and its two sinks, the bounded buffer of
  \<^verbatim>\<open>vsnprintf\<close> and the 1024 byte write buffer of \<^verbatim>\<open>vdprintf\<close>. The locale
  \<open>printf_sink\<close> is the contract between the driver and a sink. Sizes and counts are
  natural numbers: they are sizes of objects in memory.
\<close>

unbundle bit_operations_syntax

subsection \<open>The driver\<close>

text \<open>
  A variadic argument is a string or an integer (of any width, read back by \<^verbatim>\<open>va_arg\<close> at the
  width of the conversion). \<^verbatim>\<open>va_arg\<close> of a missing argument or of the wrong kind is undefined
  in C; the model returns \<open>None\<close> there.
\<close>

datatype varg = VStr string | VInt u64

fun va_str :: "varg list \<Rightarrow> (string \<times> varg list) option" where
  "va_str (VStr s # args) = Some (s, args)"
| "va_str _ = None"

fun va_int :: "varg list \<Rightarrow> (u64 \<times> varg list) option" where
  "va_int (VInt v # args) = Some (v, args)"
| "va_int _ = None"

text \<open>\<open>bit_length v\<close> is \<^verbatim>\<open>8 * sizeof(v) - __builtin_clz(v)\<close> for a nonzero \<open>v\<close>.\<close>

fun bit_length :: "nat \<Rightarrow> nat" where
  "bit_length v = (if v = 0 then 0 else Suc (bit_length (v div 2)))"

declare bit_length.simps [simp del]

definition hexdigit :: "nat \<Rightarrow> char" where
  "hexdigit n = ''0123456789abcdef'' ! n"

fun nibble_loop :: "u64 \<Rightarrow> nat \<Rightarrow> string" where
  "nibble_loop v 0 = []"
| "nibble_loop v (Suc i) = hexdigit (unat (drop_bit (4 * i) v AND 0xf)) # nibble_loop v i"

definition hex_text :: "u64 \<Rightarrow> string" where
  "hex_text v =
     (let nibbles = (if v \<noteq> 0 then (bit_length (unat v) + 3) div 4 else 1) in nibble_loop v nibbles)"

fun digit_loop :: "nat \<Rightarrow> string \<Rightarrow> string" where
  "digit_loop v acc =
     (if v > 0 then digit_loop (v div 10) (char_of (48 + v mod 10) # acc) else acc)"

declare digit_loop.simps [simp del]

definition dec_text :: "u32 \<Rightarrow> string" where
  "dec_text v = (if v = 0 then ''0'' else digit_loop (unat v) [])"

definition ptr_text :: "u64 \<Rightarrow> string" where
  "ptr_text v = (if v = 0 then ''(nil)'' else ''0x'' @ nibble_loop v ((bit_length (unat v) + 3) div 4))"

text \<open>
  One conversion: the text to write (\<open>None\<close> for a conversion the driver does not know, for which
  it writes nothing and consumes no argument), the rest of the format and of the arguments.
\<close>

definition convert ::
  "char \<Rightarrow> string \<Rightarrow> varg list \<Rightarrow> (string option \<times> string \<times> varg list) option" where
  "convert spec format args =
     (if spec = CHR ''s'' then
        map_option (\<lambda>(s, args'). (Some (take (strlen s) s), format, args')) (va_str args)
      else if spec = CHR ''c'' then
        map_option (\<lambda>(v, args'). (Some [char_of (unat v)], format, args')) (va_int args)
      else if spec = CHR ''p'' then
        map_option (\<lambda>(v, args'). (Some (ptr_text v), format, args')) (va_int args)
      else if spec = CHR ''u'' then
        map_option (\<lambda>(v, args'). (Some (dec_text (ucast v)), format, args')) (va_int args)
      else if spec = CHR ''x'' then
        map_option (\<lambda>(v, args'). (Some (hex_text (take_bit 32 v)), format, args')) (va_int args)
      else if spec = CHR ''l'' \<and> deref format = CHR ''x'' then
        map_option (\<lambda>(v, args'). (Some (hex_text v), tl format, args')) (va_int args)
      else Some (None, format, args))"

lemma convert_shrinks: "convert spec format args = Some (t, format', args') \<Longrightarrow> length format' \<le> length format"
  by (auto simp: convert_def split: if_splits)

lemma strchr_loop_length: "length (strchr_loop s c) \<le> length s"
proof (induction s)
  case (Cons a s)
  then show ?case by (subst strchr_loop.simps) simp
qed (subst strchr_loop.simps, simp)

lemma strchr_length: "strchr s c = Some t \<Longrightarrow> length t \<le> length s"
  using strchr_loop_length[of s c] by (auto simp: strchr_def Let_def split: if_splits)

function printf_loop ::
  "('s \<Rightarrow> string \<Rightarrow> 's) \<Rightarrow> 's \<Rightarrow> string \<Rightarrow> varg list \<Rightarrow> nat \<Rightarrow> (nat \<times> 's) option" where
  "printf_loop write_func st format args n =
     (if deref format = NUL then Some (n, st)
      else
        case strchr format (CHR ''%'') of
          None \<Rightarrow> (let len = strlen format in Some (n + len, write_func st (take len format)))
        | Some next_format \<Rightarrow>
            (let d = length format - length next_format;
                 st1 = (if d \<noteq> 0 then write_func st (take d format) else st);
                 spec = deref (tl next_format)
             in
             if spec = NUL then Some (n + d + 1, write_func st1 ''%'')
             else
               case convert spec (tl (tl next_format)) args of
                 None \<Rightarrow> None
               | Some (t, format', args') \<Rightarrow>
                   printf_loop write_func (case t of None \<Rightarrow> st1 | Some s \<Rightarrow> write_func st1 s)
                     format' args' (n + d + (case t of None \<Rightarrow> 0 | Some s \<Rightarrow> length s))))"
  by pat_completeness auto
termination
proof (relation "measure (\<lambda>(wf, st, f, a, n). length f)", goal_cases)
  case (2 write_func st format args n next_format d st1 spec r t q format' args')
  have "length format' \<le> length (tl (tl next_format))"
    using 2 by (auto dest: convert_shrinks)
  moreover have "length next_format \<le> length format" using 2(2) by (rule strchr_length)
  moreover have "tl next_format \<noteq> []" using 2(6,5) by (auto simp: deref_def)
  then have "length (tl (tl next_format)) < length next_format" by (cases next_format) auto
  ultimately show ?case by simp
qed simp

declare printf_loop.simps [simp del]

definition printf_driver ::
  "('s \<Rightarrow> string \<Rightarrow> 's) \<Rightarrow> 's \<Rightarrow> string \<Rightarrow> varg list \<Rightarrow> (nat \<times> 's) option" where
  "printf_driver write_func data format args = printf_loop write_func data format args 0"

subsection \<open>The sinks\<close>

record sprintf_data =
  sp_mem :: memory
  sp_buf :: u64
  sp_len :: nat

definition text_bytes :: "string \<Rightarrow> u8 list" where
  "text_bytes s = map (\<lambda>c. of_char c) s"

definition sprintf_helper :: "sprintf_data \<Rightarrow> string \<Rightarrow> sprintf_data" where
  "sprintf_helper d buf =
     (let len = length buf in
      if sp_len d = 0 then
        d\<lparr>sp_mem := write_bytes (sp_mem d) (sp_buf d) (text_bytes buf), sp_buf := sp_buf d + of_nat len\<rparr>
      else if sp_len d > len then
        d\<lparr>sp_mem := write_bytes (sp_mem d) (sp_buf d) (text_bytes buf), sp_buf := sp_buf d + of_nat len,
          sp_len := sp_len d - len\<rparr>
      else
        d\<lparr>sp_mem := write_bytes (sp_mem d) (sp_buf d) (text_bytes (take (sp_len d - 1) buf)),
          sp_buf := sp_buf d + of_nat (sp_len d - 1), sp_len := 1\<rparr>)"

definition vsnprintf :: "memory \<Rightarrow> u64 \<Rightarrow> nat \<Rightarrow> string \<Rightarrow> varg list \<Rightarrow> (nat \<times> memory) option" where
  "vsnprintf m str sz format args =
     (case printf_driver sprintf_helper \<lparr>sp_mem = m, sp_buf = str, sp_len = sz\<rparr> format args of
        None \<Rightarrow> None
      | Some (result, d) \<Rightarrow> Some (result, store8 (sp_mem d) (sp_buf d) 0))"

definition snprintf :: "memory \<Rightarrow> u64 \<Rightarrow> nat \<Rightarrow> string \<Rightarrow> varg list \<Rightarrow> (nat \<times> memory) option" where
  "snprintf m str sz format args = vsnprintf m str sz format args"

text \<open>
  \<open>dp_buf\<close> holds the first \<^verbatim>\<open>off\<close> characters of the buffer; \<open>dp_writes\<close> is the sequence
  of \<^verbatim>\<open>write\<close> calls made so far, the effect of the function.
\<close>

record dprintf_data =
  dp_fd :: int
  dp_buf :: string
  dp_writes :: "(int \<times> string) list"

definition dprintf_helper :: "dprintf_data \<Rightarrow> string \<Rightarrow> dprintf_data" where
  "dprintf_helper d buf =
     (let count = length buf; off = length (dp_buf d) in
      if count \<le> 1024 - off then d\<lparr>dp_buf := dp_buf d @ buf\<rparr>
      else
        let d1 = d\<lparr>dp_writes := dp_writes d @ [(dp_fd d, dp_buf d)]\<rparr> in
        if count \<le> 1024 then d1\<lparr>dp_buf := buf\<rparr>
        else d1\<lparr>dp_writes := dp_writes d1 @ [(dp_fd d, buf)], dp_buf := []\<rparr>)"

definition vdprintf :: "int \<Rightarrow> string \<Rightarrow> varg list \<Rightarrow> (nat \<times> (int \<times> string) list) option" where
  "vdprintf fd format args =
     (case printf_driver dprintf_helper \<lparr>dp_fd = fd, dp_buf = [], dp_writes = []\<rparr> format args of
        None \<Rightarrow> None
      | Some (result, d) \<Rightarrow>
          Some (result, if dp_buf d \<noteq> [] then dp_writes d @ [(dp_fd d, dp_buf d)] else dp_writes d))"

definition dprintf :: "int \<Rightarrow> string \<Rightarrow> varg list \<Rightarrow> (nat \<times> (int \<times> string) list) option" where
  "dprintf fd format args = vdprintf fd format args"

definition c_printf :: "string \<Rightarrow> varg list \<Rightarrow> (nat \<times> (int \<times> string) list) option" where
  "c_printf format args = vdprintf 1 format args"

definition puts :: "string \<Rightarrow> int \<times> (int \<times> string) list" where
  "puts s = (0, [(1, take (strlen s) s), (1, [CHR 0x0A])])"

subsection \<open>Output on a descriptor\<close>

text \<open>
  The effect of \<^verbatim>\<open>dprintf\<close> on the process: its \<^verbatim>\<open>write\<close> calls, made one after the other. Their
  results are ignored, as in the code, so that a call does not depend on how much of the text the
  ones before it have transferred. The text is in a buffer of the callee's stack frame, at \<open>loc\<close>
  in the model.
\<close>

fun do_writes :: "'k sysfn \<Rightarrow> u64 \<Rightarrow> (int \<times> string) list \<Rightarrow> 'k world \<Rightarrow> 'k world" where
  "do_writes sys loc [] w = w"
| "do_writes sys loc ((fd, s) # ws) w =
     do_writes sys loc ws
       (snd (c_write sys fd loc (of_nat (length s)) (w\<lparr>mem := write_bytes (mem w) loc (text_bytes s)\<rparr>)))"

definition dprintf_w :: "'k sysfn \<Rightarrow> u64 \<Rightarrow> int \<Rightarrow> string \<Rightarrow> varg list \<Rightarrow> 'k world \<Rightarrow> 'k world" where
  "dprintf_w sys loc fd format args w =
     (case dprintf fd format args of None \<Rightarrow> w | Some (n, ws) \<Rightarrow> do_writes sys loc ws w)"

subsection \<open>The contract of a sink\<close>

definition flushed :: "('s \<Rightarrow> string \<Rightarrow> 's) \<Rightarrow> 's \<Rightarrow> string \<Rightarrow> string \<Rightarrow> 's" where
  "flushed write_func st format next_format =
     (let d = length format - length next_format in if d \<noteq> 0 then write_func st (take d format) else st)"

definition written :: "('s \<Rightarrow> string \<Rightarrow> 's) \<Rightarrow> 's \<Rightarrow> string option \<Rightarrow> 's" where
  "written write_func st t = (case t of None \<Rightarrow> st | Some s \<Rightarrow> write_func st s)"

definition text_length :: "string option \<Rightarrow> nat" where
  "text_length t = (case t of None \<Rightarrow> 0 | Some s \<Rightarrow> length s)"

lemma printf_loop_done: "deref format = NUL \<Longrightarrow> printf_loop wr st format args n = Some (n, st)"
  by (simp add: printf_loop.simps)

lemma printf_loop_plain:
  "deref format \<noteq> NUL \<Longrightarrow> strchr format (CHR ''%'') = None \<Longrightarrow>
   printf_loop wr st format args n = Some (n + strlen format, wr st (take (strlen format) format))"
  by (simp add: printf_loop.simps Let_def)

lemma printf_loop_percent:
  "deref format \<noteq> NUL \<Longrightarrow> strchr format (CHR ''%'') = Some nf \<Longrightarrow> deref (tl nf) = NUL \<Longrightarrow>
   printf_loop wr st format args n = Some (n + (length format - length nf) + 1, wr (flushed wr st format nf) ''%'')"
  by (simp add: printf_loop.simps Let_def flushed_def)

lemma printf_loop_convert:
  "deref format \<noteq> NUL \<Longrightarrow> strchr format (CHR ''%'') = Some nf \<Longrightarrow> deref (tl nf) \<noteq> NUL \<Longrightarrow>
   printf_loop wr st format args n =
     (case convert (deref (tl nf)) (tl (tl nf)) args of
        None \<Rightarrow> None
      | Some (t, format', args') \<Rightarrow>
          printf_loop wr (written wr (flushed wr st format nf) t) format' args'
            (n + (length format - length nf) + text_length t))"
  by (subst printf_loop.simps) (auto simp: Let_def flushed_def written_def text_length_def split: option.split)

lemmas printf_loop_cases = printf_loop_done printf_loop_plain printf_loop_percent printf_loop_convert

lemma flushed_length: "length (flushed (@) xs format nf) = length xs + (length format - length nf)"
  by (simp add: flushed_def Let_def)

lemma written_length: "length (written (@) xs t) = length xs + text_length t"
  by (simp add: written_def text_length_def split: option.split)

text \<open>
  A sink's state \<open>st\<close> represents the text \<open>xs\<close> written to it so far; a call of the write function
  appends its chunk. The driver then renders the same text into every sink.
\<close>

locale printf_sink =
  fixes write_func :: "'s \<Rightarrow> string \<Rightarrow> 's"
    and holds :: "'s \<Rightarrow> string \<Rightarrow> bool"
  assumes write_appends: "holds st xs \<Longrightarrow> holds (write_func st ys) (xs @ ys)"
begin

lemma flushed_holds:
  "holds st xs \<Longrightarrow> holds (flushed write_func st format nf) (flushed (@) xs format nf)"
  by (simp add: flushed_def write_appends Let_def)

lemma written_holds: "holds st xs \<Longrightarrow> holds (written write_func st t) (written (@) xs t)"
  by (simp add: written_def write_appends split: option.split)

lemma loop_simulates:
  "holds st xs \<Longrightarrow> length xs = n \<Longrightarrow>
   (case printf_loop (@) xs format args n of
      None \<Rightarrow> printf_loop write_func st format args n = None
    | Some (k, ys) \<Rightarrow> k = length ys \<and>
        (\<exists>st'. printf_loop write_func st format args n = Some (k, st') \<and> holds st' ys))"
proof (induction "length format" arbitrary: st xs format args n rule: less_induct)
  case less
  consider (finish) "deref format = NUL"
    | (plain) "deref format \<noteq> NUL" "strchr format (CHR ''%'') = None"
    | (percent) nf where "deref format \<noteq> NUL" "strchr format (CHR ''%'') = Some nf" "deref (tl nf) = NUL"
    | (fails) nf where "deref format \<noteq> NUL" "strchr format (CHR ''%'') = Some nf" "deref (tl nf) \<noteq> NUL"
        "convert (deref (tl nf)) (tl (tl nf)) args = None"
    | (conv) nf t f' a' where "deref format \<noteq> NUL" "strchr format (CHR ''%'') = Some nf" "deref (tl nf) \<noteq> NUL"
        "convert (deref (tl nf)) (tl (tl nf)) args = Some (t, f', a')"
    by (cases "strchr format (CHR ''%'')") (metis option.exhaust prod_cases3)+
  then show ?case
  proof cases
    case finish
    then show ?thesis using less by (simp add: printf_loop_cases)
  next
    case plain
    then show ?thesis using less strlen_le[of format] by (simp add: printf_loop_cases write_appends)
  next
    case percent
    then show ?thesis using less by (simp add: printf_loop_cases write_appends flushed_holds flushed_length)
  next
    case fails
    then show ?thesis by (simp add: printf_loop_cases)
  next
    case conv
    let ?n = "n + (length format - length nf) + text_length t"
    have "length f' < length format"
      using conv convert_shrinks[OF conv(4)] strchr_length[OF conv(2)] by (cases nf; cases "tl nf") auto
    moreover have "length (written (@) (flushed (@) xs format nf) t) = ?n"
      using less(3) by (simp add: written_length flushed_length)
    ultimately show ?thesis
      using less(1)[OF _ written_holds[OF flushed_holds[OF less(2)]], of f' format nf t ?n a']
      unfolding printf_loop_convert[OF conv(1-3)] conv(4) option.case prod.case by blast
  qed
qed

lemma driver_renders:
  assumes "holds st []" and "printf_driver (@) [] format args = Some (k, out)"
  shows "k = length out \<and> (\<exists>st'. printf_driver write_func st format args = Some (k, st') \<and> holds st' out)"
  using loop_simulates[OF assms(1) list.size(3), of format args] assms(2)
  unfolding printf_driver_def by auto

end

subsection \<open>The two sinks meet the contract\<close>

definition sprintf_holds :: "memory \<Rightarrow> u64 \<Rightarrow> nat \<Rightarrow> sprintf_data \<Rightarrow> string \<Rightarrow> bool" where
  "sprintf_holds m str sz d xs \<longleftrightarrow>
     0 < sz \<and>
     sp_mem d = write_bytes m str (text_bytes (take (sz - 1) xs)) \<and>
     sp_buf d = str + of_nat (min (sz - 1) (length xs)) \<and>
     sp_len d = sz - min (sz - 1) (length xs)"

definition dprintf_holds :: "int \<Rightarrow> dprintf_data \<Rightarrow> string \<Rightarrow> bool" where
  "dprintf_holds fd d xs \<longleftrightarrow>
     dp_fd d = fd \<and> concat (map snd (dp_writes d)) @ dp_buf d = xs \<and>
     (\<forall>w \<in> set (dp_writes d). fst w = fd) \<and> length (dp_buf d) \<le> 1024"

lemma text_bytes_append: "text_bytes (xs @ ys) = text_bytes xs @ text_bytes ys"
  by (simp add: text_bytes_def)

lemma length_text_bytes: "length (text_bytes xs) = length xs"
  by (simp add: text_bytes_def)

interpretation sprintf_sink: printf_sink sprintf_helper "sprintf_holds m str sz" for m str sz
proof
  fix st xs ys
  assume h: "sprintf_holds m str sz st xs"
  let ?k = "min (sz - 1) (length xs)"
  from h have sz: "0 < sz" and sl: "sp_len st = sz - ?k" and sb: "sp_buf st = str + of_nat ?k"
    and sm: "sp_mem st = write_bytes m str (text_bytes (take (sz - 1) xs))"
    by (simp_all add: sprintf_holds_def)
  have step: "write_bytes (sp_mem st) (sp_buf st) (text_bytes zs) =
      write_bytes m str (text_bytes (take (sz - 1) xs @ zs))" for zs
    by (simp add: sm sb write_bytes_append text_bytes_append length_text_bytes min.commute)
  show "sprintf_holds m str sz (sprintf_helper st ys) (xs @ ys)"
  proof (cases "length ys < sp_len st")
    case True
    have t: "take (sz - 1) (xs @ ys) = take (sz - 1) xs @ ys"
      and k: "min (sz - 1) (length (xs @ ys)) = ?k + length ys" and "sp_len st \<noteq> 0"
      using True sl sz by (auto simp: min_def split: if_splits)
    then have "sprintf_helper st ys =
        st\<lparr>sp_mem := write_bytes m str (text_bytes (take (sz - 1) xs @ ys)),
           sp_buf := str + of_nat ?k + of_nat (length ys), sp_len := sz - ?k - length ys\<rparr>"
      using True unfolding sprintf_helper_def Let_def
      by (simp only: step if_True if_False refl simp_thms) (simp only: sb sl)
    then show ?thesis
      using sz unfolding sprintf_holds_def t k by simp
  next
    case False
    have t: "take (sz - 1) (xs @ ys) = take (sz - 1) xs @ take (sp_len st - 1) ys"
      and k: "min (sz - 1) (length (xs @ ys)) = sz - 1" and n: "sp_len st \<noteq> 0"
      and e: "sz - 1 = ?k + (sp_len st - 1)"
      using False sl sz by (auto simp: min_def split: if_splits)
    have "(of_nat (sz - 1) :: u64) = of_nat ?k + of_nat (sp_len st - 1)"
      by (subst e) (rule of_nat_add)
    with False n show ?thesis
      unfolding sprintf_holds_def sprintf_helper_def Let_def t k
      using sz by (simp only: step) (simp add: sb del: of_nat_diff)
  qed
qed

interpretation dprintf_sink: printf_sink dprintf_helper "dprintf_holds fd" for fd
  by unfold_locales (auto simp: dprintf_holds_def dprintf_helper_def Let_def)

subsection \<open>Numbers as text\<close>

text \<open>The values the digit strings denote.\<close>

definition digit_value :: "char \<Rightarrow> nat" where
  "digit_value c = (let n = of_char c in if n \<ge> 97 then n - 87 else n - 48)"

definition numeral_value :: "nat \<Rightarrow> string \<Rightarrow> nat" where
  "numeral_value b s = foldl (\<lambda>a c. a * b + digit_value c) 0 s"

lemma foldl_numeral:
  "foldl (\<lambda>a c. a * b + digit_value c) a s = a * b ^ length s + numeral_value b s"
proof (induction s arbitrary: a rule: rev_induct)
  case (snoc c s)
  have "foldl (\<lambda>a c. a * b + digit_value c) a (s @ [c]) = (a * b ^ length s + numeral_value b s) * b + digit_value c"
    by (simp add: snoc)
  then show ?case by (simp add: numeral_value_def algebra_simps)
qed (simp add: numeral_value_def)

lemma numeral_value_Cons: "numeral_value b (c # s) = digit_value c * b ^ length s + numeral_value b s"
  using foldl_numeral[of b "digit_value c" s] by (simp add: numeral_value_def)

lemma numeral_value_Nil [simp]: "numeral_value b [] = 0"
  by (simp add: numeral_value_def)

lemma digit_value_hexdigit: "n < 16 \<Longrightarrow> digit_value (hexdigit n) = n"
proof -
  assume "n < 16"
  moreover have "map digit_value ''0123456789abcdef'' = [0..<16]"
    by (simp add: digit_value_def of_char_Char upt_conv_Cons eval_nat_numeral)
  then have "map digit_value ''0123456789abcdef'' ! n = [0..<16] ! n" by (simp only:)
  ultimately show ?thesis by (subst (asm) nth_map) (auto simp: hexdigit_def)
qed

lemma digit_value_dec: "n < 10 \<Longrightarrow> digit_value (char_of (48 + n)) = n"
  by (simp add: digit_value_def)

lemma unat_nibble: "unat (drop_bit k v AND 0xf :: u64) = unat v div 2 ^ k mod 16"
proof -
  have "drop_bit k v AND 0xf = take_bit 4 (drop_bit k v)"
    by (simp add: take_bit_eq_mask mask_eq_exp_minus_1)
  then have "unat (drop_bit k v AND 0xf) = take_bit 4 (drop_bit k (unat v))"
    by (simp only: unsigned_take_bit_eq unat_drop_bit_eq)
  then show ?thesis by (simp add: take_bit_eq_mod drop_bit_eq_div)
qed

lemma nibble_loop_length: "length (nibble_loop v k) = k"
  by (induction k) auto

lemma nibble_loop_value: "numeral_value 16 (nibble_loop v k) = unat v mod 16 ^ k"
proof (induction k)
  case (Suc k)
  have p: "(2::nat) ^ (4 * k) = 16 ^ k" by (simp add: power_mult)
  have "unat v mod 16 ^ Suc k = unat v div 16 ^ k mod 16 * 16 ^ k + unat v mod 16 ^ k"
    using mod_mult2_eq[of "unat v" "16 ^ k" 16] by (simp add: mult.commute)
  then show ?case
    using Suc by (simp add: numeral_value_Cons nibble_loop_length unat_nibble p digit_value_hexdigit)
qed simp

lemma bit_length_bounds: "v \<noteq> 0 \<Longrightarrow> 2 ^ (bit_length v - 1) \<le> v \<and> v < 2 ^ bit_length v"
proof (induction v rule: bit_length.induct)
  case (1 v)
  show ?case
  proof (cases "v div 2 = 0")
    case True
    then have "v = 1" using 1(2) by simp
    then show ?thesis by (simp add: bit_length.simps)
  next
    case False
    have b: "bit_length v = Suc (bit_length (v div 2))" using 1(2) by (subst bit_length.simps) simp
    have "bit_length (v div 2) \<noteq> 0" using False by (subst bit_length.simps) simp
    then obtain j where j: "bit_length (v div 2) = Suc j" by (cases "bit_length (v div 2)") auto
    have "2 ^ j \<le> v div 2 \<and> v div 2 < 2 * 2 ^ j" using 1(1)[OF 1(2) False] by (simp add: j)
    then show ?thesis
      using div_mult_mod_eq[of v 2] mod_less_divisor[of 2 v]
      unfolding b j diff_Suc_1 power_Suc by (intro conjI; linarith)
  qed
qed

lemma digit_loop_value:
  "numeral_value 10 (digit_loop v acc) = v * 10 ^ length acc + numeral_value 10 acc"
proof (induction v acc rule: digit_loop.induct)
  case (1 v acc)
  show ?case
  proof (cases "v > 0")
    case True
    have "v div 10 * (10 * 10 ^ length acc) + v mod 10 * 10 ^ length acc = v * 10 ^ length acc"
      using arg_cong[OF div_mult_mod_eq[of v 10], of "\<lambda>x. x * 10 ^ length acc"]
      by (simp only: add_mult_distrib mult.assoc)
    with True 1 show ?thesis
      by (subst digit_loop.simps) (simp add: numeral_value_Cons digit_value_dec)
  qed (simp add: digit_loop.simps)
qed

lemma dec_text_value: "numeral_value 10 (dec_text v) = unat v"
  by (auto simp: dec_text_def digit_loop_value numeral_value_Cons digit_value_def of_char_Char)

lemma nibbles_enough: "v \<noteq> 0 \<Longrightarrow> unat (v :: u64) < 16 ^ ((bit_length (unat v) + 3) div 4)"
proof -
  assume "v \<noteq> 0"
  then have "unat v < 2 ^ bit_length (unat v)" using bit_length_bounds[of "unat v"] by (simp add: unat_eq_0)
  also have "\<dots> \<le> 2 ^ (4 * ((bit_length (unat v) + 3) div 4))" by (rule power_increasing) auto
  finally show ?thesis by (simp add: power_mult)
qed

lemma nibbles_minimal:
  assumes "v \<noteq> 0"
  shows "16 ^ ((bit_length (unat (v :: u64)) + 3) div 4 - 1) \<le> unat v"
proof -
  have "bit_length (unat v) \<noteq> 0" using assms by (subst bit_length.simps) (simp add: unat_eq_0)
  then have "4 * ((bit_length (unat v) + 3) div 4 - 1) \<le> bit_length (unat v) - 1" by arith
  then have "(2 :: nat) ^ (4 * ((bit_length (unat v) + 3) div 4 - 1)) \<le> 2 ^ (bit_length (unat v) - 1)"
    by (rule power_increasing) simp
  also have "\<dots> \<le> unat v" using bit_length_bounds[of "unat v"] assms by (simp add: unat_eq_0)
  finally show ?thesis by (simp add: power_mult)
qed

lemma nibble_loop_numeral:
  "nibble_loop v (numeral k) =
     hexdigit (unat (drop_bit (4 * pred_numeral k) v AND 0xf)) # nibble_loop v (pred_numeral k)"
  by (simp add: numeral_eq_Suc)

lemmas text_eval = hex_text_def dec_text_def Let_def bit_length.simps digit_loop.simps
  nibble_loop_numeral hexdigit_def char_of_def bit_0

lemma hex_text_value: "numeral_value 16 (hex_text v) = unat v"
  using nibbles_enough[of v] by (auto simp: hex_text_def Let_def nibble_loop_value)

lemma hex_text_minimal: "v \<noteq> 0 \<Longrightarrow> 16 ^ (length (hex_text v) - 1) \<le> unat v"
  using nibbles_minimal[of v] by (simp add: hex_text_def Let_def nibble_loop_length)

subsection \<open>Formats and the text they denote\<close>

text \<open>
  A format string is built from literal text and conversions; \<open>piece\<close> is the abstract syntax,
  with the argument of the conversion.
\<close>

datatype piece = PLit string | PStr string | PChr u64 | PPtr u64 | PUns u64 | PHex u64 | PLHex u64

fun piece_format :: "piece \<Rightarrow> string" where
  "piece_format (PLit s) = s"
| "piece_format (PStr _) = ''%s''"
| "piece_format (PChr _) = ''%c''"
| "piece_format (PPtr _) = ''%p''"
| "piece_format (PUns _) = ''%u''"
| "piece_format (PHex _) = ''%x''"
| "piece_format (PLHex _) = ''%lx''"

fun piece_args :: "piece \<Rightarrow> varg list" where
  "piece_args (PLit _) = []"
| "piece_args (PStr s) = [VStr s]"
| "piece_args (PChr v) = [VInt v]"
| "piece_args (PPtr v) = [VInt v]"
| "piece_args (PUns v) = [VInt v]"
| "piece_args (PHex v) = [VInt v]"
| "piece_args (PLHex v) = [VInt v]"

fun piece_text :: "piece \<Rightarrow> string" where
  "piece_text (PLit s) = s"
| "piece_text (PStr s) = s"
| "piece_text (PChr v) = [char_of (unat v)]"
| "piece_text (PPtr v) = (if v = 0 then ''(nil)'' else ''0x'' @ hex_text v)"
| "piece_text (PUns v) = dec_text (ucast v)"
| "piece_text (PHex v) = hex_text (take_bit 32 v)"
| "piece_text (PLHex v) = hex_text v"

fun wf_piece :: "piece \<Rightarrow> bool" where
  "wf_piece (PLit s) \<longleftrightarrow> cstring s \<and> CHR ''%'' \<notin> set s"
| "wf_piece (PStr s) \<longleftrightarrow> cstring s"
| "wf_piece _ \<longleftrightarrow> True"

lemma printf_loop_literal:
  assumes "cstring s" and "CHR ''%'' \<notin> set s" and "cstring f"
  shows "printf_loop (@) xs (s @ f) args n = printf_loop (@) (xs @ s) f args (n + length s)"
proof (cases "s = []")
  case False
  have cs: "cstring (s @ f)" and nz: "deref (s @ f) \<noteq> NUL"
    using assms False by (auto simp: cstring_def neq_Nil_conv)
  have dw: "dropWhile (\<lambda>x. x \<noteq> CHR ''%'') (s @ f) = dropWhile (\<lambda>x. x \<noteq> CHR ''%'') f"
    using assms(2) by (induction s) auto
  show ?thesis
  proof (cases "strchr f (CHR ''%'')")
    case None
    then have "CHR ''%'' \<notin> set (s @ f)" using assms by (simp add: strchr_None)
    then have "strchr (s @ f) (CHR ''%'') = None" using cs by (simp add: strchr_None)
    with nz None show ?thesis
      using cs assms(3) by (cases f) (auto simp: printf_loop_cases strlen_cstring cstring_def)
  next
    case (Some nf)
    then have nz': "deref f \<noteq> NUL"
      using assms(3) by (cases f) (auto simp: cstring_def strchr_def strchr_loop_dropWhile)
    have t: "strchr (s @ f) (CHR ''%'') = Some nf"
      using Some unfolding strchr_def strchr_loop_dropWhile[OF cs] strchr_loop_dropWhile[OF assms(3)] dw .
    have len: "length nf \<le> length f" using Some by (rule strchr_length)
    have fl: "flushed (@) xs (s @ f) nf = flushed (@) (xs @ s) f nf"
      using len False by (auto simp: flushed_def Let_def)
    have "length s + length f - length nf = length s + (length f - length nf)" using len by simp
    then show ?thesis
      using fl t nz nz' Some
      by (cases "deref (tl nf) = NUL")
        (auto simp: printf_loop_percent printf_loop_convert add.assoc split: option.split)
  qed
qed simp

lemma printf_loop_spec:
  assumes "convert c f args = Some (t, f', args')" and "c \<noteq> NUL"
  shows "printf_loop (@) xs (CHR ''%'' # c # f) args n =
    printf_loop (@) (written (@) xs t) f' args' (n + text_length t)"
proof -
  have "strchr_loop (CHR ''%'' # c # f) (CHR ''%'') = CHR ''%'' # c # f"
    by (subst strchr_loop.simps) simp
  then have "strchr (CHR ''%'' # c # f) (CHR ''%'') = Some (CHR ''%'' # c # f)"
    by (simp add: strchr_def)
  with assms show ?thesis by (simp add: printf_loop_convert flushed_def Let_def)
qed

lemma piece_step:
  assumes "wf_piece p" and "cstring f"
  shows "printf_loop (@) xs (piece_format p @ f) (piece_args p @ args) n =
    printf_loop (@) (xs @ piece_text p) f args (n + length (piece_text p))"
  using assms
proof (cases p)
  case (PStr s)
  then show ?thesis using assms(1)
    by (simp add: printf_loop_spec[where c = "CHR ''s''"] convert_def written_def text_length_def strlen_cstring)
qed (auto simp: printf_loop_literal printf_loop_spec convert_def written_def text_length_def
        ptr_text_def hex_text_def Let_def)

lemma cstring_pieces: "\<forall>p \<in> set ps. wf_piece p \<Longrightarrow> cstring (concat (map piece_format ps))"
proof (induction ps)
  case (Cons p ps)
  then show ?case by (cases p) (auto simp: cstring_def)
qed (simp add: cstring_def)

lemma printf_loop_pieces:
  "\<forall>p \<in> set ps. wf_piece p \<Longrightarrow>
   printf_loop (@) xs (concat (map piece_format ps)) (concat (map piece_args ps)) n =
   Some (n + length (concat (map piece_text ps)), xs @ concat (map piece_text ps))"
proof (induction ps arbitrary: xs n)
  case (Cons p ps)
  then show ?case by (simp add: piece_step cstring_pieces)
qed (simp add: printf_loop_done)

subsection \<open>Properties\<close>

text \<open>
  C33: printf_driver renders a format, written as literal text and conversions, as the
  concatenation of the texts of its pieces, and returns their total length: %s gives the string,
  %c the character, %p, %x and %lx the hexadecimal and %u the decimal digits of its argument.
\<close>

theorem printf_driver_renders:
  assumes "\<forall>p \<in> set ps. wf_piece p"
  shows "printf_driver (@) [] (concat (map piece_format ps)) (concat (map piece_args ps)) =
    Some (length (concat (map piece_text ps)), concat (map piece_text ps))"
  using printf_loop_pieces[OF assms, of "[]" 0] by (simp add: printf_driver_def)

theorem printf_driver_renders_witness:
  "printf_driver (@) [] (concat (map piece_format [PStr ''fd'', PLit '' = '', PUns 7]))
     (concat (map piece_args [PStr ''fd'', PLit '' = '', PUns 7])) =
   Some (6, ''fd = 7'')"
proof -
  have "dec_text 7 = ''7''" by (simp add: text_eval)
  then show ?thesis
    using printf_driver_renders[of "[PStr ''fd'', PLit '' = '', PUns 7]"] by (simp add: cstring_def)
qed

text \<open>
  The digits printed for %x and %lx (and after 0x for %p) and for %u denote the argument, and
  a hexadecimal numeral has no leading zero.
\<close>

theorem number_texts_denote:
  "numeral_value 16 (hex_text v) = unat v \<and> numeral_value 10 (dec_text u) = unat u \<and>
   16 ^ (length (hex_text v) - 1) \<le> max 1 (unat v)"
proof (cases "v = 0")
  case True
  then show ?thesis by (simp add: hex_text_value dec_text_value) (simp add: hex_text_def)
next
  case False
  then show ?thesis using hex_text_minimal[of v] by (auto simp: hex_text_value dec_text_value)
qed

text \<open>
  C22: vsnprintf with a nonempty buffer stores exactly the rendered text, cut to size - 1
  characters, and a NUL behind it, changes nothing else in memory, and returns the length of the
  uncut text.
\<close>

theorem vsnprintf_bounded:
  assumes "0 < sz" and "printf_driver (@) [] format args = Some (k, out)"
  shows "vsnprintf m str sz format args =
    Some (length out, write_bytes m str (text_bytes (take (sz - 1) out) @ [0]))"
proof -
  let ?d = "\<lparr>sp_mem = m, sp_buf = str, sp_len = sz\<rparr>"
  have "sprintf_holds m str sz ?d []" using assms(1) by (simp add: sprintf_holds_def text_bytes_def)
  from sprintf_sink.driver_renders[OF this assms(2)] obtain d where
    d: "k = length out" "printf_driver sprintf_helper ?d format args = Some (k, d)"
       "sprintf_holds m str sz d out" by blast
  then show ?thesis
    by (simp add: vsnprintf_def sprintf_holds_def store8_def write_bytes_append length_text_bytes min.commute)
qed

theorem vsnprintf_bounded_witness:
  "vsnprintf (\<lambda>_. 0) 16 4 ''%x/%s'' [VInt 0x2f, VStr ''abc''] =
   Some (6, write_bytes (\<lambda>_. 0) 16 (text_bytes ''2f/'' @ [0]))"
proof -
  have "hex_text (take_bit 32 0x2f) = ''2f''"
    by (simp add: text_eval)
  then have "printf_driver (@) [] ''%x/%s'' [VInt 0x2f, VStr ''abc''] = Some (6, ''2f/abc'')"
    using printf_loop_pieces[of "[PHex 0x2f, PLit ''/'', PStr ''abc'']" "[]" 0]
    by (simp add: printf_driver_def cstring_def)
  from vsnprintf_bounded[OF _ this, of 4 "\<lambda>_. 0" 16] show ?thesis by simp
qed

text \<open>The requests to write, put together, are the rendered text; a short text is one request.\<close>

lemma dprintf_helper_short:
  "dp_writes d = [] \<Longrightarrow> length (dp_buf d) + length buf \<le> 1024 \<Longrightarrow>
   dprintf_helper d buf = d\<lparr>dp_buf := dp_buf d @ buf\<rparr>"
  by (simp add: dprintf_helper_def Let_def)

definition unsent :: "int \<Rightarrow> dprintf_data \<Rightarrow> string \<Rightarrow> bool" where
  "unsent fd d xs \<longleftrightarrow> dp_fd d = fd \<and> (length xs \<le> 1024 \<longrightarrow> dp_writes d = [] \<and> dp_buf d = xs)"

interpretation unsent_sink: printf_sink dprintf_helper "unsent fd" for fd
proof
  fix st xs ys
  assume "unsent fd st xs"
  then show "unsent fd (dprintf_helper st ys) (xs @ ys)"
    by (cases "length (xs @ ys) \<le> 1024") (auto simp: unsent_def dprintf_helper_short dprintf_helper_def Let_def)
qed

lemma vdprintf_requests:
  assumes "printf_driver (@) [] format args = Some (k, out)"
  shows "\<exists>ws. vdprintf fd format args = Some (length out, ws) \<and>
    concat (map snd ws) = out \<and> (\<forall>w \<in> set ws. fst w = fd)"
proof -
  let ?d = "\<lparr>dp_fd = fd, dp_buf = [], dp_writes = []\<rparr>"
  have "dprintf_holds fd ?d []" by (simp add: dprintf_holds_def)
  from dprintf_sink.driver_renders[OF this assms] obtain d where
    "k = length out" "printf_driver dprintf_helper ?d format args = Some (k, d)" "dprintf_holds fd d out"
    by blast
  then show ?thesis by (auto simp: vdprintf_def dprintf_holds_def)
qed

lemma vdprintf_short:
  assumes "printf_driver (@) [] format args = Some (k, out)" and "out \<noteq> []" and "length out \<le> 1024"
  shows "vdprintf fd format args = Some (length out, [(fd, out)])"
proof -
  let ?d = "\<lparr>dp_fd = fd, dp_buf = [], dp_writes = []\<rparr>"
  have "unsent fd ?d []" by (simp add: unsent_def)
  from unsent_sink.driver_renders[OF this assms(1)] obtain d where
    "k = length out" "printf_driver dprintf_helper ?d format args = Some (k, d)" "unsent fd d out"
    by blast
  then show ?thesis using assms(2,3) by (auto simp: vdprintf_def unsent_def)
qed



text \<open>The driver does not know \<^verbatim>\<open>%d\<close>: it prints nothing for it.\<close>

lemma printf_signed_dropped: "printf_driver (@) s ''%d'' [VInt v] = Some (0, s)"
proof -
  have "strchr ''%d'' (CHR ''%'') = Some ''%d''"
    by (simp add: strchr_def strchr_loop.simps Let_def deref_def)
  note c = printf_loop_convert[OF _ this, of "(@)" s "[VInt v]" 0, simplified deref_def list.sel list.case]
  show ?thesis
    unfolding printf_driver_def using c
    by (simp add: printf_loop_done convert_def deref_def flushed_def written_def text_length_def)
qed

end
