(* ===== verification/Translator.thy ===== *)
theory Translator
  imports Memory Libc_Printf
begin

text \<open>
  The client's end of the protocol with the translation server, \<^verbatim>\<open>client/translator.c\<close> with
  \<^verbatim>\<open>shared/instrew-protocol.inc\<close>, and the way the server hands the pipe descriptors to the client
  (\<^verbatim>\<open>CreateFork\<close> in \<^verbatim>\<open>server/connection.cc\<close>). Functions that read or write return an option:
  \<open>None\<close> would be a loop that does not end.
\<close>

unbundle bit_operations_syntax

subsection \<open>Messages\<close>

abbreviation (input) MSGID_UNKNOWN :: u32 where "MSGID_UNKNOWN \<equiv> 0"
abbreviation (input) MSGID_C_EXIT :: u32 where "MSGID_C_EXIT \<equiv> 1"
abbreviation (input) MSGID_C_TRANSLATE :: u32 where "MSGID_C_TRANSLATE \<equiv> 2"
abbreviation (input) MSGID_S_MEMREQ :: u32 where "MSGID_S_MEMREQ \<equiv> 3"
abbreviation (input) MSGID_C_MEMBUF :: u32 where "MSGID_C_MEMBUF \<equiv> 4"
abbreviation (input) MSGID_S_OBJECT :: u32 where "MSGID_S_OBJECT \<equiv> 5"
abbreviation (input) MSGID_C_CONFIG1 :: u32 where "MSGID_C_CONFIG1 \<equiv> 6"
abbreviation (input) MSGID_C_CONFIG2 :: u32 where "MSGID_C_CONFIG2 \<equiv> 7"
abbreviation (input) MSGID_S_CONFIG_STATUS :: u32 where "MSGID_S_CONFIG_STATUS \<equiv> 8"
abbreviation (input) MSGID_C_INIT :: u32 where "MSGID_C_INIT \<equiv> 9"
abbreviation (input) MSGID_S_INIT :: u32 where "MSGID_S_INIT \<equiv> 10"

record translator_msg_hdr =
  hdr_id :: u32
  hdr_sz :: u32

record translator =
  rd_fd :: int
  wr_fd :: int
  written_bytes :: u64
  last_hdr :: translator_msg_hdr
  recvbuf :: u64
  recvbuf_sz :: u64

definition no_hdr :: translator_msg_hdr where
  "no_hdr = \<lparr>hdr_id = MSGID_UNKNOWN, hdr_sz = 0\<rparr>"

text \<open>The structures sent over the pipe, in their little-endian layout.\<close>

definition hdr_bytes :: "translator_msg_hdr \<Rightarrow> u8 list" where
  "hdr_bytes h = le_bytes 4 (hdr_id h) @ le_bytes 4 (hdr_sz h)"

record translator_server_config =
  tsc_guest_arch :: u32
  tsc_host_arch :: u32
  tsc_host_cpu_features :: u32
  tsc_server_mode :: u32
  tsc_stack_alignment :: u32

definition tsc_bytes :: "translator_server_config \<Rightarrow> u8 list" where
  "tsc_bytes c = le_bytes 4 (tsc_guest_arch c) @ le_bytes 4 (tsc_host_arch c) @
     le_bytes 4 (tsc_host_cpu_features c) @ le_bytes 4 (tsc_server_mode c) @
     le_bytes 4 (tsc_stack_alignment c)"

record translator_config =
  tc_callconv :: u32
  tc_profile :: u32
  tc_perf :: u32
  tc_print_trace :: u32
  tc_print_regs :: u32

definition load_tc :: "memory \<Rightarrow> u64 \<Rightarrow> translator_config" where
  "load_tc m a = \<lparr>tc_callconv = load32 m a, tc_profile = load32 m (a + 4), tc_perf = load32 m (a + 8),
     tc_print_trace = load32 m (a + 12), tc_print_regs = load32 m (a + 16)\<rparr>"

subsection \<open>Operations\<close>

text \<open>
  \<open>int32\<close> is the conversion of an \<^verbatim>\<open>ssize_t\<close> to \<^verbatim>\<open>int\<close>. Local variables whose address is passed to
  \<^verbatim>\<open>read_full\<close> or \<^verbatim>\<open>write_full\<close> are in memory at the address \<open>loc\<close> in the model, which stands for
  the stack frame of the function; \<open>send_local\<close> and \<open>recv_local\<close> are the two calls on a local
  variable.
\<close>

definition int32 :: "int \<Rightarrow> int" where
  "int32 r = signed_take_bit 31 r"

definition send_local ::
  "'k sysfn \<Rightarrow> u64 \<Rightarrow> int \<Rightarrow> u8 list \<Rightarrow> 'k world \<Rightarrow> (int \<times> 'k world) option" where
  "send_local sys loc fd bs w =
     write_full sys fd loc (of_nat (length bs)) (w\<lparr>mem := write_bytes (mem w) loc bs\<rparr>)"

definition translator_hdr_send ::
  "'k sysfn \<Rightarrow> u64 \<Rightarrow> translator \<Rightarrow> u32 \<Rightarrow> u32 \<Rightarrow> 'k world \<Rightarrow> (int \<times> 'k world) option" where
  "translator_hdr_send sys loc t mid sz w =
     (if hdr_id (last_hdr t) \<noteq> MSGID_UNKNOWN then Some (- EPROTO, w)
      else
        case send_local sys loc (wr_fd t) (hdr_bytes \<lparr>hdr_id = mid, hdr_sz = sz\<rparr>) w of
          None \<Rightarrow> None
        | Some (r, w') \<Rightarrow> let ret = int32 r in if ret \<noteq> 8 then Some (ret, w') else Some (0, w'))"

definition translator_hdr_recv ::
  "'k sysfn \<Rightarrow> u64 \<Rightarrow> translator \<Rightarrow> u32 \<Rightarrow> 'k world \<Rightarrow> (int \<times> translator \<times> 'k world) option" where
  "translator_hdr_recv sys loc t mid w =
     (case (if hdr_id (last_hdr t) = MSGID_UNKNOWN then
              (case read_full sys (rd_fd t) loc 8 (w\<lparr>mem := write_bytes (mem w) loc (hdr_bytes (last_hdr t))\<rparr>) of
                 None \<Rightarrow> None
               | Some (r, w') \<Rightarrow>
                   Some (int32 r,
                         t\<lparr>last_hdr := \<lparr>hdr_id = load32 (mem w') loc, hdr_sz = load32 (mem w') (loc + 4)\<rparr>\<rparr>, w'))
            else Some (8, t, w)) of
        None \<Rightarrow> None
      | Some (ret, t1, w1) \<Rightarrow>
          if ret \<noteq> 8 then Some (ret, t1, w1)
          else if hdr_id (last_hdr t1) \<noteq> mid then Some (- EPROTO, t1, w1)
          else Some (sint (hdr_sz (last_hdr t1)), t1\<lparr>last_hdr := no_hdr\<rparr>, w1))"

fun fds_loop :: "string \<Rightarrow> nat \<Rightarrow> u64 \<Rightarrow> u64" where
  "fds_loop [] i fds_raw = fds_raw"
| "fds_loop (c # s) i fds_raw =
     (if c = NUL then fds_raw
      else fds_loop s (i + 1)
             (fds_raw OR push_bit (3 * i mod 64) (word_of_int ((uchar c - 48) mod 8))))"

definition translator_init ::
  "'k sysfn \<Rightarrow> u64 \<Rightarrow> string \<Rightarrow> translator_server_config \<Rightarrow> 'k world \<Rightarrow> (int \<times> translator \<times> 'k world) option" where
  "translator_init sys loc server_config tsc w =
     (let fds_raw = fds_loop server_config 0 0;
          t = \<lparr>rd_fd = sint (ucast fds_raw :: u32), wr_fd = sint (ucast (drop_bit 32 fds_raw) :: u32),
               written_bytes = 0, last_hdr = no_hdr, recvbuf = 0, recvbuf_sz = 0\<rparr>
      in
      case translator_hdr_send sys loc t MSGID_C_INIT 20 w of
        None \<Rightarrow> None
      | Some (ret, w1) \<Rightarrow>
          if ret \<noteq> 0 then Some (ret, t, w1)
          else
            case send_local sys loc (wr_fd t) (tsc_bytes tsc) w1 of
              None \<Rightarrow> None
            | Some (r, w2) \<Rightarrow> if int32 r \<noteq> 20 then Some (int32 r, t, w2) else Some (0, t, w2))"

definition translator_fini :: "'k sysfn \<Rightarrow> translator \<Rightarrow> 'k world \<Rightarrow> int \<times> 'k world" where
  "translator_fini sys t w =
     (case c_close sys (rd_fd t) w of (_, w1) \<Rightarrow> case c_close sys (wr_fd t) w1 of (_, w2) \<Rightarrow> (0, w2))"

definition translator_config_fetch ::
  "'k sysfn \<Rightarrow> u64 \<Rightarrow> translator \<Rightarrow> u64 \<Rightarrow> 'k world \<Rightarrow> (int \<times> translator \<times> 'k world) option" where
  "translator_config_fetch sys loc t cfg w =
     (case translator_hdr_recv sys loc t MSGID_S_INIT w of
        None \<Rightarrow> None
      | Some (sz, t1, w1) \<Rightarrow>
          if sz < 0 then Some (sz, t1, w1)
          else if sz \<noteq> 20 then Some (- EPROTO, t1, w1)
          else
            case read_full sys (rd_fd t1) cfg (word_of_int sz) w1 of
              None \<Rightarrow> None
            | Some (ret, w2) \<Rightarrow> if ret \<noteq> sz then Some (int32 ret, t1, w2) else Some (0, t1, w2))"

text \<open>
  The result of \<^verbatim>\<open>translator_get_object\<close>: the return value, the two output parameters when they are
  written, and the new states of the translator, of the arenas and of the process.
\<close>

type_synonym 'k get_result = "int \<times> (u64 \<times> u64) option \<times> translator \<times> arenas \<times> 'k world"

definition recvbuf_grow ::
  "'k sysfn \<Rightarrow> translator \<Rightarrow> arenas \<Rightarrow> int \<Rightarrow> 'k world \<Rightarrow> bool \<times> translator \<times> arenas \<times> 'k world" where
  "recvbuf_grow sys t g sz w =
     (if word_of_int sz \<ge> recvbuf_sz t then
        let newsz = ALIGN_UP (word_of_int sz) (pagesize w) in
        case mem_alloc_data sys g newsz (pagesize w) w of
          (p, g', w') \<Rightarrow>
            if BAD_ADDR p then (False, t\<lparr>recvbuf := p\<rparr>, g', w')
            else (True, t\<lparr>recvbuf := p, recvbuf_sz := newsz\<rparr>, g', w')
      else (True, t, g, w))"

definition translator_get_object ::
  "'k sysfn \<Rightarrow> u64 \<Rightarrow> translator \<Rightarrow> arenas \<Rightarrow> 'k world \<Rightarrow> 'k get_result option" where
  "translator_get_object sys loc t g w =
     (case translator_hdr_recv sys loc t MSGID_S_OBJECT w of
        None \<Rightarrow> None
      | Some (sz, t1, w1) \<Rightarrow>
          if sz < 0 then Some (sz, None, t1, g, w1)
          else
            case recvbuf_grow sys t1 g sz w1 of
              (ok, t2, g2, w2) \<Rightarrow>
                if \<not> ok then Some (c_int (recvbuf t2), None, t2, g2, w2)
                else
                  case read_full sys (rd_fd t2) (recvbuf t2) (word_of_int sz) w2 of
                    None \<Rightarrow> None
                  | Some (r, w3) \<Rightarrow>
                      if int32 r \<noteq> sz then Some (int32 r, None, t2, g2, w3)
                      else Some (0, Some (recvbuf t2, word_of_int sz), t2, g2, w3))"

text \<open>The zero bytes sent in place of memory that cannot be read; \<open>False\<close> when a write fails.\<close>

fun send_padding :: "'k sysfn \<Rightarrow> u64 \<Rightarrow> int \<Rightarrow> nat \<Rightarrow> 'k world \<Rightarrow> (bool \<times> 'k world) option" where
  "send_padding sys loc fd 0 w = Some (True, w)"
| "send_padding sys loc fd (Suc n) w =
     (case send_local sys loc fd [0] w of
        None \<Rightarrow> None
      | Some (r, w') \<Rightarrow> if r \<noteq> 1 then Some (False, w') else send_padding sys loc fd n w')"

definition send_failed ::
  "'k sysfn \<Rightarrow> u64 \<Rightarrow> translator \<Rightarrow> u64 \<Rightarrow> u8 \<Rightarrow> 'k world \<Rightarrow>
   ((int \<times> 'k world) + (translator \<times> 'k world)) option" where
  "send_failed sys loc t buf_sz failed w =
     (case send_local sys loc (wr_fd t) [failed] w of
        None \<Rightarrow> None
      | Some (r, w') \<Rightarrow>
          if int32 r \<noteq> 1 then Some (Inl (int32 r, w'))
          else Some (Inr (t\<lparr>written_bytes := written_bytes t + buf_sz\<rparr>, w')))"

text \<open>
  The answer to one memory request, from the announced size to the byte counter: \<open>Inl\<close> is an
  early return.
\<close>

definition serve_memrq ::
  "'k sysfn \<Rightarrow> u64 \<Rightarrow> translator \<Rightarrow> int \<Rightarrow> 'k world \<Rightarrow>
   ((int \<times> 'k world) + (translator \<times> 'k world)) option" where
  "serve_memrq sys loc t sz w =
     (if sz \<noteq> 16 then Some (Inl (- 1, w))
      else
        case read_full sys (rd_fd t) loc 16 w of
          None \<Rightarrow> None
        | Some (r, w1) \<Rightarrow>
            if int32 r \<noteq> 16 then Some (Inl (int32 r, w1))
            else
              let addr = load64 (mem w1) loc;
                  buf_sz0 = load64 (mem w1) (loc + 8);
                  buf_sz = (if buf_sz0 > 0x1000 then 0x1000 else buf_sz0)
              in
              case translator_hdr_send sys loc t MSGID_C_MEMBUF (ucast (buf_sz + 1)) w1 of
                None \<Rightarrow> None
              | Some (ret, w2) \<Rightarrow>
                  if ret < 0 then Some (Inl (ret, w2))
                  else
                    case write_full sys (wr_fd t) addr buf_sz w2 of
                      None \<Rightarrow> None
                    | Some (r3, w3) \<Rightarrow>
                        if int32 r3 \<noteq> sint buf_sz then
                          if int32 r3 = - EFAULT then
                            case send_padding sys loc (wr_fd t) (unat buf_sz) w3 of
                              None \<Rightarrow> None
                            | Some (ok, w4) \<Rightarrow>
                                if \<not> ok then Some (Inl (int32 r3, w4))
                                else send_failed sys loc t buf_sz 1 w4
                          else
                            Some (Inl (int32 r3,
                              dprintf_w sys loc 2
                                (''translator_get: failed writing from address 0x%lx'' @ [CHR 0x0A])
                                [VInt addr] w3))
                        else send_failed sys loc t buf_sz 0 w3)"

partial_function (option) translator_get_loop ::
  "'k sysfn \<Rightarrow> u64 \<Rightarrow> translator \<Rightarrow> arenas \<Rightarrow> 'k world \<Rightarrow> 'k get_result option" where
  "translator_get_loop sys loc t g w =
     (case translator_hdr_recv sys loc t MSGID_S_MEMREQ w of
        None \<Rightarrow> None
      | Some (sz, t1, w1) \<Rightarrow>
          if sz = - EPROTO then translator_get_object sys loc t1 g w1
          else if sz < 0 then Some (sz, None, t1, g, w1)
          else
            case serve_memrq sys loc t1 sz w1 of
              None \<Rightarrow> None
            | Some (Inl (ret, w2)) \<Rightarrow> Some (ret, None, t1, g, w2)
            | Some (Inr (t2, w2)) \<Rightarrow> translator_get_loop sys loc t2 g w2)"

definition translator_get ::
  "'k sysfn \<Rightarrow> u64 \<Rightarrow> translator \<Rightarrow> u64 \<Rightarrow> arenas \<Rightarrow> 'k world \<Rightarrow> 'k get_result option" where
  "translator_get sys loc t addr g w =
     (case translator_hdr_send sys loc t MSGID_C_TRANSLATE 8 w of
        None \<Rightarrow> None
      | Some (ret, w1) \<Rightarrow>
          if ret \<noteq> 0 then Some (ret, None, t, g, w1)
          else
            case send_local sys loc (wr_fd t) (le_bytes 8 addr) w1 of
              None \<Rightarrow> None
            | Some (r, w2) \<Rightarrow>
                if int32 r \<noteq> 8 then Some (int32 r, None, t, g, w2)
                else translator_get_loop sys loc t g w2)"

subsection \<open>The descriptors handed over by the server\<close>

text \<open>
  \<^verbatim>\<open>CreateFork\<close> writes the two descriptors as octal digits, the lowest first. Both come from a
  successful \<^verbatim>\<open>pipe2\<close>, so that they are not negative.
\<close>

lemma unat_drop_3: "unat (drop_bit 3 r) = unat (r :: u64) div 8"
  by (subst unat_drop_bit_eq, subst drop_bit_eq_div) simp

lemma unat_drop_3_less: "r \<noteq> 0 \<Longrightarrow> unat (drop_bit 3 r) < unat (r :: u64)"
  by (subst unat_drop_3) (simp add: unat_gt_0)

function client_config :: "u64 \<Rightarrow> string" where
  "client_config raw_fds =
     (if raw_fds = 0 then [] else char_of (48 + unat (raw_fds AND 7)) # client_config (drop_bit 3 raw_fds))"
  by pat_completeness auto
termination
  by (relation "measure unat") (simp_all only: wf_measure in_measure unat_drop_3_less not_False_eq_True)

declare client_config.simps [simp del]

definition raw_fds :: "u32 \<Rightarrow> u32 \<Rightarrow> u64" where
  "raw_fds rd wr = ucast rd OR push_bit 32 (ucast wr)"

lemma octal_digit:
  "word_of_int ((uchar (char_of (48 + unat (r AND 7 :: u64)) :: char) - 48) mod 8) = r AND (7 :: u64)"
proof -
  have "r AND 7 = take_bit 3 r" by (simp add: take_bit_eq_mask mask_eq_exp_minus_1)
  then have "unat (r AND 7) = take_bit 3 (unat r)" by (simp only: unsigned_take_bit_eq)
  then have lt: "unat (r AND 7) < 8" by (simp add: take_bit_eq_mod)
  then have f: "uchar (char_of (48 + unat (r AND 7)) :: char) = 48 + int (unat (r AND 7))"
    by (subst uchar_char_of) auto
  have "(uchar (char_of (48 + unat (r AND 7)) :: char) - 48) mod 8 = uint (r AND 7)"
  proof -
    have u: "uint (r AND 7) = int (unat (r AND 7))" by simp
    with lt have "0 \<le> uint (r AND 7)" "uint (r AND 7) < 8" by linarith+
    then show ?thesis by (simp only: f u[symmetric] add_diff_cancel_left' mod_pos_pos_trivial)
  qed
  then show ?thesis by (simp only: word_of_int_uint)
qed

lemma octal_nonzero: "char_of (48 + unat (r AND 7 :: u64)) \<noteq> NUL"
proof
  assume "char_of (48 + unat (r AND 7)) = NUL"
  then have "(48 + unat (r AND 7)) mod 256 = 0"
    by (metis of_char_of of_char_Char uchar_NUL of_nat_0_eq_iff of_nat_of_char)
  moreover have "r AND 7 \<le> 7" by (rule word_and_le1)
  then have "unat (r AND 7) \<le> 7" by (simp add: word_le_nat_alt)
  ultimately show False by simp
qed

lemma push_low_high:
  "push_bit k (r AND 7) OR push_bit (k + 3) (drop_bit 3 r) = push_bit k (r :: u64)"
proof (rule bit_word_eqI)
  fix n assume "n < LENGTH(64)"
  have "bit (mask 3 :: u64) j \<longleftrightarrow> j < 3" for j by (auto simp: bit_simps)
  then have seven: "bit (7 :: u64) j \<longleftrightarrow> j < 3" for j by (simp only: mask_eq_exp_minus_1) simp
  show "bit (push_bit k (r AND 7) OR push_bit (k + 3) (drop_bit 3 r)) n = bit (push_bit k r) n"
  proof (cases "k + 3 \<le> n")
    case True
    then have "3 + (n - (k + 3)) = n - k" by simp
    with True \<open>n < LENGTH(64)\<close> show ?thesis by (auto simp only: bit_simps seven) auto
  next
    case False
    with \<open>n < LENGTH(64)\<close> show ?thesis by (auto simp only: bit_simps seven)
  qed
qed

lemma fds_loop_config:
  "unat r < 2 ^ (64 - 3 * i) \<Longrightarrow> fds_loop (client_config r) i acc = acc OR push_bit (3 * i) r"
proof (induction r arbitrary: i acc rule: client_config.induct)
  case (1 r)
  show ?case
  proof (cases "r = 0")
    case False
    then have "unat r \<noteq> 0" by (simp add: unat_eq_0)
    with 1(2) have i: "3 * i < 64" by (cases "3 * i < 64") auto
    have "unat (drop_bit 3 r) < 2 ^ (64 - 3 * (i + 1))"
    proof -
      have "unat r < 8 * 2 ^ (64 - 3 * (i + 1))"
      proof (rule less_le_trans[OF 1(2)])
        have "(2::nat) ^ (64 - 3 * i) \<le> 2 ^ (3 + (64 - 3 * (i + 1)))" by (rule power_increasing) auto
        then show "(2::nat) ^ (64 - 3 * i) \<le> 8 * 2 ^ (64 - 3 * (i + 1))" by (simp add: power_add)
      qed
      then show ?thesis by (subst unat_drop_3) (simp add: less_mult_imp_div_less mult.commute)
    qed
    from 1(1)[OF False this, of "acc OR push_bit (3 * i) (r AND 7)"]
    show ?thesis
      using False i push_low_high[of "3 * i" r]
      by (subst client_config.simps) (simp add: octal_digit octal_nonzero or.assoc add.commute)
  qed (simp add: client_config.simps)
qed

lemma raw_fds_parts:
  "(ucast (raw_fds rd wr) :: u32) = rd" "(ucast (drop_bit 32 (raw_fds rd wr)) :: u32) = wr"
  by (rule bit_word_eqI, auto simp: raw_fds_def bit_simps dest: bit_imp_le_length)+

text \<open>
  C29: The descriptor numbers survive the way through the command line: decoding the octal
  string the server passes to the client gives back the read and the write end it was made from.
\<close>

theorem descriptors_roundtrip:
  "let raw = fds_loop (client_config (raw_fds rd wr)) 0 0
   in ucast raw = rd \<and> ucast (drop_bit 32 raw) = wr"
  using fds_loop_config[of "raw_fds rd wr" 0 0] unsigned_less[of "raw_fds rd wr", where 'a = nat] raw_fds_parts[of rd wr]
  by (simp add: Let_def)

subsection \<open>Exchanges over the pipes\<close>

text \<open>
  \<open>exchanged w ins outs w'\<close>: between \<open>w\<close> and \<open>w'\<close> the client consumed \<open>ins\<close>, sent
  \<open>outs\<close>, and changed no memory but its local variables at \<open>loc\<close>.
\<close>

abbreviation frame_size :: nat where "frame_size \<equiv> 20"

definition exchanged ::
  "('k \<Rightarrow> u8 list) \<Rightarrow> ('k \<Rightarrow> u8 list) \<Rightarrow> ('k \<Rightarrow> u64 \<Rightarrow> bool) \<Rightarrow> u64 \<Rightarrow>
   'k world \<Rightarrow> u8 list \<Rightarrow> u8 list \<Rightarrow> 'k world \<Rightarrow> bool" where
  "exchanged pend sent rdok loc w ins outs w' \<longleftrightarrow>
     pend (kern w) = ins @ pend (kern w') \<and> sent (kern w') = sent (kern w) @ outs \<and>
     rdok (kern w') = rdok (kern w) \<and> pagesize w' = pagesize w \<and>
     (\<forall>a. a \<notin> range_at loc frame_size \<longrightarrow> mem w' a = mem w a)"

definition frame_ok :: "('k \<Rightarrow> u64 \<Rightarrow> bool) \<Rightarrow> u64 \<Rightarrow> 'k world \<Rightarrow> bool" where
  "frame_ok rdok loc w \<longleftrightarrow> (\<forall>i < frame_size. rdok (kern w) (loc + of_nat i))"

lemma exchanged_refl [simp]: "exchanged pend sent rdok loc w [] [] w"
  by (simp add: exchanged_def)

lemma exchanged_trans:
  "exchanged pend sent rdok loc w i1 o1 w1 \<Longrightarrow> exchanged pend sent rdok loc w1 i2 o2 w2 \<Longrightarrow>
   exchanged pend sent rdok loc w (i1 @ i2) (o1 @ o2) w2"
  by (simp add: exchanged_def)

lemma exchanged_frame: "exchanged pend sent rdok loc w i os w' \<Longrightarrow> frame_ok rdok loc w \<Longrightarrow> frame_ok rdok loc w'"
  by (simp add: exchanged_def frame_ok_def)

lemma int32_small: "0 \<le> r \<Longrightarrow> r < 2 ^ 31 \<Longrightarrow> int32 r = r"
  by (simp add: int32_def signed_take_bit_int_eq_self)

lemma int32_neg: "- (2 ^ 31) \<le> r \<Longrightarrow> r < 0 \<Longrightarrow> int32 r = r"
  by (simp add: int32_def signed_take_bit_int_eq_self)

lemma length_hdr_bytes [simp]: "length (hdr_bytes h) = 8"
  by (simp add: hdr_bytes_def)

lemma write_bytes_frame:
  "length bs \<le> frame_size \<Longrightarrow> a \<notin> range_at loc frame_size \<Longrightarrow> write_bytes m loc bs a = m a"
  by (subst write_bytes_outside) (auto simp: range_at_def)

lemma send_local_ok:
  assumes "duplex sys rd wr pend sent rdok" and "frame_ok rdok loc w" and "length bs \<le> frame_size"
  shows "\<exists>w'. send_local sys loc wr bs w = Some (int (length bs), w') \<and>
    exchanged pend sent rdok loc w [] bs w'"
proof -
  let ?w = "w\<lparr>mem := write_bytes (mem w) loc bs\<rparr>" and ?n = "of_nat (length bs) :: u64"
  have n: "unat ?n = length bs" using assms(3) by (simp add: unat_of_nat_64)
  have "\<forall>i < unat ?n. rdok (kern ?w) (loc + of_nat i)"
    using assms(2,3) unfolding n by (simp add: frame_ok_def)
  with write_full_complete[of sys wr pend sent rdok ?n ?w loc] assms(1,3) n obtain w' where
    w': "write_full sys wr loc ?n ?w = Some (sint ?n, w')"
        "transmitted pend sent rdok ?w (read_bytes (mem ?w) loc (length bs)) w'"
    by (auto simp: duplex_def)
  moreover have "sint ?n = int (length bs)" using assms(3) by (simp add: sint_of_nat_64)
  moreover have "read_bytes (write_bytes (mem w) loc bs) loc (length bs) = bs"
    using assms(3) by (intro read_write_bytes) simp
  ultimately show ?thesis using assms(3)
    by (auto simp: send_local_def exchanged_def transmitted_def write_bytes_frame)
qed

lemma hdr_send_ok:
  assumes "duplex sys (rd_fd t) (wr_fd t) pend sent rdok" and "frame_ok rdok loc w"
    and "hdr_id (last_hdr t) = MSGID_UNKNOWN"
  shows "\<exists>w'. translator_hdr_send sys loc t mid sz w = Some (0, w') \<and>
    exchanged pend sent rdok loc w [] (hdr_bytes \<lparr>hdr_id = mid, hdr_sz = sz\<rparr>) w'"
  using send_local_ok[OF assms(1,2), of "hdr_bytes \<lparr>hdr_id = mid, hdr_sz = sz\<rparr>"] assms(3)
  by (auto simp: translator_hdr_send_def int32_small)

lemma load_hdr:
  "load32 (write_bytes m a (hdr_bytes h)) a = hdr_id h"
  "load32 (write_bytes m a (hdr_bytes h)) (a + 4) = hdr_sz h"
proof -
  have "read_bytes (write_bytes m a (hdr_bytes h)) a (4 + 4) = hdr_bytes h"
    using read_write_bytes[of "hdr_bytes h" m a] by simp
  then have "read_bytes (write_bytes m a (hdr_bytes h)) a 4 = le_bytes 4 (hdr_id h) \<and>
      read_bytes (write_bytes m a (hdr_bytes h)) (a + of_nat 4) 4 = le_bytes 4 (hdr_sz h)"
    unfolding read_bytes_append hdr_bytes_def by (subst (asm) append_eq_append_conv) simp_all
  then show "load32 (write_bytes m a (hdr_bytes h)) a = hdr_id h"
    "load32 (write_bytes m a (hdr_bytes h)) (a + 4) = hdr_sz h"
    by (simp_all add: load32_def le_word_le_bytes del: le_bytes.simps le_word.simps read_bytes.simps)
qed

lemma recv_frame:
  assumes "duplex sys rd wr pend sent rdok" and "pend (kern w) = bs @ rest" and "length bs \<le> frame_size"
    and "unat n = length bs"
  shows "\<exists>w'. read_full sys rd loc n w = Some (int (length bs), w') \<and>
    exchanged pend sent rdok loc w bs [] w' \<and> mem w' = write_bytes (mem w) loc bs"
proof -
  have "n = of_nat (length bs)" unfolding assms(4)[symmetric] by simp
  then have "sint n = int (length bs)" using assms(3) by (simp add: sint_of_nat_64)
  then show ?thesis
    using read_full_complete[of sys rd pend sent rdok n w loc] assms
    by (auto simp: duplex_def received_def exchanged_def write_bytes_frame)
qed

lemma hdr_recv_fresh:
  assumes "duplex sys (rd_fd t) (wr_fd t) pend sent rdok" and "last_hdr t = no_hdr"
    and "pend (kern w) = hdr_bytes h @ rest"
  shows "\<exists>w'. translator_hdr_recv sys loc t mid w =
      Some (if hdr_id h = mid then (sint (hdr_sz h), t, w') else (- EPROTO, t\<lparr>last_hdr := h\<rparr>, w')) \<and>
    exchanged pend sent rdok loc w (hdr_bytes h) [] w'"
proof -
  let ?w = "w\<lparr>mem := write_bytes (mem w) loc (hdr_bytes (last_hdr t))\<rparr>"
  from recv_frame[OF assms(1), of ?w "hdr_bytes h" rest 8 loc] assms(3) obtain w' where
    w': "read_full sys (rd_fd t) loc 8 ?w = Some (8, w')" "exchanged pend sent rdok loc ?w (hdr_bytes h) [] w'"
        "mem w' = write_bytes (mem ?w) loc (hdr_bytes h)" by auto
  have "exchanged pend sent rdok loc w (hdr_bytes h) [] w'"
    using w'(2) by (auto simp: exchanged_def write_bytes_frame)
  moreover have "t\<lparr>last_hdr := no_hdr\<rparr> = t" using assms(2) by simp
  ultimately show ?thesis
    using w'(1,3) assms(2) by (auto simp: translator_hdr_recv_def no_hdr_def int32_small load_hdr)
qed


subsection \<open>Serving memory requests\<close>

definition capped :: "u64 \<Rightarrow> u64" where
  "capped n = (if n > 0x1000 then 0x1000 else n)"

text \<open>The request as the server sends it, and the answer to it.\<close>

definition memrq_bytes :: "u64 \<Rightarrow> u64 \<Rightarrow> u8 list" where
  "memrq_bytes a n = hdr_bytes \<lparr>hdr_id = MSGID_S_MEMREQ, hdr_sz = 16\<rparr> @ le_bytes 8 a @ le_bytes 8 n"

text \<open>
  The payload when the kernel took \<open>q\<close> of the \<open>n\<close> requested bytes. It takes all of them when they are
  readable and a readable prefix otherwise; how long that prefix is, is up to the kernel.
\<close>

definition membuf_payload :: "memory \<Rightarrow> u64 \<Rightarrow> nat \<Rightarrow> nat \<Rightarrow> u8 list" where
  "membuf_payload m a n q = read_bytes m a q @ (if q = n then [0] else replicate n 0 @ [1])"

definition taken :: "(u64 \<Rightarrow> bool) \<Rightarrow> u64 \<Rightarrow> nat \<Rightarrow> nat \<Rightarrow> bool" where
  "taken ok a n q \<longleftrightarrow> q \<le> n \<and> (\<forall>i<q. ok (a + of_nat i)) \<and> (q = n \<longleftrightarrow> (\<forall>i<n. ok (a + of_nat i)))"

definition memory_answer :: "memory \<Rightarrow> (u64 \<Rightarrow> bool) \<Rightarrow> u64 \<times> u64 \<Rightarrow> u8 list \<Rightarrow> bool" where
  "memory_answer m ok rq bs \<longleftrightarrow>
     (case rq of (a, n) \<Rightarrow> \<exists>q. taken ok a (unat (capped n)) q \<and>
        bs = hdr_bytes \<lparr>hdr_id = MSGID_C_MEMBUF, hdr_sz = ucast (capped n + 1)\<rparr> @
             membuf_payload m a (unat (capped n)) q)"

lemma capped_le: "unat (capped n) \<le> 0x1000"
  by (auto simp: capped_def word_less_nat_alt)

lemma send_padding_ok:
  assumes "duplex sys rd wr pend sent rdok"
  shows "frame_ok rdok loc w \<Longrightarrow> \<exists>w'. send_padding sys loc wr n w = Some (True, w') \<and>
    exchanged pend sent rdok loc w [] (replicate n 0) w'"
proof (induction n arbitrary: w)
  case (Suc n)
  from send_local_ok[OF assms Suc.prems, of "[0]"] obtain w1 where
    w1: "send_local sys loc wr [0] w = Some (1, w1)" "exchanged pend sent rdok loc w [] [0] w1" by auto
  from Suc.IH[OF exchanged_frame[OF w1(2) Suc.prems]] obtain w' where
    "send_padding sys loc wr n w1 = Some (True, w')" "exchanged pend sent rdok loc w1 [] (replicate n 0) w'"
    by blast
  with w1 exchanged_trans[OF w1(2)] show ?case by (auto simp: replicate_app_Cons_same)
qed simp

lemma send_failed_ok:
  assumes "duplex sys (rd_fd t) (wr_fd t) pend sent rdok" and "frame_ok rdok loc w"
  shows "\<exists>w'. send_failed sys loc t n failed w =
      Some (Inr (t\<lparr>written_bytes := written_bytes t + n\<rparr>, w')) \<and> exchanged pend sent rdok loc w [] [failed] w'"
  using send_local_ok[OF assms, of "[failed]"] by (auto simp: send_failed_def int32_small)

lemma load_memrq:
  "load64 (write_bytes m l (le_bytes 8 (a::u64) @ le_bytes 8 (n::u64))) l = a"
  "load64 (write_bytes m l (le_bytes 8 a @ le_bytes 8 n)) (l + 8) = n"
proof -
  let ?bs = "le_bytes 8 a @ le_bytes 8 n"
  have "read_bytes (write_bytes m l ?bs) l (8 + 8) = ?bs"
    using read_write_bytes[of ?bs m l] by simp
  then have "read_bytes (write_bytes m l ?bs) l 8 = le_bytes 8 a \<and>
      read_bytes (write_bytes m l ?bs) (l + of_nat 8) 8 = le_bytes 8 n"
    unfolding read_bytes_append by (subst (asm) append_eq_append_conv) simp_all
  then show "load64 (write_bytes m l ?bs) l = a" "load64 (write_bytes m l ?bs) (l + 8) = n"
    by (simp_all add: load64_def le_word_le_bytes del: le_bytes.simps le_word.simps read_bytes.simps)
qed


lemma read_bytes_outside_frame:
  assumes "exchanged pend sent rdok loc w i os w'" and "\<forall>j<n. a + of_nat j \<notin> range_at loc frame_size"
  shows "read_bytes (mem w') a n = read_bytes (mem w) a n"
  using assms by (intro read_bytes_cong) (auto simp: exchanged_def)

lemma write_guest_ok:
  assumes "duplex sys rd wr pend sent rdok" and "unat n < 2 ^ 31"
  shows "\<exists>q w'. write_full sys wr a n w = Some (if q = unat n then sint n else - EFAULT, w') \<and>
      taken (rdok (kern w)) a (unat n) q \<and>
      exchanged pend sent rdok loc w [] (read_bytes (mem w) a q) w'"
proof -
  have "duplex_write sys wr pend sent rdok" "unat n < 2 ^ 63" using assms by (auto simp: duplex_def)
  from write_full_loop_prefix[OF this, of 0 a w] obtain q w' where
    w: "write_full sys wr a n w = Some (if q = unat n then sint n else - EFAULT, w')"
    and q: "q \<le> unat n" "\<forall>i<q. rdok (kern w) (a + of_nat i)"
      "(\<forall>i < unat n. rdok (kern w) (a + of_nat i)) \<longrightarrow> q = unat n"
    and t: "transmitted pend sent rdok w (read_bytes (mem w) a q) w'"
    unfolding write_full_def by auto
  have "taken (rdok (kern w)) a (unat n) q" using q by (auto simp: taken_def)
  with w t show ?thesis by (auto simp: transmitted_def exchanged_def)
qed

lemma serve_memrq_ok:
  assumes "duplex sys (rd_fd t) (wr_fd t) pend sent rdok" and "frame_ok rdok loc w"
    and "hdr_id (last_hdr t) = MSGID_UNKNOWN" and "pend (kern w) = le_bytes 8 a @ le_bytes 8 n @ rest"
    and "\<forall>j < unat (capped n). a + of_nat j \<notin> range_at loc frame_size"
  shows "\<exists>p w'. serve_memrq sys loc t 16 w =
      Some (Inr (t\<lparr>written_bytes := written_bytes t + capped n\<rparr>, w')) \<and>
    taken (rdok (kern w)) a (unat (capped n)) p \<and>
    exchanged pend sent rdok loc w (le_bytes 8 a @ le_bytes 8 n)
      (hdr_bytes \<lparr>hdr_id = MSGID_C_MEMBUF, hdr_sz = ucast (capped n + 1)\<rparr> @
       membuf_payload (mem w) a (unat (capped n)) p) w'"
proof -
  let ?rq = "le_bytes 8 a @ le_bytes 8 n" and ?c = "capped n"
  let ?hdr = "hdr_bytes \<lparr>hdr_id = MSGID_C_MEMBUF, hdr_sz = ucast (?c + 1)\<rparr>"
  note ex = exchanged_def
  have c31: "unat ?c < 2 ^ 31" using capped_le[of n] by simp
  have sc: "sint ?c = int (unat ?c)"
    using sint_of_nat_64[of "unat ?c"] capped_le[of n] by simp
  from recv_frame[OF assms(1), of w ?rq rest 16 loc] assms(4) obtain w1 where
    w1: "read_full sys (rd_fd t) loc 16 w = Some (16, w1)" "exchanged pend sent rdok loc w ?rq [] w1"
        "mem w1 = write_bytes (mem w) loc ?rq" by auto
  note f1 = exchanged_frame[OF w1(2) assms(2)]
  from hdr_send_ok[OF assms(1) f1 assms(3)] obtain w2 where
    w2: "translator_hdr_send sys loc t MSGID_C_MEMBUF (ucast (?c + 1)) w1 = Some (0, w2)"
        "exchanged pend sent rdok loc w1 [] ?hdr w2" by blast
  note e2 = exchanged_trans[OF w1(2) w2(2)]
  have rd: "rdok (kern w2) = rdok (kern w)" using e2 by (simp add: ex)
  from write_guest_ok[OF assms(1) c31, of a w2 loc] obtain p w3 where
    w3': "write_full sys (wr_fd t) a ?c w2 = Some (if p = unat ?c then sint ?c else - EFAULT, w3)"
        "exchanged pend sent rdok loc w2 [] (read_bytes (mem w2) a p) w3"
    and tk: "taken (rdok (kern w)) a (unat ?c) p"
    unfolding rd by blast
  have "read_bytes (mem w2) a p = read_bytes (mem w) a p"
    using assms(5) tk by (intro read_bytes_outside_frame[OF e2]) (simp add: taken_def)
  note w3 = w3'[unfolded this]
  note e3 = exchanged_trans[OF e2 w3(2)]
  note f3 = exchanged_frame[OF e3 assms(2)]
  have ld: "load64 (mem w1) loc = a" "load64 (mem w1) (loc + 8) = n"
    unfolding w1(3) by (rule load_memrq)+
  have i: "int32 (sint ?c) = sint ?c" "sint ?c \<noteq> - EFAULT" "int32 (- EFAULT) = - EFAULT"
    "int32 16 = 16"
  proof -
    have "int (unat ?c) \<le> int 0x1000" using capped_le[of n] by (simp only: of_nat_le_iff)
    then have "0 \<le> sint ?c" "sint ?c \<le> 0x1000" using sc by linarith+
    then show "int32 (sint ?c) = sint ?c" "sint ?c \<noteq> - EFAULT" "int32 (- EFAULT) = - EFAULT" "int32 16 = 16"
      by (auto simp: int32_small int32_neg)
  qed
  have ok: "serve_memrq sys loc t 16 w = send_failed sys loc t ?c 0 w3" if "p = unat ?c"
    using w1(1) w2(1) w3(1) i that by (simp add: serve_memrq_def ld capped_def[symmetric])
  have fault: "serve_memrq sys loc t 16 w =
      (case send_padding sys loc (wr_fd t) (unat ?c) w3 of
         None \<Rightarrow> None
       | Some (ok, w4) \<Rightarrow>
           if \<not> ok then Some (Inl (- EFAULT, w4)) else send_failed sys loc t ?c 1 w4)" if "p \<noteq> unat ?c"
    using w1(1) w2(1) w3(1) i that
    by (simp add: serve_memrq_def ld capped_def[symmetric]) (simp only: Let_def i)
  show ?thesis
  proof (cases "p = unat ?c")
    case True
    from send_failed_ok[OF assms(1) f3] obtain w4 where
      "send_failed sys loc t ?c 0 w3 = Some (Inr (t\<lparr>written_bytes := written_bytes t + ?c\<rparr>, w4))"
      and "exchanged pend sent rdok loc w3 [] [0] w4" by blast
    with exchanged_trans[OF e3, of "[]" "[0]" w4] True ok tk show ?thesis
      by (intro exI[of _ p] exI[of _ w4]) (simp add: membuf_payload_def)
  next
    case False
    from send_padding_ok[OF assms(1) f3] obtain w4 where
      w4: "send_padding sys loc (wr_fd t) (unat ?c) w3 = Some (True, w4)"
        "exchanged pend sent rdok loc w3 [] (replicate (unat ?c) 0) w4" by blast
    note e4 = exchanged_trans[OF e3 w4(2)]
    from send_failed_ok[OF assms(1) exchanged_frame[OF e4 assms(2)]] obtain w5 where
      "send_failed sys loc t ?c 1 w4 = Some (Inr (t\<lparr>written_bytes := written_bytes t + ?c\<rparr>, w5))"
      and "exchanged pend sent rdok loc w4 [] [1] w5" by blast
    with exchanged_trans[OF e4, of "[]" "[1]" w5] False w4(1) fault tk show ?thesis
      by (intro exI[of _ p] exI[of _ w5]) (simp add: membuf_payload_def)
  qed
qed


subsection \<open>A translation request\<close>

text \<open>
  The kernel law for growing the receive buffer: \<^verbatim>\<open>mprotect\<close> changes access rights and nothing
  that went through the pipes.
\<close>

definition mprotect_quiet :: "'k sysfn \<Rightarrow> ('k \<Rightarrow> u8 list) \<Rightarrow> ('k \<Rightarrow> u8 list) \<Rightarrow> bool" where
  "mprotect_quiet sys pend sent \<longleftrightarrow>
     (\<forall>args m k. case sys NR_mprotect args m k of
        (r, m', k') \<Rightarrow> m' = m \<and> pend k' = pend k \<and> sent k' = sent k)"

lemma recvbuf_grow_quiet:
  assumes "mprotect_quiet sys pend sent" and "recvbuf_grow sys t g sz w = (ok, t', g', w')"
  shows "mem w' = mem w \<and> pend (kern w') = pend (kern w) \<and> sent (kern w') = sent (kern w) \<and>
    rd_fd t' = rd_fd t \<and> (\<not> ok \<longrightarrow> BAD_ADDR (recvbuf t'))"
proof -
  have "mem w2 = mem w \<and> pend (kern w2) = pend (kern w) \<and> sent (kern w2) = sent (kern w)"
    if "mprotect sys a n prot w = (r, w2)" for a n prot r w2
    using that assms(1)
    by (auto simp: mprotect_def syscall3_def do_syscall_def ret_int_def mprotect_quiet_def split: prod.splits)
  then have "mem w2 = mem w \<and> pend (kern w2) = pend (kern w) \<and> sent (kern w2) = sent (kern w)"
    if "arena_alloc sys a n al ex w = (p, a2, w2)" for a n al ex p a2 w2
    using that by (auto simp: arena_alloc_def Let_def split: if_splits prod.splits)
  then show ?thesis
    using assms(2) by (auto simp: recvbuf_grow_def mem_alloc_data_def Let_def split: if_splits prod.splits)
qed

lemma get_object_ok:
  assumes "duplex sys (rd_fd t) (wr_fd t) pend sent rdok" and "mprotect_quiet sys pend sent"
    and "last_hdr t = \<lparr>hdr_id = MSGID_S_OBJECT, hdr_sz = of_nat (length obj)\<rparr>"
    and "pend (kern w) = obj @ rest" and "length obj < 2 ^ 31"
  shows "\<exists>ret out t' g' w'. translator_get_object sys loc t g w = Some (ret, out, t', g', w') \<and>
    sent (kern w') = sent (kern w) \<and>
    (if BAD_ADDR (recvbuf t') \<and> out = None then ret = c_int (recvbuf t') \<and> mem w' = mem w
     else ret = 0 \<and> out = Some (recvbuf t', of_nat (length obj)) \<and> pend (kern w') = rest \<and>
       mem w' = write_bytes (mem w) (recvbuf t') obj)"
proof -
  let ?n = "length obj"
  have s: "sint (of_nat ?n :: u32) = int ?n"
    using sint_sbintrunc'[of "int ?n", where 'a = 32] assms(5) by (simp add: signed_take_bit_int_eq_self)
  define t1 where "t1 = t\<lparr>last_hdr := no_hdr\<rparr>"
  have r: "translator_hdr_recv sys loc t MSGID_S_OBJECT w = Some (int ?n, t1, w)"
    using assms(3) s by (simp add: translator_hdr_recv_def t1_def)
  obtain ok t2 g2 w2 where g: "recvbuf_grow sys t1 g (int ?n) w = (ok, t2, g2, w2)"
    by (cases "recvbuf_grow sys t1 g (int ?n) w")
  from recvbuf_grow_quiet[OF assms(2) g]
  have q: "mem w2 = mem w" "pend (kern w2) = obj @ rest" "sent (kern w2) = sent (kern w)"
    "rd_fd t2 = rd_fd t" "\<not> ok \<Longrightarrow> BAD_ADDR (recvbuf t2)" using assms(4) by (auto simp: t1_def)
  have n: "unat (of_nat ?n :: u64) = ?n" "sint (of_nat ?n :: u64) = int ?n"
    using assms(5) by (auto simp: unat_of_nat_64 sint_of_nat_64)
  have "duplex_read sys (rd_fd t2) pend sent rdok" using assms(1) q(4) by (simp add: duplex_def)
  from read_full_complete[OF this, of "of_nat ?n" w2 "recvbuf t2"] q(2) n assms(5) obtain w3 where
    w3: "read_full sys (rd_fd t2) (recvbuf t2) (of_nat ?n) w2 = Some (int ?n, w3)"
        "received pend sent rdok w2 (recvbuf t2) ?n w3" by auto
  have i: "int32 (int ?n) = int ?n" using assms(5) by (simp add: int32_small)
  show ?thesis
  proof (cases ok)
    case True
    then show ?thesis using r g w3 q i
      by (auto simp: translator_get_object_def received_def)
  next
    case False
    then show ?thesis using r g q by (auto simp: translator_get_object_def)
  qed
qed

lemma memory_answer_exchanged:
  assumes "exchanged pend sent rdok loc w i os w'" and "memory_answer (mem w') (rdok (kern w')) (a, n) bs"
    and "\<forall>j < unat (capped n). a + of_nat j \<notin> range_at loc frame_size"
  shows "memory_answer (mem w) (rdok (kern w)) (a, n) bs"
proof -
  have rd: "rdok (kern w') = rdok (kern w)" using assms(1) by (simp add: exchanged_def)
  from assms(2) obtain q where q: "taken (rdok (kern w)) a (unat (capped n)) q"
    "bs = hdr_bytes \<lparr>hdr_id = MSGID_C_MEMBUF, hdr_sz = ucast (capped n + 1)\<rparr> @
      membuf_payload (mem w') a (unat (capped n)) q" by (auto simp: memory_answer_def rd)
  moreover have "read_bytes (mem w') a q = read_bytes (mem w) a q"
    using assms(3) q(1) by (intro read_bytes_outside_frame[OF assms(1)]) (simp add: taken_def)
  ultimately show ?thesis by (auto simp: memory_answer_def membuf_payload_def)
qed

lemma memory_answers_exchanged:
  assumes "exchanged pend sent rdok loc w i os w'" and "list_all2 (memory_answer (mem w') (rdok (kern w'))) rqs ans"
    and "\<forall>(a, n) \<in> set rqs. \<forall>j < unat (capped n). a + of_nat j \<notin> range_at loc frame_size"
  shows "list_all2 (memory_answer (mem w) (rdok (kern w))) rqs ans"
  using assms(2)
proof (rule list.rel_mono_strong)
  fix rq bs assume "rq \<in> set rqs" and m: "memory_answer (mem w') (rdok (kern w')) rq bs"
  with assms(3) show "memory_answer (mem w) (rdok (kern w)) rq bs"
    by (cases rq) (auto intro: memory_answer_exchanged[OF assms(1)])
qed

lemma get_loop_ok:
  assumes "duplex sys (rd_fd t) (wr_fd t) pend sent rdok" and "mprotect_quiet sys pend sent"
    and "length obj < 2 ^ 31"
  shows "frame_ok rdok loc w \<Longrightarrow> last_hdr t' = no_hdr \<Longrightarrow> rd_fd t' = rd_fd t \<Longrightarrow> wr_fd t' = wr_fd t \<Longrightarrow>
    pend (kern w) = concat (map (\<lambda>(a, n). memrq_bytes a n) rqs) @
      hdr_bytes \<lparr>hdr_id = MSGID_S_OBJECT, hdr_sz = of_nat (length obj)\<rparr> @ obj @ rest \<Longrightarrow>
    \<forall>(a, n) \<in> set rqs. \<forall>j < unat (capped n). a + of_nat j \<notin> range_at loc frame_size \<Longrightarrow>
    \<exists>ans w1 t1. exchanged pend sent rdok loc w (concat (map (\<lambda>(a, n). memrq_bytes a n) rqs) @
        hdr_bytes \<lparr>hdr_id = MSGID_S_OBJECT, hdr_sz = of_nat (length obj)\<rparr>) (concat ans) w1 \<and>
      list_all2 (memory_answer (mem w) (rdok (kern w))) rqs ans \<and>
      rd_fd t1 = rd_fd t \<and> wr_fd t1 = wr_fd t \<and>
      last_hdr t1 = \<lparr>hdr_id = MSGID_S_OBJECT, hdr_sz = of_nat (length obj)\<rparr> \<and>
      translator_get_loop sys loc t' g w = translator_get_object sys loc t1 g w1"
proof (induction rqs arbitrary: w t')
  case Nil
  have "duplex sys (rd_fd t') (wr_fd t') pend sent rdok" using assms(1) Nil by simp
  from hdr_recv_fresh[OF this Nil.prems(2), of w "\<lparr>hdr_id = 5, hdr_sz = of_nat (length obj)\<rparr>" "obj @ rest" loc
      MSGID_S_MEMREQ] Nil.prems
  obtain w1 where "translator_hdr_recv sys loc t' MSGID_S_MEMREQ w =
      Some (- EPROTO, t'\<lparr>last_hdr := \<lparr>hdr_id = 5, hdr_sz = of_nat (length obj)\<rparr>\<rparr>, w1)"
    "exchanged pend sent rdok loc w (hdr_bytes \<lparr>hdr_id = 5, hdr_sz = of_nat (length obj)\<rparr>) [] w1" by auto
  then show ?case using Nil.prems
    by (intro exI[of _ "[]"] exI[of _ w1] exI[of _ "t'\<lparr>last_hdr := \<lparr>hdr_id = 5, hdr_sz = of_nat (length obj)\<rparr>\<rparr>"])
      (simp, subst translator_get_loop.simps, simp)
next
  case (Cons rq rqs)
  obtain a n where rq: "rq = (a, n)" by (cases rq)
  let ?h = "\<lparr>hdr_id = MSGID_S_MEMREQ, hdr_sz = 16\<rparr>"
  have dx: "duplex sys (rd_fd t') (wr_fd t') pend sent rdok" using assms(1) Cons by simp
  have pw: "pend (kern w) = hdr_bytes ?h @ le_bytes 8 a @ le_bytes 8 n @
      concat (map (\<lambda>(a, n). memrq_bytes a n) rqs) @
      hdr_bytes \<lparr>hdr_id = MSGID_S_OBJECT, hdr_sz = of_nat (length obj)\<rparr> @ obj @ rest"
    using Cons.prems(5) rq by (simp add: memrq_bytes_def)
  from hdr_recv_fresh[OF dx Cons.prems(2) pw, of loc MSGID_S_MEMREQ] obtain w1 where
    w1: "translator_hdr_recv sys loc t' MSGID_S_MEMREQ w = Some (16, t', w1)"
        "exchanged pend sent rdok loc w (hdr_bytes ?h) [] w1" by auto
  note f1 = exchanged_frame[OF w1(2) Cons.prems(1)]
  have p1: "pend (kern w1) = le_bytes 8 a @ le_bytes 8 n @ concat (map (\<lambda>(a, n). memrq_bytes a n) rqs) @
      hdr_bytes \<lparr>hdr_id = MSGID_S_OBJECT, hdr_sz = of_nat (length obj)\<rparr> @ obj @ rest"
    using w1(2) pw by (simp add: exchanged_def)
  have h0: "hdr_id (last_hdr t') = MSGID_UNKNOWN" using Cons.prems(2) by (simp add: no_hdr_def)
  have out: "\<forall>j < unat (capped n). a + of_nat j \<notin> range_at loc frame_size" using Cons.prems(6) rq by simp
  from serve_memrq_ok[OF dx f1 h0 p1 out] obtain bs w2 where
    w2: "serve_memrq sys loc t' 16 w1 = Some (Inr (t'\<lparr>written_bytes := written_bytes t' + capped n\<rparr>, w2))"
        "exchanged pend sent rdok loc w1 (le_bytes 8 a @ le_bytes 8 n) bs w2"
    and bs: "memory_answer (mem w1) (rdok (kern w1)) (a, n) bs" by (auto simp: memory_answer_def)
  note e2 = exchanged_trans[OF w1(2) w2(2)]
  let ?t2 = "t'\<lparr>written_bytes := written_bytes t' + capped n\<rparr>"
  have p2: "pend (kern w2) = concat (map (\<lambda>(a, n). memrq_bytes a n) rqs) @
      hdr_bytes \<lparr>hdr_id = MSGID_S_OBJECT, hdr_sz = of_nat (length obj)\<rparr> @ obj @ rest"
    using w2(2) p1 by (simp add: exchanged_def)
  have rest: "\<forall>(a, n) \<in> set rqs. \<forall>j < unat (capped n). a + of_nat j \<notin> range_at loc frame_size"
    using Cons.prems(6) by simp
  from Cons.IH[of w2 ?t2, OF exchanged_frame[OF e2 Cons.prems(1)] _ _ _ p2 rest] Cons.prems(2-4) obtain ans w3 t1 where
    w3: "exchanged pend sent rdok loc w2 (concat (map (\<lambda>(a, n). memrq_bytes a n) rqs) @
        hdr_bytes \<lparr>hdr_id = MSGID_S_OBJECT, hdr_sz = of_nat (length obj)\<rparr>) (concat ans) w3"
    and ans: "list_all2 (memory_answer (mem w2) (rdok (kern w2))) rqs ans"
    and t1: "rd_fd t1 = rd_fd t" "wr_fd t1 = wr_fd t"
      "last_hdr t1 = \<lparr>hdr_id = MSGID_S_OBJECT, hdr_sz = of_nat (length obj)\<rparr>"
      "translator_get_loop sys loc ?t2 g w2 = translator_get_object sys loc t1 g w3" by auto
  have "list_all2 (memory_answer (mem w) (rdok (kern w))) (rq # rqs) (bs # ans)"
    using memory_answers_exchanged[OF e2 ans rest] memory_answer_exchanged[OF w1(2) bs out] rq by simp
  moreover have "exchanged pend sent rdok loc w (concat (map (\<lambda>(a, n). memrq_bytes a n) (rq # rqs)) @
      hdr_bytes \<lparr>hdr_id = MSGID_S_OBJECT, hdr_sz = of_nat (length obj)\<rparr>) (concat (bs # ans)) w3"
    using exchanged_trans[OF e2 w3] rq by (simp add: memrq_bytes_def)
  moreover have "translator_get_loop sys loc t' g w = translator_get_object sys loc t1 g w3"
    using w1(1) w2(1) t1(4) by (subst translator_get_loop.simps) simp
  ultimately show ?case using t1 by blast
qed


subsection \<open>Properties of the exchange\<close>

text \<open>
  C3: A translation request completes for every sequence of memory requests the server makes
  before it sends the object: the client sends the request, answers each memory request
  in order from the guest's memory, and returns 0 with exactly the object in the receive buffer,
  leaving the rest of the stream unread; the only other outcome is that the receive buffer cannot
  be grown. The answer to a request whose bytes are readable is these bytes and a zero flag; the
  answer to another one is a readable prefix, a block of zeros and the flag one.
\<close>

theorem translator_get_serves:
  assumes "duplex sys (rd_fd t) (wr_fd t) pend sent rdok" and "mprotect_quiet sys pend sent"
    and "frame_ok rdok loc w" and "last_hdr t = no_hdr" and "length obj < 2 ^ 31"
    and "pend (kern w) = concat (map (\<lambda>(a, n). memrq_bytes a n) rqs) @
      hdr_bytes \<lparr>hdr_id = MSGID_S_OBJECT, hdr_sz = of_nat (length obj)\<rparr> @ obj @ rest"
    and "\<forall>(a, n) \<in> set rqs. \<forall>j < unat (capped n). a + of_nat j \<notin> range_at loc frame_size"
  shows "\<exists>ret out t' g' w' ans. translator_get sys loc t addr g w = Some (ret, out, t', g', w') \<and>
    sent (kern w') = sent (kern w) @ hdr_bytes \<lparr>hdr_id = MSGID_C_TRANSLATE, hdr_sz = 8\<rparr> @ le_bytes 8 addr @
      concat ans \<and>
    list_all2 (memory_answer (mem w) (rdok (kern w))) rqs ans \<and>
    (if BAD_ADDR (recvbuf t') \<and> out = None then ret = c_int (recvbuf t')
     else ret = 0 \<and> out = Some (recvbuf t', of_nat (length obj)) \<and> pend (kern w') = rest \<and>
       read_bytes (mem w') (recvbuf t') (length obj) = obj)"
proof -
  let ?h = "hdr_bytes \<lparr>hdr_id = MSGID_C_TRANSLATE, hdr_sz = 8\<rparr>"
  have h0: "hdr_id (last_hdr t) = MSGID_UNKNOWN" using assms(4) by (simp add: no_hdr_def)
  from hdr_send_ok[OF assms(1,3) h0, of MSGID_C_TRANSLATE 8] obtain w1 where
    w1: "translator_hdr_send sys loc t MSGID_C_TRANSLATE 8 w = Some (0, w1)"
        "exchanged pend sent rdok loc w [] ?h w1" by blast
  from send_local_ok[OF assms(1) exchanged_frame[OF w1(2) assms(3)], of "le_bytes 8 addr"] obtain w2 where
    w2: "send_local sys loc (wr_fd t) (le_bytes 8 addr) w1 = Some (8, w2)"
        "exchanged pend sent rdok loc w1 [] (le_bytes 8 addr) w2" by auto
  note e2 = exchanged_trans[OF w1(2) w2(2)]
  have p2: "pend (kern w2) = pend (kern w)" using e2 by (simp add: exchanged_def)
  from get_loop_ok[OF assms(1,2,5) exchanged_frame[OF e2 assms(3)] assms(4) refl refl _ assms(7), of rest g]
    assms(6) p2 obtain ans w3 t3 where
    w3: "exchanged pend sent rdok loc w2 (concat (map (\<lambda>(a, n). memrq_bytes a n) rqs) @
        hdr_bytes \<lparr>hdr_id = MSGID_S_OBJECT, hdr_sz = of_nat (length obj)\<rparr>) (concat ans) w3"
    and ans: "list_all2 (memory_answer (mem w2) (rdok (kern w2))) rqs ans"
    and t3: "rd_fd t3 = rd_fd t" "wr_fd t3 = wr_fd t"
      "last_hdr t3 = \<lparr>hdr_id = MSGID_S_OBJECT, hdr_sz = of_nat (length obj)\<rparr>"
      "translator_get_loop sys loc t g w2 = translator_get_object sys loc t3 g w3" by auto
  note replies = memory_answers_exchanged[OF e2 ans assms(7)]
  have st: "sent (kern w3) = sent (kern w) @ ?h @ le_bytes 8 addr @ concat ans"
    and p3: "pend (kern w3) = obj @ rest"
    using e2 w3 p2 assms(6) by (simp_all add: exchanged_def)
  have get: "translator_get sys loc t addr g w = translator_get_object sys loc t3 g w3"
    using w1(1) w2(1) t3(4) by (simp add: translator_get_def int32_small)
  have dx: "duplex sys (rd_fd t3) (wr_fd t3) pend sent rdok" using assms(1) t3 by simp
  have "read_bytes (write_bytes m a obj) a (length obj) = obj" for m a
    using assms(5) by (intro read_write_bytes) simp
  then show ?thesis
    using get_object_ok[OF dx assms(2) t3(3) p3 assms(5), of loc g] replies unfolding get st by fastforce
qed

definition demo_translator :: translator where
  "demo_translator = \<lparr>rd_fd = 3, wr_fd = 4, written_bytes = 0, last_hdr = no_hdr, recvbuf = 0x9000, recvbuf_sz = 0x1000\<rparr>"

definition demo_world :: "u8 list \<Rightarrow> (u8 list \<times> u8 list \<times> u64) world" where
  "demo_world inp = \<lparr>mem = (\<lambda>a. ucast a), kern = (inp, [], 0x1004), pagesize = 0x1000\<rparr>"

lemma demo_frame: "frame_ok (\<lambda>k a. pipe_rdok k a) 0x100 (demo_world inp)"
  by (auto simp: frame_ok_def demo_world_def word_less_nat_alt unat_word_ariths unat_of_nat_64)

lemma demo_outside:
  assumes "n \<le> 8"
  shows "\<forall>j < n. (0x1000 :: u64) + of_nat j \<notin> range_at 0x100 frame_size"
proof (intro allI impI)
  fix j assume "j < n"
  then have "unat ((0x1000 :: u64) + of_nat j - 0x100) = 0xf00 + j"
    using assms by (simp add: unat_word_ariths unat_of_nat_64)
  then show "(0x1000 :: u64) + of_nat j \<notin> range_at 0x100 frame_size" by (simp add: range_at_def)
qed

lemma pipe_mprotect_quiet: "mprotect_quiet pipe_sys (\<lambda>k. pipe_pend k) (\<lambda>k. pipe_sent k)"
  by (auto simp: mprotect_quiet_def pipe_sys_def split: list.splits)

theorem translator_get_serves_witness:
  "\<exists>ret out t' g' w'.
    translator_get pipe_sys 0x100 demo_translator 0x400000 fresh_arenas
      (demo_world (memrq_bytes 0x1000 4 @ hdr_bytes \<lparr>hdr_id = MSGID_S_OBJECT, hdr_sz = 2\<rparr> @ [0xEB, 0xFE] @ [7])) =
      Some (ret, out, t', g', w') \<and>
    (if BAD_ADDR (recvbuf t') \<and> out = None then ret = c_int (recvbuf t')
     else ret = 0 \<and> out = Some (recvbuf t', 2) \<and> pipe_pend (kern w') = [7] \<and>
       read_bytes (mem w') (recvbuf t') 2 = [0xEB, 0xFE])"
proof -
  let ?w = "demo_world (memrq_bytes 0x1000 4 @ hdr_bytes \<lparr>hdr_id = MSGID_S_OBJECT, hdr_sz = 2\<rparr> @ [0xEB, 0xFE] @ [7])"
  have dx: "duplex pipe_sys (rd_fd demo_translator) (wr_fd demo_translator) fst (\<lambda>k. pipe_sent k) (\<lambda>k a. pipe_rdok k a)"
    by (rule pipe_duplex)
  have out: "\<forall>(a, n) \<in> set [(0x1000 :: u64, 4 :: u64)].
      \<forall>j < unat (capped n). a + of_nat j \<notin> range_at 0x100 frame_size"
    using demo_outside[of 4] by (simp add: capped_def)
  have pd: "fst (kern ?w) = concat (map (\<lambda>(a, n). memrq_bytes a n) [(0x1000, 4)]) @
      hdr_bytes \<lparr>hdr_id = MSGID_S_OBJECT, hdr_sz = of_nat (length [0xEB :: u8, 0xFE])\<rparr> @ [0xEB, 0xFE] @ [7]"
    by (simp add: demo_world_def)
  have "last_hdr demo_translator = no_hdr" and "length [0xEB :: u8, 0xFE] < 2 ^ 31"
    by (simp_all add: demo_translator_def)
  from translator_get_serves[OF dx pipe_mprotect_quiet demo_frame this pd out, of "0x400000" fresh_arenas]
  have "\<exists>ret out t' g' w'. translator_get pipe_sys 0x100 demo_translator 0x400000 fresh_arenas ?w =
      Some (ret, out, t', g', w') \<and>
    (if BAD_ADDR (recvbuf t') \<and> out = None then ret = c_int (recvbuf t')
     else ret = 0 \<and> out = Some (recvbuf t', of_nat (length [0xEB :: u8, 0xFE])) \<and> fst (kern w') = [7] \<and>
       read_bytes (mem w') (recvbuf t') (length [0xEB :: u8, 0xFE]) = [0xEB, 0xFE])"
    by blast
  moreover have "length [0xEB :: u8, 0xFE] = 2" by simp
  ultimately show ?thesis by (simp only: of_nat_numeral)
qed

text \<open>
  C20: A memory request is always answered. When all requested bytes are readable, the answer is
  these bytes and the flag zero. Otherwise it is a readable prefix, as much as the kernel took
  before it reported the fault, a block of zeros of the full size and the flag one; then the
  answer is as long as its header says exactly when that prefix is empty, as it is when
  the first byte is not readable. (A nonempty one leaves the server with unread bytes in front of
  the next header.)
\<close>

theorem serve_memrq_framing:
  assumes "duplex sys (rd_fd t) (wr_fd t) pend sent rdok" and "frame_ok rdok loc w"
    and "hdr_id (last_hdr t) = MSGID_UNKNOWN" and "pend (kern w) = le_bytes 8 a @ le_bytes 8 n @ rest"
    and "\<forall>j < unat (capped n). a + of_nat j \<notin> range_at loc frame_size"
  shows "\<exists>t' w' q payload. serve_memrq sys loc t 16 w = Some (Inr (t', w')) \<and>
    pend (kern w') = rest \<and>
    sent (kern w') = sent (kern w) @
      hdr_bytes \<lparr>hdr_id = MSGID_C_MEMBUF, hdr_sz = ucast (capped n + 1)\<rparr> @ payload \<and>
    (if \<forall>i < unat (capped n). rdok (kern w) (a + of_nat i)
     then payload = read_bytes (mem w) a (unat (capped n)) @ [0]
     else payload = read_bytes (mem w) a q @ replicate (unat (capped n)) 0 @ [1] \<and>
       (\<forall>i<q. rdok (kern w) (a + of_nat i)) \<and>
       (length payload = unat (capped n) + 1 \<longleftrightarrow> q = 0) \<and> (\<not> rdok (kern w) a \<longrightarrow> q = 0))"
proof -
  let ?n = "unat (capped n)"
  from serve_memrq_ok[OF assms] obtain q w' where
    s: "serve_memrq sys loc t 16 w = Some (Inr (t\<lparr>written_bytes := written_bytes t + capped n\<rparr>, w'))"
    and q: "taken (rdok (kern w)) a ?n q"
    and e: "exchanged pend sent rdok loc w (le_bytes 8 a @ le_bytes 8 n)
      (hdr_bytes \<lparr>hdr_id = MSGID_C_MEMBUF, hdr_sz = ucast (capped n + 1)\<rparr> @ membuf_payload (mem w) a ?n q) w'"
    by blast
  have "q = 0" if "\<not> rdok (kern w) a"
  proof (rule ccontr)
    assume "q \<noteq> 0"
    then have "rdok (kern w) (a + of_nat 0)" using q unfolding taken_def by blast
    with that show False by simp
  qed
  moreover have "pend (kern w') = rest" using e assms(4) by (simp add: exchanged_def)
  ultimately show ?thesis
    using s e q by (intro exI[of _ "t\<lparr>written_bytes := written_bytes t + capped n\<rparr>"] exI[of _ w'] exI[of _ q]
      exI[of _ "membuf_payload (mem w) a ?n q"]) (auto simp: exchanged_def membuf_payload_def taken_def)
qed

theorem serve_memrq_framing_witness:
  "\<exists>t' w'. serve_memrq pipe_sys 0x100 demo_translator 16 (demo_world (le_bytes 8 (0x1000 :: u64) @ le_bytes 8 (4 :: u64))) =
      Some (Inr (t', w')) \<and>
    pipe_sent (kern w') = hdr_bytes \<lparr>hdr_id = MSGID_C_MEMBUF, hdr_sz = 5\<rparr> @ [0, 1, 2, 3] @ [0]"
proof -
  let ?w = "demo_world (le_bytes 8 (0x1000 :: u64) @ le_bytes 8 (4 :: u64))"
  have c: "capped 4 = 4" by (simp add: capped_def)
  have ok: "\<forall>i<4. (0x1000 :: u64) + of_nat i < 0x1004"
    by (simp add: word_less_nat_alt unat_word_ariths unat_of_nat_64)
  have rd: "read_bytes (\<lambda>a. ucast a) 0x1000 4 = [0, 1, 2, 3]" by (simp add: read_bytes_numeral)
  have h: "hdr_id (last_hdr demo_translator) = MSGID_UNKNOWN" by (simp add: demo_translator_def no_hdr_def)
  have p: "fst (kern ?w) = le_bytes 8 (0x1000 :: u64) @ le_bytes 8 (4 :: u64) @ []" by (simp add: demo_world_def del: le_bytes.simps)
  have o': "\<forall>j < unat (capped 4). 0x1000 + of_nat j \<notin> range_at 0x100 frame_size"
    using demo_outside[of 4] by (simp add: c)
  have dx: "duplex pipe_sys (rd_fd demo_translator) (wr_fd demo_translator) fst (\<lambda>k. pipe_sent k) (\<lambda>k a. pipe_rdok k a)"
    by (rule pipe_duplex)
  from serve_memrq_framing[OF dx demo_frame h p o'] obtain t' w' payload where
    "serve_memrq pipe_sys 0x100 demo_translator 16 ?w = Some (Inr (t', w'))"
    "pipe_sent (kern w') = pipe_sent (kern ?w) @ hdr_bytes \<lparr>hdr_id = MSGID_C_MEMBUF, hdr_sz = ucast (capped 4 + 1)\<rparr> @ payload"
    "(\<forall>i < unat (capped 4). pipe_rdok (kern ?w) (0x1000 + of_nat i)) \<longrightarrow>
       payload = read_bytes (mem ?w) 0x1000 (unat (capped 4)) @ [0]" by metis
  then show ?thesis using ok rd by (auto simp: c demo_world_def simp del: read_bytes.simps)
qed

end
