(* ===== verification/Rtld_Table.thy ===== *)
theory Rtld_Table
  imports Prelude
begin

text \<open>
  The table of translated functions of \<^verbatim>\<open>client/rtld.c\<close>: an open-addressing hash table with linear
  probing, \<^verbatim>\<open>rtld_set\<close> and \<^verbatim>\<open>rtld_resolve\<close>. The locale \<open>object_table\<close> is the contract its
  clients (the relocation of symbols and the dispatcher) rely on: a partial map that is only ever
  extended.
\<close>

unbundle bit_operations_syntax

subsection \<open>The table\<close>

record rtld_object =
  obj_addr :: u64
  obj_entry :: u64
  obj_base :: u64
  obj_size :: u64

type_synonym rtld_objects = "nat \<Rightarrow> rtld_object"

definition RTLD_HASH_BITS :: nat where
  "RTLD_HASH_BITS = 17"

definition RTLD_HASH_MASK :: u64 where
  "RTLD_HASH_MASK = 2 ^ RTLD_HASH_BITS - 1"

definition RTLD_HASH :: "u64 \<Rightarrow> u64" where
  "RTLD_HASH addr = drop_bit 2 addr AND RTLD_HASH_MASK"

definition slot :: "u64 \<Rightarrow> nat \<Rightarrow> nat" where
  "slot addr i = unat ((RTLD_HASH addr + of_nat i) AND RTLD_HASH_MASK)"

function rtld_set_loop ::
  "rtld_objects \<Rightarrow> u64 \<Rightarrow> u64 \<Rightarrow> u64 \<Rightarrow> u64 \<Rightarrow> nat \<Rightarrow> int \<times> rtld_objects" where
  "rtld_set_loop objects addr entry base sz i =
     (if i \<le> unat RTLD_HASH_MASK then
        let j = slot addr i in
        if obj_addr (objects j) = addr then (- EEXIST, objects)
        else if obj_addr (objects j) = 0 then
          (0, objects(j := \<lparr>obj_addr = addr, obj_entry = entry, obj_base = base, obj_size = sz\<rparr>))
        else rtld_set_loop objects addr entry base sz (i + 1)
      else (- ENOSPC, objects))"
  by pat_completeness auto
termination
  by (relation "measure (\<lambda>(ob, a, e, b, s, i). Suc (unat RTLD_HASH_MASK) - i)") auto

definition rtld_set ::
  "rtld_objects \<Rightarrow> u64 \<Rightarrow> u64 \<Rightarrow> u64 \<Rightarrow> u64 \<Rightarrow> int \<times> rtld_objects" where
  "rtld_set objects addr entry base sz =
     (if addr = 0 then (- EINVAL, objects)
      else rtld_set_loop objects addr entry base sz 0)"

function rtld_resolve_loop :: "rtld_objects \<Rightarrow> u64 \<Rightarrow> nat \<Rightarrow> u64 option" where
  "rtld_resolve_loop objects addr i =
     (if i \<le> unat RTLD_HASH_MASK then
        let j = slot addr i in
        if obj_addr (objects j) = 0 then None
        else if obj_addr (objects j) = addr then Some (obj_entry (objects j))
        else rtld_resolve_loop objects addr (i + 1)
      else None)"
  by pat_completeness auto
termination
  by (relation "measure (\<lambda>(ob, a, i). Suc (unat RTLD_HASH_MASK) - i)") auto

text \<open>\<^verbatim>\<open>rtld_resolve\<close> returns 0 and the entry (\<open>Some\<close>) or -ENOENT (\<open>None\<close>).\<close>

definition rtld_resolve :: "rtld_objects \<Rightarrow> u64 \<Rightarrow> u64 option" where
  "rtld_resolve objects addr = (if addr = 0 then None else rtld_resolve_loop objects addr 0)"

definition no_objects :: rtld_objects where
  "no_objects = (\<lambda>_. \<lparr>obj_addr = 0, obj_entry = 0, obj_base = 0, obj_size = 0\<rparr>)"

declare rtld_set_loop.simps [simp del] rtld_resolve_loop.simps [simp del]

subsection \<open>The contract of the table\<close>

locale object_table =
  fixes tset :: "'t \<Rightarrow> u64 \<Rightarrow> 'v \<Rightarrow> int \<times> 't"
    and resolve :: "'t \<Rightarrow> u64 \<Rightarrow> 'v option"
    and inv :: "'t \<Rightarrow> bool"
  assumes set_ok: "inv t \<Longrightarrow> tset t a v = (0, t') \<Longrightarrow>
      inv t' \<and> resolve t a = None \<and> (\<forall>b. resolve t' b = (if b = a then Some v else resolve t b))"
    and set_error: "inv t \<Longrightarrow> tset t a v = (r, t') \<Longrightarrow> r \<noteq> 0 \<Longrightarrow> r < 0 \<and> t' = t"
    and resolve_zero: "resolve t 0 = None"
begin

lemma set_inv: "inv t \<Longrightarrow> inv (snd (tset t a v))"
  using set_ok[of t a v] set_error[of t a v] by (cases "tset t a v") (metis snd_conv)

lemma set_extends: "inv t \<Longrightarrow> resolve t b = Some x \<Longrightarrow> resolve (snd (tset t a v)) b = Some x"
  using set_ok[of t a v] set_error[of t a v] by (cases "tset t a v") (metis option.distinct(1) snd_conv)

lemma sets_inv_extend:
  "inv t \<Longrightarrow> inv (foldl (\<lambda>t (a, v). snd (tset t a v)) t xs) \<and>
   (\<forall>b x. resolve t b = Some x \<longrightarrow> resolve (foldl (\<lambda>t (a, v). snd (tset t a v)) t xs) b = Some x)"
proof (induction xs arbitrary: t)
  case (Cons p xs)
  obtain a v where p: "p = (a, v)" by (cases p)
  from Cons.IH[OF set_inv[OF Cons.prems, of a v]] set_extends[OF Cons.prems] show ?case
    by (simp add: p)
qed simp

lemma set_duplicate: "inv t \<Longrightarrow> resolve t a = Some x \<Longrightarrow> fst (tset t a v) < 0 \<and> snd (tset t a v) = t"
  using set_ok[of t a v] set_error[of t a v] by (cases "tset t a v") fastforce

end

subsection \<open>The probe sequence\<close>

definition probe_from :: "rtld_objects \<Rightarrow> u64 \<Rightarrow> nat \<Rightarrow> nat option" where
  "probe_from t a i = find (\<lambda>i. obj_addr (t (slot a i)) \<in> {0, a}) [i..<Suc (unat RTLD_HASH_MASK)]"

abbreviation probe :: "rtld_objects \<Rightarrow> u64 \<Rightarrow> nat option" where
  "probe t a \<equiv> probe_from t a 0"

definition table_inv :: "rtld_objects \<Rightarrow> bool" where
  "table_inv t \<longleftrightarrow>
     (\<forall>j \<le> unat RTLD_HASH_MASK. obj_addr (t j) \<noteq> 0 \<longrightarrow>
        (\<exists>i. probe t (obj_addr (t j)) = Some i \<and> slot (obj_addr (t j)) i = j))"

lemma slot_le: "slot a i \<le> unat RTLD_HASH_MASK"
  unfolding slot_def word_le_nat_alt[symmetric] by (rule word_and_le1)

lemma probe_from_step:
  "i \<le> unat RTLD_HASH_MASK \<Longrightarrow>
   probe_from t a i = (if obj_addr (t (slot a i)) \<in> {0, a} then Some i else probe_from t a (Suc i))"
  by (simp add: probe_from_def upt_conv_Cons del: upt_Suc)

lemma set_loop_probe:
  assumes "a \<noteq> 0"
  shows "rtld_set_loop t a e b s i =
    (case probe_from t a i of
       None \<Rightarrow> (- ENOSPC, t)
     | Some k \<Rightarrow>
         if obj_addr (t (slot a k)) = a then (- EEXIST, t)
         else (0, t(slot a k := \<lparr>obj_addr = a, obj_entry = e, obj_base = b, obj_size = s\<rparr>)))"
proof (induction t a e b s i rule: rtld_set_loop.induct)
  case (1 t a e b s i)
  show ?case
  proof (cases "i \<le> unat RTLD_HASH_MASK")
    case True
    then show ?thesis using 1
      by (subst rtld_set_loop.simps) (auto simp: Let_def probe_from_step)
  qed (simp add: rtld_set_loop.simps probe_from_def)
qed

lemma resolve_loop_probe:
  assumes "a \<noteq> 0"
  shows "rtld_resolve_loop t a i =
    (case probe_from t a i of
       None \<Rightarrow> None
     | Some k \<Rightarrow> if obj_addr (t (slot a k)) = a then Some (obj_entry (t (slot a k))) else None)"
  using assms
proof (induction t a i rule: rtld_resolve_loop.induct)
  case (1 t a i)
  show ?case
  proof (cases "i \<le> unat RTLD_HASH_MASK")
    case True
    then show ?thesis using 1
      by (subst rtld_resolve_loop.simps) (auto simp: Let_def probe_from_step)
  qed (simp add: rtld_resolve_loop.simps probe_from_def)
qed


lemma probe_Some:
  "probe t a = Some i \<longleftrightarrow> i \<le> unat RTLD_HASH_MASK \<and> obj_addr (t (slot a i)) \<in> {0, a} \<and>
     (\<forall>k<i. obj_addr (t (slot a k)) \<notin> {0, a})"
  by (auto simp: probe_from_def find_Some_iff less_Suc_eq_le simp del: upt_Suc)

lemma probe_None:
  "probe t a = None \<longleftrightarrow> (\<forall>k \<le> unat RTLD_HASH_MASK. obj_addr (t (slot a k)) \<notin> {0, a})"
  by (auto simp: probe_from_def find_None_iff less_Suc_eq_le simp del: upt_Suc)

lemma rtld_resolve_probe:
  "a \<noteq> 0 \<Longrightarrow> rtld_resolve t a =
    (case probe t a of
       None \<Rightarrow> None
     | Some k \<Rightarrow> if obj_addr (t (slot a k)) = a then Some (obj_entry (t (slot a k))) else None)"
  by (simp add: rtld_resolve_def resolve_loop_probe)

lemma rtld_set_success:
  assumes "rtld_set t a e b s = (0, t')"
  shows "\<exists>i. a \<noteq> 0 \<and> probe t a = Some i \<and> obj_addr (t (slot a i)) = 0 \<and>
    t' = t(slot a i := \<lparr>obj_addr = a, obj_entry = e, obj_base = b, obj_size = s\<rparr>)"
  using assms by (auto simp: rtld_set_def set_loop_probe probe_Some split: if_splits option.splits)

lemma rtld_set_failure:
  assumes "rtld_set t a e b s = (r, t')" and "r \<noteq> 0"
  shows "r \<in> {- EINVAL, - EEXIST, - ENOSPC} \<and> t' = t"
  using assms by (auto simp: rtld_set_def set_loop_probe split: if_splits option.splits)

text \<open>A key that the probe does not find is nowhere in the table.\<close>

lemma absent:
  assumes "table_inv t" and "a \<noteq> 0" and "probe t a = Some i" and "obj_addr (t (slot a i)) = 0"
    and "j \<le> unat RTLD_HASH_MASK"
  shows "obj_addr (t j) \<noteq> a"
  using assms unfolding table_inv_def by (metis option.inject)

lemma probe_update_other:
  assumes "obj_addr (t s) = 0" and "probe t b = Some k" and "slot b k \<noteq> s"
  shows "probe (t(s := ob)) b = Some k"
  using assms by (auto simp: probe_Some)

lemma update_inv:
  assumes inv: "table_inv t" and a: "a \<noteq> 0" and i: "probe t a = Some i" and e: "obj_addr (t (slot a i)) = 0"
    and ob: "obj_addr ob = a"
  shows "table_inv (t(slot a i := ob))"
  unfolding table_inv_def
proof (intro allI impI)
  fix j assume j: "j \<le> unat RTLD_HASH_MASK" and nz: "obj_addr ((t(slot a i := ob)) j) \<noteq> 0"
  show "\<exists>k. probe (t(slot a i := ob)) (obj_addr ((t(slot a i := ob)) j)) = Some k \<and>
      slot (obj_addr ((t(slot a i := ob)) j)) k = j"
  proof (cases "j = slot a i")
    case True
    have "probe (t(slot a i := ob)) a = Some i" using i ob by (auto simp: probe_Some)
    with True ob show ?thesis by auto
  next
    case False
    with inv j nz obtain k where k: "probe t (obj_addr (t j)) = Some k" "slot (obj_addr (t j)) k = j"
      by (auto simp: table_inv_def)
    with False show ?thesis using probe_update_other[OF e k(1)] by auto
  qed
qed

lemma resolve_update:
  assumes inv: "table_inv t" and a: "a \<noteq> 0" and i: "probe t a = Some i" and e: "obj_addr (t (slot a i)) = 0"
    and ob: "obj_addr ob = a"
  shows "rtld_resolve (t(slot a i := ob)) b = (if b = a then Some (obj_entry ob) else rtld_resolve t b)"
proof (cases "b = a")
  case True
  have "probe (t(slot a i := ob)) a = Some i" using i ob by (auto simp: probe_Some)
  with True a ob show ?thesis by (simp add: rtld_resolve_probe)
next
  case False
  show ?thesis
  proof (cases "b = 0")
    case nz: False
    let ?t = "t(slot a i := ob)"
    show ?thesis
    proof (cases "probe t b")
      case None
      then have "probe ?t b = None" using False ob a by (auto simp: probe_None)
      with None nz False show ?thesis by (simp add: rtld_resolve_probe)
    next
      case (Some k)
      show ?thesis
      proof (cases "slot b k = slot a i")
        case True
        with absent[OF inv nz Some] e have "\<forall>j \<le> unat RTLD_HASH_MASK. obj_addr (t j) \<noteq> b" by simp
        then have "obj_addr (?t (slot b k')) \<noteq> b" for k'
          using False ob slot_le[of b k'] by (auto split: if_splits)
        then have "rtld_resolve ?t b = None" using nz by (simp add: rtld_resolve_probe split: option.split)
        moreover have "rtld_resolve t b = None" using nz Some True e by (simp add: rtld_resolve_probe)
        ultimately show ?thesis using False by simp
      next
        case other: False
        then show ?thesis
          using nz False probe_update_other[OF e Some other] Some by (simp add: rtld_resolve_probe)
      qed
    qed
  qed (use False in \<open>simp add: rtld_resolve_def\<close>)
qed

interpretation objects: object_table
  "\<lambda>t a entry. rtld_set t a entry base sz" rtld_resolve table_inv for base sz
proof
  fix t t' :: rtld_objects and a v
  assume inv: "table_inv t" and "rtld_set t a v base sz = (0, t')"
  from rtld_set_success[OF this(2)] obtain i where i: "a \<noteq> 0" "probe t a = Some i" "obj_addr (t (slot a i)) = 0"
    "t' = t(slot a i := \<lparr>obj_addr = a, obj_entry = v, obj_base = base, obj_size = sz\<rparr>)" by blast
  show "table_inv t' \<and> rtld_resolve t a = None \<and>
      (\<forall>b. rtld_resolve t' b = (if b = a then Some v else rtld_resolve t b))"
    using update_inv[OF inv i(1-3)] resolve_update[OF inv i(1-3)] i by (simp add: rtld_resolve_probe)
next
  fix t t' :: rtld_objects and a v r
  assume "rtld_set t a v base sz = (r, t')" and "r \<noteq> 0"
  then show "r < 0 \<and> t' = t" using rtld_set_failure by fastforce
next
  show "rtld_resolve t 0 = None" for t by (simp add: rtld_resolve_def)
qed

lemma no_objects_inv: "table_inv no_objects"
  by (simp add: table_inv_def no_objects_def)

lemma no_objects_addr: "obj_addr (no_objects j) = 0"
  by (simp add: no_objects_def)

lemma no_objects_resolve: "rtld_resolve no_objects a = None"
  by (subst rtld_resolve_def, subst rtld_resolve_loop.simps) (simp add: no_objects_def)

lemma unat_hash_mask: "unat (x AND RTLD_HASH_MASK) = unat x mod 2 ^ 17"
proof -
  have "x AND RTLD_HASH_MASK = take_bit 17 x"
    by (simp add: RTLD_HASH_MASK_def RTLD_HASH_BITS_def take_bit_eq_mask mask_eq_exp_minus_1)
  then have "unat (x AND RTLD_HASH_MASK) = take_bit 17 (unat x)" by (simp only: unsigned_take_bit_eq)
  then show ?thesis by (simp only: take_bit_eq_mod)
qed

lemma unat_RTLD_HASH_MASK: "unat RTLD_HASH_MASK = 2 ^ 17 - 1"
  by (simp add: RTLD_HASH_MASK_def RTLD_HASH_BITS_def)

lemma slot_mod: "i < 2 ^ 63 \<Longrightarrow> slot a i = (unat (RTLD_HASH a) + i) mod 2 ^ 17"
proof -
  assume "i < 2 ^ 63"
  moreover have "unat (RTLD_HASH a) < 2 ^ 17" by (simp add: RTLD_HASH_def unat_hash_mask)
  ultimately show ?thesis by (simp add: slot_def unat_hash_mask unat_word_ariths unat_of_nat_64)
qed

lemma slot_surj: "j \<le> unat RTLD_HASH_MASK \<Longrightarrow> \<exists>i \<le> unat RTLD_HASH_MASK. slot a i = j"
proof -
  assume j: "j \<le> unat RTLD_HASH_MASK"
  define h where "h = unat (RTLD_HASH a)"
  define i where "i = (j + (2 ^ 17 - h)) mod 2 ^ 17"
  have h: "h < 2 ^ 17" by (simp add: h_def RTLD_HASH_def unat_hash_mask)
  have "i < 2 ^ 17" by (simp add: i_def)
  then have "slot a i = (h + i) mod 2 ^ 17" using slot_mod[of i a] by (simp add: h_def)
  also have "\<dots> = (h + (j + (2 ^ 17 - h))) mod 2 ^ 17" unfolding i_def by (rule mod_add_right_eq)
  also have "\<dots> = (j + 2 ^ 17) mod 2 ^ 17" using h by simp
  also have "\<dots> = j" using j by (simp add: unat_RTLD_HASH_MASK)
  finally show ?thesis using \<open>i < 2 ^ 17\<close> by (intro exI[of _ i]) (simp add: unat_RTLD_HASH_MASK)
qed

lemma rtld_set_result:
  assumes "table_inv t"
  shows "fst (rtld_set t a e b s) =
    (if a = 0 then - EINVAL else if rtld_resolve t a \<noteq> None then - EEXIST
     else if \<forall>j \<le> unat RTLD_HASH_MASK. obj_addr (t j) \<noteq> 0 then - ENOSPC else 0)"
proof (cases "a = 0")
  case nz: False
  show ?thesis
  proof (cases "probe t a")
    case None
    then have "obj_addr (t j) \<noteq> 0" if "j \<le> unat RTLD_HASH_MASK" for j
      using slot_surj[OF that, of a] by (auto simp: probe_None)
    with None nz show ?thesis by (simp add: rtld_set_def set_loop_probe rtld_resolve_probe)
  next
    case (Some k)
    then have "obj_addr (t (slot a k)) \<in> {0, a}" by (simp add: probe_Some)
    with Some nz slot_le[of a k] show ?thesis
      by (auto simp: rtld_set_def set_loop_probe rtld_resolve_probe)
  qed
qed (simp add: rtld_set_def)

subsection \<open>Properties\<close>

text \<open>
  C2: The hash table behaves as a finite map with 2^17 slots. rtld_set reports a reserved key, an
  existing key and a full table by their errors and succeeds otherwise; a success adds exactly
  the one entry, an error changes nothing, as seen by rtld_resolve at every address; and the
  probing invariant is kept.
\<close>

theorem rtld_table_is_map:
  assumes "table_inv t"
  shows "let (r, t') = rtld_set t a e b s in
    r = (if a = 0 then - EINVAL else if rtld_resolve t a \<noteq> None then - EEXIST
         else if \<forall>j \<le> unat RTLD_HASH_MASK. obj_addr (t j) \<noteq> 0 then - ENOSPC else 0) \<and>
    (\<forall>x. rtld_resolve t' x = (if r = 0 \<and> x = a then Some e else rtld_resolve t x)) \<and>
    table_inv t'"
proof -
  obtain r t' where r: "rtld_set t a e b s = (r, t')" by (cases "rtld_set t a e b s")
  show ?thesis
  proof (cases "r = 0")
    case True
    with objects.set_ok[OF assms, of a e b s t'] rtld_set_result[OF assms, of a e b s] r show ?thesis by simp
  next
    case False
    with objects.set_error[OF assms r] rtld_set_result[OF assms, of a e b s] r assms show ?thesis by simp
  qed
qed

theorem rtld_table_is_map_witness:
  "let (r, t') = rtld_set no_objects 0x401000 0x7000 1 2 in
     (\<forall>x. rtld_resolve t' x = (if r = 0 \<and> x = 0x401000 then Some 0x7000 else None)) \<and> table_inv t'"
  using rtld_table_is_map[OF no_objects_inv, of "0x401000" "0x7000" 1 2]
  by (simp add: no_objects_resolve split: prod.splits)

text \<open>
  C24: An address that resolves keeps resolving to the same code, whatever is added to the table
  afterwards, including attempts to add the same address again.
\<close>

theorem rtld_entries_permanent:
  assumes "table_inv t" and "rtld_resolve t a = Some e"
  shows "rtld_resolve (foldl (\<lambda>t (x, v). snd (rtld_set t x v b s)) t xs) a = Some e"
  using objects.sets_inv_extend[OF assms(1), of b s xs] assms(2) by blast

theorem rtld_entries_permanent_witness:
  "rtld_resolve (foldl (\<lambda>t (x, v). snd (rtld_set t x v 1 2)) (snd (rtld_set no_objects 0x1000 0x7000 1 2))
     [(0x1000, 0x8000), (0x81000, 0x9000)]) 0x1000 = Some 0x7000"
proof -
  have "fst (rtld_set no_objects 0x1000 0x7000 1 2) = 0"
    using rtld_set_result[OF no_objects_inv, of "0x1000" "0x7000" 1 2] by (auto simp: no_objects_resolve no_objects_addr)
  then have "table_inv (snd (rtld_set no_objects 0x1000 0x7000 1 2))"
    "rtld_resolve (snd (rtld_set no_objects 0x1000 0x7000 1 2)) 0x1000 = Some 0x7000"
    using objects.set_ok[OF no_objects_inv, of "0x1000" "0x7000" 1 2] by (metis prod.collapse)+
  then show ?thesis by (rule rtld_entries_permanent)
qed

end
