(* ===== verification/Rtld_Reloc.thy ===== *)
theory Rtld_Reloc
  imports Memory Libc_Printf
begin

text \<open>
  Relocations, the procedure linkage table and the stubs of \<^verbatim>\<open>client/rtld.c\<close>. The x86-64 and the
  AArch64 branch of \<^verbatim>\<open>rtld_reloc_at\<close> are two definitions. The addresses of the client's own
  functions (the linker's business) are a parameter \<open>funcaddr\<close>. Diagnostics go through
  \<open>dprintf_w\<close>, whose buffer is at \<open>loc\<close>.
\<close>

unbundle bit_operations_syntax

subsection \<open>Patching a field\<close>

definition CHECK_SIGNED_BITS :: "u64 \<Rightarrow> nat \<Rightarrow> bool" where
  "CHECK_SIGNED_BITS val bits \<longleftrightarrow> sint val \<ge> - (2 ^ (bits - 1)) \<and> sint val < 2 ^ (bits - 1) - 1"

definition CHECK_UNSIGNED_BITS :: "u64 \<Rightarrow> nat \<Rightarrow> bool" where
  "CHECK_UNSIGNED_BITS val bits \<longleftrightarrow> val < 2 ^ bits - 1"

definition range_msg :: string where
  "range_msg = ''relocation offset out of range (%s): %lx'' @ [CHR 0x0A]"

definition rtld_elf_signed_range ::
  "'k sysfn \<Rightarrow> u64 \<Rightarrow> u64 \<Rightarrow> nat \<Rightarrow> string \<Rightarrow> 'k world \<Rightarrow> bool \<times> 'k world" where
  "rtld_elf_signed_range sys loc val bits relinfo w =
     (if \<not> CHECK_SIGNED_BITS val bits then (False, dprintf_w sys loc 2 range_msg [VStr relinfo, VInt val] w)
      else (True, w))"

definition rtld_elf_unsigned_range ::
  "'k sysfn \<Rightarrow> u64 \<Rightarrow> u64 \<Rightarrow> nat \<Rightarrow> string \<Rightarrow> 'k world \<Rightarrow> bool \<times> 'k world" where
  "rtld_elf_unsigned_range sys loc val bits relinfo w =
     (if \<not> CHECK_UNSIGNED_BITS val bits then (False, dprintf_w sys loc 2 range_msg [VStr relinfo, VInt val] w)
      else (True, w))"

definition rtld_blend :: "memory \<Rightarrow> u64 \<Rightarrow> u64 \<Rightarrow> u64 \<Rightarrow> memory" where
  "rtld_blend m tgt msk data =
     (if msk > 0xffffffff then store64 m tgt ((data AND msk) OR (load64 m tgt AND NOT msk))
      else if msk > 0xffff then store32 m tgt (ucast ((data AND msk) OR (ucast (load32 m tgt) AND NOT msk)))
      else if msk > 0xff then store16 m tgt (ucast ((data AND msk) OR (ucast (load16 m tgt) AND NOT msk)))
      else store8 m tgt (ucast ((data AND msk) OR (ucast (load8 m tgt) AND NOT msk))))"

definition blend_w :: "u64 \<Rightarrow> u64 \<Rightarrow> u64 \<Rightarrow> 'k world \<Rightarrow> 'k world" where
  "blend_w tgt msk data w = w\<lparr>mem := rtld_blend (mem w) tgt msk data\<rparr>"

subsection \<open>The procedure linkage table\<close>

record dispatcher_info =
  loop_func :: u64
  quick_dispatch_func :: u64
  full_dispatch_func :: u64
  patch_data_reg :: u8

text \<open>\<^verbatim>\<open>client/plt.inc\<close> on the x86-64 host: the symbol and the function it stands for.\<close>

definition plt_inc :: "(string \<times> string) list" where
  "plt_inc =
     [(''syscall'', ''emulate_syscall''), (''syscall_rv64'', ''emulate_rv64_syscall''),
      (''syscall_aarch64'', ''emulate_aarch64_syscall''), (''cpuid'', ''emulate_cpuid''),
      (''__divti3'', ''__divti3''), (''__udivti3'', ''__udivti3''), (''__modti3'', ''__modti3''),
      (''__umodti3'', ''__umodti3''), (''floorf'', ''floorf''), (''floor'', ''floor''), (''ceilf'', ''ceilf''),
      (''ceil'', ''ceil''), (''roundf'', ''roundf''), (''round'', ''round''), (''truncf'', ''truncf''),
      (''trunc'', ''trunc''), (''fmaf'', ''fmaf''), (''fma'', ''fma''),
      (''instrew_tail_cdecl'', ''dispatch_cdecl''), (''instrew_call_cdecl'', ''dispatch_cdecl''),
      (''instrew_tail_hhvm'', ''dispatch_hhvm_tail''), (''instrew_call_hhvm'', ''dispatch_hhvm_tail''),
      (''memset'', ''memset''), (''dprintf'', ''dprintf'')]"

definition plt_entries :: "(string \<Rightarrow> u64) \<Rightarrow> (string \<times> u64) list" where
  "plt_entries funcaddr =
     (''instrew_quick_dispatch'', 0) # (''instrew_full_dispatch'', 0) #
     map (\<lambda>(name, func). (name, funcaddr func)) plt_inc"

abbreviation (input) PLT_FUNC_SIZE :: u64 where "PLT_FUNC_SIZE \<equiv> 8"

text \<open>
  The array \<^verbatim>\<open>plt\<close> is built as 64-bit words: with 8 bytes per entry, \<^verbatim>\<open>code_ptr\<close> of entry \<open>i\<close> is
  word \<open>i\<close>. The array is not initialised in C; its initial words are the argument \<open>plt0\<close>.
\<close>

fun plt_fill :: "dispatcher_info \<Rightarrow> (string \<times> u64) list \<Rightarrow> nat \<Rightarrow> u64 list \<Rightarrow> nat \<Rightarrow> u64 list" where
  "plt_fill disp entries data_offset plt 0 = plt"
| "plt_fill disp entries data_offset plt (Suc n) =
     (let i = length entries - Suc n;
          offset = of_nat (data_offset + 8 * i) - of_nat (8 * i);
          data = (if i = 0 then quick_dispatch_func disp
                  else if i = 1 then full_dispatch_func disp else snd (entries ! i))
      in plt_fill disp entries data_offset
           (plt[data_offset div 8 + i := data, i := 0x0b0f0000000025ff OR push_bit 16 (offset - 6)]) n)"

definition plt_create ::
  "'k sysfn \<Rightarrow> dispatcher_info \<Rightarrow> (string \<Rightarrow> u64) \<Rightarrow> u64 list \<Rightarrow> arenas \<Rightarrow> 'k world \<Rightarrow>
   int \<times> u64 option \<times> arenas \<times> 'k world" where
  "plt_create sys disp funcaddr plt0 g w =
     (let entries = plt_entries funcaddr;
          code_size = length entries * 8;
          data_offset = unat (ALIGN_UP (of_nat code_size) 0x40 :: u64);
          data_size = length entries * 8;
          plt_words = (data_offset + data_size + 7) div 8;
          plt = plt_fill disp entries data_offset (take plt_words plt0) (length entries)
      in
      case mem_alloc_code sys g (of_nat (8 * plt_words)) 0x40 w of
        (pltcode, g1, w1) \<Rightarrow>
          if BAD_ADDR pltcode then (c_int pltcode, None, g1, w1)
          else
            case mem_write_code pltcode (concat (map (le_bytes 8) plt)) w1 of
              (ret, w2) \<Rightarrow> if ret < 0 then (ret, None, g1, w2) else (0, Some pltcode, g1, w2))"

subsection \<open>Patch data and stubs\<close>

record rtld_patch_data =
  sym_addr :: u64
  rel_type :: u32
  rel_size :: u32
  addend :: u64
  patch_addr :: u64

definition patch_data_bytes :: "rtld_patch_data \<Rightarrow> u8 list" where
  "patch_data_bytes pd =
     le_bytes 8 (sym_addr pd) @ le_bytes 4 (rel_type pd) @ le_bytes 4 (rel_size pd) @
     le_bytes 8 (addend pd) @ le_bytes 8 (patch_addr pd)"

definition load_patch_data :: "memory \<Rightarrow> u64 \<Rightarrow> rtld_patch_data" where
  "load_patch_data m a = \<lparr>sym_addr = load64 m a, rel_type = load32 m (a + 8), rel_size = load32 m (a + 12),
     addend = load64 m (a + 16), patch_addr = load64 m (a + 24)\<rparr>"

definition stub_code :: "u64 \<Rightarrow> u64 \<Rightarrow> u8 \<Rightarrow> rtld_patch_data \<Rightarrow> u8 list" where
  "stub_code plt stub pdr pd =
     (let jmptgt = plt + 1 * PLT_FUNC_SIZE; jmptgtdiff = jmptgt - stub in
      [0x48 + (if pdr \<ge> 8 then 4 else 0), 0x8d, 5 + push_bit 3 (pdr AND 7), 9, 0, 0, 0, 0xe9] @
      le_bytes 4 (ucast (jmptgtdiff - 12) :: u32) @ le_bytes 4 (0x0b0f0b0f :: u32) @ patch_data_bytes pd)"

definition rtld_patch_create_stub ::
  "'k sysfn \<Rightarrow> u64 \<Rightarrow> dispatcher_info \<Rightarrow> rtld_patch_data \<Rightarrow> arenas \<Rightarrow> 'k world \<Rightarrow>
   int \<times> u64 option \<times> arenas \<times> 'k world" where
  "rtld_patch_create_stub sys plt disp pd g w =
     (case mem_alloc_code sys g 48 0x40 w of
        (stub, g1, w1) \<Rightarrow>
          if BAD_ADDR stub then (c_int stub, None, g1, w1)
          else
            case mem_write_code stub (stub_code plt stub (patch_data_reg disp) pd) w1 of
              (ret, w2) \<Rightarrow> if ret < 0 then (ret, None, g1, w2) else (0, Some stub, g1, w2))"

definition stub_words :: "u64 \<Rightarrow> u32 list" where
  "stub_words symv =
     [0xd2800010 OR ucast (push_bit 5 (drop_bit 0 symv AND 0xffff)),
      0xf2a00010 OR ucast (push_bit 5 (drop_bit 16 symv AND 0xffff)),
      0xf2c00010 OR ucast (push_bit 5 (drop_bit 32 symv AND 0xffff)),
      0xf2e00010 OR ucast (push_bit 5 (drop_bit 48 symv AND 0xffff)),
      0xd61f0200]"

definition rtld_elf_add_stub ::
  "'k sysfn \<Rightarrow> u64 \<Rightarrow> arenas \<Rightarrow> 'k world \<Rightarrow> int \<times> u64 option \<times> arenas \<times> 'k world" where
  "rtld_elf_add_stub sys symv g w =
     (case mem_alloc_code sys g 20 0x40 w of
        (stub, g1, w1) \<Rightarrow>
          if BAD_ADDR stub then (c_int stub, None, g1, w1)
          else
            case mem_write_code stub (concat (map (le_bytes 4) (stub_words symv))) w1 of
              (ret, w2) \<Rightarrow> if ret < 0 then (ret, None, g1, w2) else (0, Some stub, g1, w2))"


subsection \<open>Relocations\<close>

abbreviation (input) R_X86_64_64 :: u32 where "R_X86_64_64 \<equiv> 1"
abbreviation (input) R_X86_64_PC32 :: u32 where "R_X86_64_PC32 \<equiv> 2"
abbreviation (input) R_X86_64_PLT32 :: u32 where "R_X86_64_PLT32 \<equiv> 4"
abbreviation (input) R_X86_64_32 :: u32 where "R_X86_64_32 \<equiv> 10"
abbreviation (input) R_X86_64_32S :: u32 where "R_X86_64_32S \<equiv> 11"
abbreviation (input) R_X86_64_PC64 :: u32 where "R_X86_64_PC64 \<equiv> 24"

definition unhandled_reloc :: "'k sysfn \<Rightarrow> u64 \<Rightarrow> u32 \<Rightarrow> 'k world \<Rightarrow> int \<times> 'k world" where
  "unhandled_reloc sys loc ty w =
     (- EINVAL, dprintf_w sys loc 2 (''unhandled relocation %u'' @ [CHR 0x0A]) [VInt (ucast ty)] w)"

text \<open>A relocation with a range check: the check, then the field.\<close>

definition checked_blend ::
  "('k world \<Rightarrow> bool \<times> 'k world) \<Rightarrow> u64 \<Rightarrow> u64 \<Rightarrow> u64 \<Rightarrow> 'k world \<Rightarrow> int \<times> 'k world" where
  "checked_blend check tgt msk data w =
     (case check w of (ok, w1) \<Rightarrow> if \<not> ok then (- EINVAL, w1) else (0, blend_w tgt msk data w1))"

definition rtld_reloc_at_x86_64 ::
  "'k sysfn \<Rightarrow> u64 \<Rightarrow> rtld_patch_data \<Rightarrow> u64 \<Rightarrow> u64 \<Rightarrow> 'k world \<Rightarrow> int \<times> 'k world" where
  "rtld_reloc_at_x86_64 sys loc pd tgt symv w =
     (let syma = symv + addend pd; pc = patch_addr pd; prel_syma = syma - pc; ty = rel_type pd in
      if ty = R_X86_64_PC64 then (0, blend_w tgt 0xffffffffffffffff prel_syma w)
      else if ty = R_X86_64_64 then (0, blend_w tgt 0xffffffffffffffff syma w)
      else if ty = R_X86_64_PC32 then
        checked_blend (rtld_elf_signed_range sys loc prel_syma 32 ''R_X86_64_PC32'') tgt 0xffffffff prel_syma w
      else if ty = R_X86_64_PLT32 then
        checked_blend (rtld_elf_signed_range sys loc prel_syma 32 ''R_X86_64_PLT32'') tgt 0xffffffff prel_syma w
      else if ty = R_X86_64_32S then
        checked_blend (rtld_elf_signed_range sys loc syma 32 ''R_X86_64_32S'') tgt 0xffffffff syma w
      else if ty = R_X86_64_32 then
        checked_blend (rtld_elf_unsigned_range sys loc syma 32 ''R_X86_64_32S'') tgt 0xffffffff syma w
      else unhandled_reloc sys loc ty w)"

abbreviation (input) R_AARCH64_PREL64 :: u32 where "R_AARCH64_PREL64 \<equiv> 260"
abbreviation (input) R_AARCH64_PREL32 :: u32 where "R_AARCH64_PREL32 \<equiv> 261"
abbreviation (input) R_AARCH64_MOVW_UABS_G0_NC :: u32 where "R_AARCH64_MOVW_UABS_G0_NC \<equiv> 264"
abbreviation (input) R_AARCH64_MOVW_UABS_G1_NC :: u32 where "R_AARCH64_MOVW_UABS_G1_NC \<equiv> 266"
abbreviation (input) R_AARCH64_MOVW_UABS_G2_NC :: u32 where "R_AARCH64_MOVW_UABS_G2_NC \<equiv> 268"
abbreviation (input) R_AARCH64_MOVW_UABS_G3 :: u32 where "R_AARCH64_MOVW_UABS_G3 \<equiv> 269"
abbreviation (input) R_AARCH64_ADR_PREL_PG_HI21 :: u32 where "R_AARCH64_ADR_PREL_PG_HI21 \<equiv> 275"
abbreviation (input) R_AARCH64_ADD_ABS_LO12_NC :: u32 where "R_AARCH64_ADD_ABS_LO12_NC \<equiv> 277"
abbreviation (input) R_AARCH64_LDST8_ABS_LO12_NC :: u32 where "R_AARCH64_LDST8_ABS_LO12_NC \<equiv> 278"
abbreviation (input) R_AARCH64_JUMP26 :: u32 where "R_AARCH64_JUMP26 \<equiv> 282"
abbreviation (input) R_AARCH64_CALL26 :: u32 where "R_AARCH64_CALL26 \<equiv> 283"
abbreviation (input) R_AARCH64_LDST16_ABS_LO12_NC :: u32 where "R_AARCH64_LDST16_ABS_LO12_NC \<equiv> 284"
abbreviation (input) R_AARCH64_LDST32_ABS_LO12_NC :: u32 where "R_AARCH64_LDST32_ABS_LO12_NC \<equiv> 285"
abbreviation (input) R_AARCH64_LDST64_ABS_LO12_NC :: u32 where "R_AARCH64_LDST64_ABS_LO12_NC \<equiv> 286"
abbreviation (input) R_AARCH64_LDST128_ABS_LO12_NC :: u32 where "R_AARCH64_LDST128_ABS_LO12_NC \<equiv> 299"

text \<open>\<open>asr\<close> is \<^verbatim>\<open>>>\<close> on a signed 64-bit value.\<close>

definition asr :: "u64 \<Rightarrow> nat \<Rightarrow> u64" where
  "asr v n = word_of_int (drop_bit n (sint v))"

text \<open>The branch relocations, which may need a stub in reach of the branch.\<close>

definition rtld_reloc_branch26 ::
  "'k sysfn \<Rightarrow> u64 \<Rightarrow> u64 \<Rightarrow> u64 \<Rightarrow> u64 \<Rightarrow> arenas \<Rightarrow> 'k world \<Rightarrow> int \<times> arenas \<times> 'k world" where
  "rtld_reloc_branch26 sys loc syma pc tgt g w =
     (case (if \<not> CHECK_SIGNED_BITS (syma - pc) 28 then
              (case rtld_elf_add_stub sys syma g w of
                 (ret, stub, g1, w1) \<Rightarrow> (ret, (case stub of None \<Rightarrow> 0 | Some s \<Rightarrow> s) - pc, g1, w1))
            else (0, syma - pc, g, w)) of
        (ret, prel_syma, g1, w1) \<Rightarrow>
          if ret < 0 then (ret, g1, w1)
          else
            case checked_blend (rtld_elf_signed_range sys loc prel_syma 28 ''R_AARCH64_JUMP26'') tgt
                   0x03ffffff (asr prel_syma 2) w1 of
              (r, w2) \<Rightarrow> (r, g1, w2))"

definition adrp_field :: "u64 \<Rightarrow> u64" where
  "adrp_field p = push_bit 29 (p AND 3) OR push_bit 5 (asr p 2 AND 0x7ffff)"

definition rtld_reloc_at_aarch64 ::
  "'k sysfn \<Rightarrow> u64 \<Rightarrow> rtld_patch_data \<Rightarrow> u64 \<Rightarrow> u64 \<Rightarrow> arenas \<Rightarrow> 'k world \<Rightarrow> int \<times> arenas \<times> 'k world" where
  "rtld_reloc_at_aarch64 sys loc pd tgt symv g w =
     (let syma = symv + addend pd; pc = patch_addr pd; prel_syma = syma - pc; ty = rel_type pd;
          put = (\<lambda>msk data. (0, g, blend_w tgt msk data w))
      in
      if ty = R_AARCH64_PREL64 then put 0xffffffffffffffff prel_syma
      else if ty = R_AARCH64_PREL32 then
        (case checked_blend (rtld_elf_signed_range sys loc prel_syma 32 ''R_AARCH64_PREL32'') tgt
                0xffffffff prel_syma w of (r, w1) \<Rightarrow> (r, g, w1))
      else if ty = R_AARCH64_JUMP26 \<or> ty = R_AARCH64_CALL26 then
        rtld_reloc_branch26 sys loc syma pc tgt g w
      else if ty = R_AARCH64_ADR_PREL_PG_HI21 then
        (let p = asr (ALIGN_DOWN syma 0x1000 - ALIGN_DOWN pc 0x1000) 12 in
         case checked_blend (rtld_elf_signed_range sys loc p 21 ''R_AARCH64_PG_HI21'') tgt
                0x60ffffe0 (adrp_field p) w of (r, w1) \<Rightarrow> (r, g, w1))
      else if ty = R_AARCH64_ADD_ABS_LO12_NC then put (push_bit 10 0xfff) (push_bit 10 syma)
      else if ty = R_AARCH64_LDST8_ABS_LO12_NC then put (push_bit 10 0xfff) (push_bit 10 syma)
      else if ty = R_AARCH64_LDST16_ABS_LO12_NC then
        put (push_bit 10 (drop_bit 1 0xfff)) (push_bit 10 (drop_bit 1 syma))
      else if ty = R_AARCH64_LDST32_ABS_LO12_NC then
        put (push_bit 10 (drop_bit 2 0xfff)) (push_bit 10 (drop_bit 2 syma))
      else if ty = R_AARCH64_LDST64_ABS_LO12_NC then
        put (push_bit 10 (drop_bit 3 0xfff)) (push_bit 10 (drop_bit 3 syma))
      else if ty = R_AARCH64_LDST128_ABS_LO12_NC then
        put (push_bit 10 (drop_bit 4 0xfff)) (push_bit 10 (drop_bit 4 syma))
      else if ty = R_AARCH64_MOVW_UABS_G0_NC then put (push_bit 5 0xffff) (push_bit 5 (drop_bit 0 syma))
      else if ty = R_AARCH64_MOVW_UABS_G1_NC then put (push_bit 5 0xffff) (push_bit 5 (drop_bit 16 syma))
      else if ty = R_AARCH64_MOVW_UABS_G2_NC then put (push_bit 5 0xffff) (push_bit 5 (drop_bit 32 syma))
      else if ty = R_AARCH64_MOVW_UABS_G3 then put (push_bit 5 0xffff) (push_bit 5 (drop_bit 48 syma))
      else (case unhandled_reloc sys loc ty w of (r, w1) \<Rightarrow> (r, g, w1)))"

text \<open>
  \<^verbatim>\<open>rtld_patch\<close> relocates a copy of the code in a local buffer at \<open>loc\<close> and writes it back; the
  diagnostics of the relocation use memory behind that buffer.
\<close>

definition rtld_patch :: "'k sysfn \<Rightarrow> u64 \<Rightarrow> u64 \<Rightarrow> u64 \<Rightarrow> 'k world \<Rightarrow> 'k world" where
  "rtld_patch sys loc pdp symv w =
     (if pdp = 0 then w
      else
        let pd = load_patch_data (mem w) pdp; n = unat (rel_size pd) in
        if n > 8 then w
        else
          let w1 = w\<lparr>mem := write_bytes (mem w) loc (read_bytes (mem w) (patch_addr pd) n)\<rparr> in
          case rtld_reloc_at_x86_64 sys (loc + 8) pd loc symv w1 of
            (_, w2) \<Rightarrow> snd (mem_write_code (patch_addr pd) (read_bytes (mem w2) loc n) w2))"

subsection \<open>What a patched field holds\<close>

lemma store32_outside: "a \<notin> range_at t 4 \<Longrightarrow> store32 m t v a = m a"
  by (simp add: store32_def write_bytes_outside)

lemma store64_outside: "a \<notin> range_at t 8 \<Longrightarrow> store64 m t v a = m a"
  by (simp add: store64_def write_bytes_outside)

lemma range_at_mono: "n \<le> k \<Longrightarrow> a \<in> range_at t n \<Longrightarrow> a \<in> range_at t k"
  by (simp add: range_at_def)

lemma blend64:
  "load64 (rtld_blend m t 0xffffffffffffffff d) t = d"
  "a \<notin> range_at t 8 \<Longrightarrow> rtld_blend m t 0xffffffffffffffff d a = m a"
proof -
  have "(0xffffffffffffffff :: u64) = - 1" by simp
  then have e: "d AND 0xffffffffffffffff OR (x AND NOT 0xffffffffffffffff) = d" for d x :: u64
    by (simp only: and.right_neutral bit.compl_one) simp
  show "load64 (rtld_blend m t 0xffffffffffffffff d) t = d"
    unfolding rtld_blend_def e by (simp add: load_store64)
  show "a \<notin> range_at t 8 \<Longrightarrow> rtld_blend m t 0xffffffffffffffff d a = m a"
    by (simp add: rtld_blend_def store64_outside)
qed

lemma blend32:
  assumes "0xffff < msk" and "msk \<le> 0xffffffff"
  shows "load32 (rtld_blend m t msk d) t = (ucast d AND ucast msk) OR (load32 m t AND NOT (ucast msk))"
    and "a \<notin> range_at t 4 \<Longrightarrow> rtld_blend m t msk d a = m a"
proof -
  have "(ucast ((d AND msk) OR (ucast (load32 m t) AND NOT msk)) :: u32) =
      (ucast d AND ucast msk) OR (load32 m t AND NOT (ucast msk))"
    by (rule bit_word_eqI) (auto simp: bit_simps)
  with assms show "load32 (rtld_blend m t msk d) t = (ucast d AND ucast msk) OR (load32 m t AND NOT (ucast msk))"
    by (auto simp: rtld_blend_def load_store32)
  show "a \<notin> range_at t 4 \<Longrightarrow> rtld_blend m t msk d a = m a"
    using assms by (auto simp: rtld_blend_def store32_outside)
qed

lemma blend32_full: "load32 (rtld_blend m t 0xffffffff d) t = ucast d"
proof -
  have "(ucast (0xffffffff :: u64) :: u32) = - 1" by simp
  then show ?thesis
    using blend32(1)[of "0xffffffff" m t d] by (simp only: and.right_neutral bit.compl_one) simp
qed

lemma blend32_outside: "a \<notin> range_at t 4 \<Longrightarrow> rtld_blend m t 0xffffffff d a = m a"
  by (rule blend32(2)) simp_all

lemma scast_ucast_32:
  assumes "- (2 ^ 31) \<le> sint v" and "sint v < 2 ^ 31"
  shows "scast (ucast (v :: u64) :: u32) = v"
proof -
  have "(ucast v :: u32) = scast v" by (rule bit_word_eqI) (simp add: bit_simps)
  also have "\<dots> = word_of_int (sint v)" by (rule scast_eq)
  finally have "sint (ucast v :: u32) = sint (word_of_int (sint v) :: u32)" by (simp only:)
  also have "\<dots> = signed_take_bit 31 (sint v)"
    using sint_sbintrunc'[of "sint v", where 'a = 32] by (simp only: len_num1 len_bit0) simp
  also have "\<dots> = sint v" using assms by (intro signed_take_bit_int_eq_self) auto
  finally have "word_of_int (sint (ucast v :: u32)) = (word_of_int (sint v) :: u64)" by (simp only:)
  then show ?thesis by (simp only: scast_eq[symmetric] scast_id)
qed

lemma ucast_ucast_32: "v < 2 ^ 32 \<Longrightarrow> ucast (ucast (v :: u64) :: u32) = v"
proof -
  assume "v < 2 ^ 32"
  then have "drop_bit 32 v = 0" by (simp add: drop_bit_eq_div div_word_less)
  then have "take_bit 32 v = v" by (simp add: take_bit_eq_self_iff_drop_bit_eq_0)
  moreover have "ucast (ucast v :: u32) = take_bit 32 v" by (rule bit_word_eqI) (auto simp: bit_simps)
  ultimately show ?thesis by simp
qed

lemma checked_blend_signed:
  "checked_blend (rtld_elf_signed_range sys loc v bits info) tgt msk d w =
     (if CHECK_SIGNED_BITS v bits then (0, blend_w tgt msk d w)
      else (- EINVAL, dprintf_w sys loc 2 range_msg [VStr info, VInt v] w))"
  by (simp add: checked_blend_def rtld_elf_signed_range_def)

lemma checked_blend_unsigned:
  "checked_blend (rtld_elf_unsigned_range sys loc v bits info) tgt msk d w =
     (if CHECK_UNSIGNED_BITS v bits then (0, blend_w tgt msk d w)
      else (- EINVAL, dprintf_w sys loc 2 range_msg [VStr info, VInt v] w))"
  by (simp add: checked_blend_def rtld_elf_unsigned_range_def)

text \<open>The address the processor computes from a relocated x86-64 field.\<close>

definition denoted :: "u32 \<Rightarrow> memory \<Rightarrow> u64 \<Rightarrow> u64 \<Rightarrow> u64" where
  "denoted ty m tgt pc =
     (if ty = R_X86_64_PC64 then load64 m tgt + pc
      else if ty = R_X86_64_64 then load64 m tgt
      else if ty = R_X86_64_PC32 \<or> ty = R_X86_64_PLT32 then scast (load32 m tgt) + pc
      else if ty = R_X86_64_32S then scast (load32 m tgt)
      else ucast (load32 m tgt))"

text \<open>
  The bytes of the field, the values it can hold, and the values the code accepts. The largest value that a
  32-bit field can hold is rejected.
\<close>

definition field_size :: "u32 \<Rightarrow> nat" where
  "field_size ty = (if ty = R_X86_64_PC64 \<or> ty = R_X86_64_64 then 8 else 4)"

definition representable :: "u32 \<Rightarrow> u64 \<Rightarrow> u64 \<Rightarrow> bool" where
  "representable ty syma pc \<longleftrightarrow>
     ty = R_X86_64_PC64 \<or> ty = R_X86_64_64 \<or>
     (ty = R_X86_64_PC32 \<or> ty = R_X86_64_PLT32) \<and> sint (syma - pc) \<in> {- (2 ^ 31)..<2 ^ 31} \<or>
     ty = R_X86_64_32S \<and> sint syma \<in> {- (2 ^ 31)..<2 ^ 31} \<or>
     ty = R_X86_64_32 \<and> uint syma < 2 ^ 32"

definition largest_value :: "u32 \<Rightarrow> u64 \<Rightarrow> u64 \<Rightarrow> bool" where
  "largest_value ty syma pc \<longleftrightarrow>
     (ty = R_X86_64_PC32 \<or> ty = R_X86_64_PLT32) \<and> sint (syma - pc) = 2 ^ 31 - 1 \<or>
     ty = R_X86_64_32S \<and> sint syma = 2 ^ 31 - 1 \<or> ty = R_X86_64_32 \<and> uint syma = 2 ^ 32 - 1"

definition in_range :: "u32 \<Rightarrow> u64 \<Rightarrow> u64 \<Rightarrow> bool" where
  "in_range ty syma pc \<longleftrightarrow> representable ty syma pc \<and> \<not> largest_value ty syma pc"

lemma check_signed_32: "CHECK_SIGNED_BITS v 32 \<longleftrightarrow> sint v \<in> {- (2 ^ 31)..<2 ^ 31} \<and> sint v \<noteq> 2 ^ 31 - 1"
  by (auto simp: CHECK_SIGNED_BITS_def)

lemma check_unsigned_32: "CHECK_UNSIGNED_BITS v 32 \<longleftrightarrow> uint v < 2 ^ 32 \<and> uint v \<noteq> 2 ^ 32 - 1"
  by (auto simp: CHECK_UNSIGNED_BITS_def word_less_def)

lemma in_range_check:
  "in_range ty syma pc =
     (if ty = R_X86_64_PC64 \<or> ty = R_X86_64_64 then True
      else if ty = R_X86_64_PC32 \<or> ty = R_X86_64_PLT32 then CHECK_SIGNED_BITS (syma - pc) 32
      else if ty = R_X86_64_32S then CHECK_SIGNED_BITS syma 32
      else ty = R_X86_64_32 \<and> CHECK_UNSIGNED_BITS syma 32)"
  unfolding check_signed_32 check_unsigned_32 in_range_def representable_def largest_value_def
  by (cases "ty = R_X86_64_PC64"; cases "ty = R_X86_64_64"; cases "ty = R_X86_64_PC32"; cases "ty = R_X86_64_PLT32";
      cases "ty = R_X86_64_32S") (simp_all, argo?)

lemma CHECK_SIGNED_scast: "CHECK_SIGNED_BITS v 32 \<Longrightarrow> scast (ucast v :: u32) = v"
  by (intro scast_ucast_32) (auto simp: CHECK_SIGNED_BITS_def)

lemma CHECK_UNSIGNED_ucast: "CHECK_UNSIGNED_BITS v 32 \<Longrightarrow> ucast (ucast v :: u32) = v"
  using less_trans[of v "2 ^ 32 - 1" "2 ^ 32"] by (intro ucast_ucast_32) (simp add: CHECK_UNSIGNED_BITS_def)

lemmas reloc_simps = rtld_reloc_at_x86_64_def Let_def denoted_def field_size_def blend_w_def
  checked_blend_signed checked_blend_unsigned

lemma reloc_denotes:
  assumes "in_range (rel_type pd) (s + addend pd) (patch_addr pd)"
  shows "case rtld_reloc_at_x86_64 sys loc pd tgt s w of (r, w') \<Rightarrow>
    r = 0 \<and> kern w' = kern w \<and> pagesize w' = pagesize w \<and>
    denoted (rel_type pd) (mem w') tgt (patch_addr pd) = s + addend pd \<and>
    (\<forall>a. a \<notin> range_at tgt (field_size (rel_type pd)) \<longrightarrow> mem w' a = mem w a)"
proof -
  consider "rel_type pd = R_X86_64_PC64" | "rel_type pd = R_X86_64_64"
    | "rel_type pd = R_X86_64_PC32" | "rel_type pd = R_X86_64_PLT32"
    | "rel_type pd = R_X86_64_32S" | "rel_type pd = R_X86_64_32"
    using assms unfolding in_range_check by argo
  then show ?thesis
  proof cases
    case 1
    then show ?thesis by (simp add: reloc_simps blend64)
  next
    case 2
    then show ?thesis by (simp add: reloc_simps blend64)
  next
    case 3
    then have "CHECK_SIGNED_BITS (s + addend pd - patch_addr pd) 32" using assms by (simp add: in_range_check)
    with 3 show ?thesis by (simp add: reloc_simps blend32_full blend32_outside CHECK_SIGNED_scast)
  next
    case 4
    then have "CHECK_SIGNED_BITS (s + addend pd - patch_addr pd) 32" using assms by (simp add: in_range_check)
    with 4 show ?thesis by (simp add: reloc_simps blend32_full blend32_outside CHECK_SIGNED_scast)
  next
    case 5
    then have "CHECK_SIGNED_BITS (s + addend pd) 32" using assms by (simp add: in_range_check)
    with 5 show ?thesis by (simp add: reloc_simps blend32_full blend32_outside CHECK_SIGNED_scast)
  next
    case 6
    then have "CHECK_UNSIGNED_BITS (s + addend pd) 32" using assms by (simp add: in_range_check)
    with 6 show ?thesis by (simp add: reloc_simps blend32_full blend32_outside CHECK_UNSIGNED_ucast)
  qed
qed

lemma reloc_rejects:
  assumes "\<not> in_range (rel_type pd) (s + addend pd) (patch_addr pd)"
  shows "\<exists>msg args. rtld_reloc_at_x86_64 sys loc pd tgt s w = (- EINVAL, dprintf_w sys loc 2 msg args w)"
  using assms unfolding in_range_check
  by (cases "rel_type pd = R_X86_64_PC32"; cases "rel_type pd = R_X86_64_PLT32"; cases "rel_type pd = R_X86_64_32")
    (auto simp: reloc_simps unhandled_reloc_def split: if_splits)

text \<open>
  C4: A relocation that rtld_reloc_at performs makes the field denote the symbol plus the addend:
  the 64-bit value, the 32-bit absolute value sign- or zero-extended, or the PC-relative
  displacement added to the patched address. It changes no byte but those of the field, which are
  8 or 4 according to the type. It performs every relocation of a type it knows whose value the
  field can hold, except for the largest value of a 32-bit field; any other relocation is rejected
  with -EINVAL and a message, and nothing else happens.
\<close>

theorem rtld_reloc_x86_correct:
  "case rtld_reloc_at_x86_64 sys loc pd tgt s w of (r, w') \<Rightarrow>
     if representable (rel_type pd) (s + addend pd) (patch_addr pd) \<and>
        \<not> largest_value (rel_type pd) (s + addend pd) (patch_addr pd) then
       r = 0 \<and> denoted (rel_type pd) (mem w') tgt (patch_addr pd) = s + addend pd \<and>
       kern w' = kern w \<and> {a. mem w' a \<noteq> mem w a} \<subseteq> range_at tgt (field_size (rel_type pd))
     else r = - EINVAL \<and> (\<exists>msg args. w' = dprintf_w sys loc 2 msg args w)"
  using reloc_denotes[where pd = pd and s = s and sys = sys and loc = loc and tgt = tgt and w = w]
    reloc_rejects[where pd = pd and s = s and sys = sys and loc = loc and tgt = tgt and w = w]
  by (cases "rtld_reloc_at_x86_64 sys loc pd tgt s w") (auto simp: in_range_def)

subsection \<open>The table of jumps\<close>

lemma load64_words:
  assumes "i < length ws" and "8 * length ws < 2 ^ 64"
  shows "load64 (write_bytes m a (concat (map (le_bytes 8) ws))) (a + of_nat (8 * i)) = ws ! i"
proof -
  let ?bs = "concat (map (le_bytes 8) ws)"
  have len: "length (concat (map (le_bytes 8) xs)) = 8 * length xs" for xs :: "u64 list"
    by (induction xs) auto
  have split: "?bs = concat (map (le_bytes 8) (take i ws)) @ le_bytes 8 (ws ! i) @
      concat (map (le_bytes 8) (drop (Suc i) ws))"
    using id_take_nth_drop[OF assms(1)] by (metis concat_append list.simps(9) map_append concat.simps(2))
  have "read_bytes (write_bytes m a ?bs) a (length ?bs) = ?bs"
    using assms(2) by (intro read_write_bytes) (simp add: len)
  moreover have "length ?bs = 8 * i + (8 + 8 * (length ws - Suc i))" using assms(1) by (simp add: len)
  ultimately have "read_bytes (write_bytes m a ?bs) a (8 * i) @
      read_bytes (write_bytes m a ?bs) (a + of_nat (8 * i)) 8 @
      read_bytes (write_bytes m a ?bs) (a + of_nat (8 * i) + of_nat 8) (8 * (length ws - Suc i)) = ?bs"
    by (simp only: read_bytes_append)
  then have "read_bytes (write_bytes m a ?bs) (a + of_nat (8 * i)) 8 = le_bytes 8 (ws ! i)"
    using assms(1) unfolding split
    by (subst (asm) append_eq_append_conv) (auto simp: len append_eq_append_conv simp del: le_bytes.simps)
  then show ?thesis
    by (simp add: load64_def le_word_le_bytes del: le_bytes.simps le_word.simps read_bytes.simps)
qed

definition plt_data :: "dispatcher_info \<Rightarrow> (string \<times> u64) list \<Rightarrow> nat \<Rightarrow> u64" where
  "plt_data disp entries i =
     (if i = 0 then quick_dispatch_func disp else if i = 1 then full_dispatch_func disp else snd (entries ! i))"

abbreviation (input) plt_jump :: u64 where "plt_jump \<equiv> 0x0b0f000000fa25ff"

lemma plt_fill_words:
  assumes "n \<le> length entries" and "length entries \<le> 32" and "32 + length entries \<le> length plt"
  shows "length (plt_fill disp entries 256 plt n) = length plt \<and>
    (\<forall>i < length entries.
       (length entries - n \<le> i \<longrightarrow>
          plt_fill disp entries 256 plt n ! i = plt_jump \<and>
          plt_fill disp entries 256 plt n ! (32 + i) = plt_data disp entries i) \<and>
       (i < length entries - n \<longrightarrow>
          plt_fill disp entries 256 plt n ! i = plt ! i \<and>
          plt_fill disp entries 256 plt n ! (32 + i) = plt ! (32 + i)))"
  using assms(1,3)
proof (induction n arbitrary: plt)
  case (Suc n)
  define k where "k = length entries - Suc n"
  define plt' where "plt' = plt[32 + k := plt_data disp entries k, k := plt_jump]"
  have k: "k < length entries" "length entries - n = Suc k" using Suc.prems by (auto simp: k_def)
  have step: "plt_fill disp entries 256 plt (Suc n) = plt_fill disp entries 256 plt' n"
    by (simp add: Let_def k_def[symmetric] plt_data_def plt'_def)
  have "n \<le> length entries" "32 + length entries \<le> length plt'" using Suc.prems by (simp_all add: plt'_def)
  note IH = Suc.IH[OF this]
  have "plt' ! k = plt_jump" "plt' ! (32 + k) = plt_data disp entries k"
    using k Suc.prems assms(2) by (simp_all add: plt'_def)
  moreover have "plt' ! i = plt ! i" "plt' ! (32 + i) = plt ! (32 + i)" if "i < k" for i
    using that k assms(2) by (simp_all add: plt'_def)
  ultimately show ?case
    using IH k unfolding step by (auto simp: plt'_def k_def[symmetric] le_Suc_eq less_Suc_eq not_le)
qed simp

lemma plt_count: "length (plt_entries funcaddr) = 26"
  by (simp add: plt_entries_def plt_inc_def)

lemma read_write_slice:
  assumes "length (xs @ ys @ zs) < 2 ^ 64" and "of_nat (length xs) = d" and "length ys = n"
  shows "read_bytes (write_bytes m a (xs @ ys @ zs)) (a + d) n = ys"
proof -
  let ?m = "write_bytes m a (xs @ ys @ zs)"
  have "read_bytes ?m a (length (xs @ ys @ zs)) = xs @ ys @ zs" by (rule read_write_bytes[OF assms(1)])
  then have "read_bytes ?m a (length xs) @ read_bytes ?m (a + of_nat (length xs)) (length ys) @
      read_bytes ?m (a + of_nat (length xs) + of_nat (length ys)) (length zs) = xs @ ys @ zs"
    by (simp only: length_append read_bytes_append)
  then show ?thesis using assms(2,3) by simp
qed

text \<open>
  C25: Every entry of the linkage table is a jump through its own data slot: the instruction word is
  "jmp [rip + disp32]" (ff 25) and the address it reads its target from holds the dispatcher for
  the first two entries and the entry's function for the others.
\<close>

theorem plt_create_jumps:
  assumes "plt_create sys disp funcaddr plt0 g w = (r, Some p, g', w')"
    and "58 \<le> length plt0" and "i < length (plt_entries funcaddr)"
  shows "let c = p + of_nat (8 * i); ins = load64 (mem w') c in
    r = 0 \<and> ins AND 0xffff = 0x25ff \<and>
    load64 (mem w') (c + 6 + scast (ucast (drop_bit 16 ins) :: u32)) = plt_data disp (plt_entries funcaddr) i"
proof -
  define ws where "ws = plt_fill disp (plt_entries funcaddr) 256 (take 58 plt0) 26"
  have ws: "length ws = 58" "ws ! i = plt_jump" "ws ! (32 + i) = plt_data disp (plt_entries funcaddr) i"
    using plt_fill_words[of 26 "plt_entries funcaddr" "take 58 plt0" disp] assms(2,3)
    by (simp_all add: ws_def plt_count)
  obtain q g1 w1 where al: "mem_alloc_code sys g 464 0x40 w = (q, g1, w1)"
    by (cases "mem_alloc_code sys g 464 0x40 w")
  have "unat (ALIGN_UP (of_nat (length (plt_entries funcaddr) * 8)) 0x40 :: u64) = 256"
    by (simp add: plt_count ALIGN_UP_def)
  then have p: "p = q" "r = 0" "mem w' = write_bytes (mem w1) p (concat (map (le_bytes 8) ws))"
    using assms(1) al
    by (auto simp: plt_create_def Let_def plt_count mem_write_code_def ws_def split: if_splits)
  have i: "i < 26" using assms(3) by (simp add: plt_count)
  have c: "load64 (mem w') (p + of_nat (8 * i)) = plt_jump"
    using load64_words[of i ws "mem w1" p] ws i unfolding p(3) by simp
  have d: "load64 (mem w') (p + of_nat (8 * (32 + i))) = plt_data disp (plt_entries funcaddr) i"
    using load64_words[of "32 + i" ws "mem w1" p] ws i unfolding p(3) by simp
  have "(scast (ucast (drop_bit 16 plt_jump) :: u32) :: u64) = 250" by code_simp
  then have e: "p + of_nat (8 * i) + 6 + scast (ucast (drop_bit 16 plt_jump) :: u32) = p + of_nat (8 * (32 + i))"
    by (simp only:) (simp add: algebra_simps)
  show ?thesis unfolding Let_def c e d using p(2) by simp
qed

lemma fresh_code_alloc:
  "\<exists>g1. mem_alloc_code grant_sys fresh_arenas 464 0x40 (boot_world ()) = (MEM_BASE + MEM_DATA_SIZE, g1, boot_world ())"
  "\<exists>g1. mem_alloc_code grant_sys fresh_arenas 48 0x40 (boot_world ()) = (MEM_BASE + MEM_DATA_SIZE, g1, boot_world ())"
  by (simp_all add: mem_alloc_code_def arena_alloc_def fresh_arenas_def fresh_arena_def boot_world_def ALIGN_UP_def
      Let_def mprotect_def ret_int_def syscall3_def do_syscall_def grant_sys_def c_int_def)

definition demo_disp :: dispatcher_info where
  "demo_disp = \<lparr>loop_func = 0x400, quick_dispatch_func = 0x1111, full_dispatch_func = 0x2222, patch_data_reg = 14\<rparr>"

theorem plt_create_jumps_witness:
  "\<exists>p g' w'. plt_create grant_sys demo_disp (\<lambda>_. 0x3333) (replicate 58 0) fresh_arenas (boot_world ()) = (0, Some p, g', w') \<and>
     load64 (mem w') (p + 8) AND 0xffff = 0x25ff"
proof -
  obtain g1 where g1: "mem_alloc_code grant_sys fresh_arenas 464 0x40 (boot_world ()) = (MEM_BASE + MEM_DATA_SIZE, g1, boot_world ())"
    using fresh_code_alloc(1) by blast
  have u: "unat (ALIGN_UP (of_nat (length (plt_entries (\<lambda>_. 0x3333)) * 8)) 0x40 :: u64) = 256"
    by (simp add: plt_count ALIGN_UP_def)
  have "\<exists>p g' w'. plt_create grant_sys demo_disp (\<lambda>_. 0x3333) (replicate 58 0) fresh_arenas (boot_world ()) = (0, Some p, g', w')"
    unfolding plt_create_def Let_def u using g1
    by (simp add: plt_count mem_write_code_def BAD_ADDR_def)
  then obtain p g' w' where
    r: "plt_create grant_sys demo_disp (\<lambda>_. 0x3333) (replicate 58 0) fresh_arenas (boot_world ()) = (0, Some p, g', w')" by blast
  from plt_create_jumps[OF r, of 1] r show ?thesis by (auto simp: Let_def plt_count)
qed


lemma load_patch_data_bytes:
  assumes "length xs = 16"
  shows "load_patch_data (write_bytes m a (xs @ patch_data_bytes pd)) (a + 16) = pd"
proof -
  let ?m = "write_bytes m a (xs @ patch_data_bytes pd)"
  note sl = read_write_slice[where m = m and a = a]
  have "read_bytes ?m (a + 16) 8 = le_bytes 8 (sym_addr pd)"
    "read_bytes ?m (a + 24) 4 = le_bytes 4 (rel_type pd)"
    "read_bytes ?m (a + 28) 4 = le_bytes 4 (rel_size pd)"
    "read_bytes ?m (a + 32) 8 = le_bytes 8 (addend pd)"
    "read_bytes ?m (a + 40) 8 = le_bytes 8 (patch_addr pd)"
    using assms
      sl[of xs "le_bytes 8 (sym_addr pd)" "le_bytes 4 (rel_type pd) @ le_bytes 4 (rel_size pd) @ le_bytes 8 (addend pd) @ le_bytes 8 (patch_addr pd)" 16 8]
      sl[of "xs @ le_bytes 8 (sym_addr pd)" "le_bytes 4 (rel_type pd)" "le_bytes 4 (rel_size pd) @ le_bytes 8 (addend pd) @ le_bytes 8 (patch_addr pd)" 24 4]
      sl[of "xs @ le_bytes 8 (sym_addr pd) @ le_bytes 4 (rel_type pd)" "le_bytes 4 (rel_size pd)" "le_bytes 8 (addend pd) @ le_bytes 8 (patch_addr pd)" 28 4]
      sl[of "xs @ le_bytes 8 (sym_addr pd) @ le_bytes 4 (rel_type pd) @ le_bytes 4 (rel_size pd)" "le_bytes 8 (addend pd)" "le_bytes 8 (patch_addr pd)" 32 8]
      sl[of "xs @ le_bytes 8 (sym_addr pd) @ le_bytes 4 (rel_type pd) @ le_bytes 4 (rel_size pd) @ le_bytes 8 (addend pd)" "le_bytes 8 (patch_addr pd)" "[]" 40 8]
    by (simp_all add: patch_data_bytes_def del: le_bytes.simps read_bytes.simps)
  moreover have "a + 16 + 8 = a + 24" "a + 16 + 12 = a + 28" "a + 16 + 16 = a + 32" "a + 16 + 24 = a + 40"
    by simp_all
  ultimately show ?thesis
    by (simp only: load_patch_data_def load64_def load32_def) (simp add: le_word_le_bytes del: le_bytes.simps le_word.simps)
qed

text \<open>
  The two instructions of a stub, as the processor decodes them: \<open>lea_rip\<close> is a 64-bit \<^verbatim>\<open>lea\<close> with an
  operand relative to the instruction pointer (REX.W, opcode 8D, ModRM with mod 0 and r/m 5) and gives the
  destination register, from REX.R and ModRM.reg, and the address; \<open>jmp_rel32\<close> is a near jump.
\<close>

definition lea_rip :: "memory \<Rightarrow> u64 \<Rightarrow> (u8 \<times> u64) option" where
  "lea_rip m p =
     (let rex = m p; modrm = m (p + 2) in
      if rex AND 0xfb = 0x48 \<and> m (p + 1) = 0x8d \<and> modrm AND 0xc7 = 0x05
      then Some (push_bit 1 (rex AND 4) OR (drop_bit 3 modrm AND 7), p + 7 + scast (load32 m (p + 3)))
      else None)"

definition jmp_rel32 :: "memory \<Rightarrow> u64 \<Rightarrow> u64 option" where
  "jmp_rel32 m p = (if m p = 0xe9 then Some (p + 5 + scast (load32 m (p + 1))) else None)"

lemma lea_encoding:
  fixes r :: u8
  assumes "r < 16"
  defines "rex \<equiv> 0x48 + (if r \<ge> 8 then 4 else 0)" and "modrm \<equiv> 5 + push_bit 3 (r AND 7)"
  shows "rex AND 0xfb = 0x48 \<and> modrm AND 0xc7 = 5 \<and> push_bit 1 (rex AND 4) OR (drop_bit 3 modrm AND 7) = r"
proof -
  have "\<forall>k \<in> set [0..<16]. let r = of_nat k :: u8; rex = 0x48 + (if r \<ge> 8 then 4 else 0); modrm = 5 + push_bit 3 (r AND 7) in
      rex AND 0xfb = 0x48 \<and> modrm AND 0xc7 = 5 \<and> push_bit 1 (rex AND 4) OR (drop_bit 3 modrm AND 7) = r"
    by code_simp
  moreover have "unat r \<in> set [0..<16]" using assms(1) by (simp add: word_less_nat_alt)
  ultimately have "let r' = of_nat (unat r) :: u8; rex = 0x48 + (if r' \<ge> 8 then 4 else 0); modrm = 5 + push_bit 3 (r' AND 7) in
      rex AND 0xfb = 0x48 \<and> modrm AND 0xc7 = 5 \<and> push_bit 1 (rex AND 4) OR (drop_bit 3 modrm AND 7) = r'"
    by (rule bspec)
  moreover have "of_nat (unat r) = r" by simp
  ultimately show ?thesis by (simp only: Let_def rex_def modrm_def)
qed

text \<open>
  C26: The stub for a function that is not translated yet passes the patch data and enters the full
  dispatcher. Its first instruction loads the address of the patch data, which lies behind the code, into the
  register that the calling convention assigns to it; the second jumps to the second entry of the
  linkage table, when that is within 2 GiB; and the patch data is the given one.
\<close>

theorem patch_stub_correct:
  assumes "rtld_patch_create_stub sys plt disp pd g w = (r, Some stub, g', w')" and "patch_data_reg disp < 16"
    and "- (2 ^ 31) \<le> sint (plt + 8 - stub - 12)" and "sint (plt + 8 - stub - 12) < 2 ^ 31"
  shows "r = 0 \<and> lea_rip (mem w') stub = Some (patch_data_reg disp, stub + 16) \<and>
    load_patch_data (mem w') (stub + 16) = pd \<and> jmp_rel32 (mem w') (stub + 7) = Some (plt + 8)"
proof -
  let ?d = "ucast (plt + 8 - stub - 12) :: u32"
  let ?lea = "[0x48 + (if patch_data_reg disp \<ge> 8 then 4 else 0), 0x8d, 5 + push_bit 3 (patch_data_reg disp AND 7)]"
  have code: "stub_code plt stub (patch_data_reg disp) pd =
      (?lea @ [9, 0, 0, 0] @ [0xe9] @ le_bytes 4 ?d @ le_bytes 4 (0x0b0f0b0f :: u32)) @ patch_data_bytes pd"
    by (simp add: stub_code_def Let_def del: le_bytes.simps)
  obtain q g1 w1 where al: "mem_alloc_code sys g 48 0x40 w = (q, g1, w1)" by (cases "mem_alloc_code sys g 48 0x40 w")
  then have w': "r = 0" "mem w' = write_bytes (mem w1) stub (stub_code plt stub (patch_data_reg disp) pd)"
    using assms(1) by (auto simp: rtld_patch_create_stub_def mem_write_code_def split: if_splits)
  have len: "length (patch_data_bytes pd) = 32" by (simp add: patch_data_bytes_def)
  note sl = read_write_slice[where m = "mem w1" and a = stub]
  have "read_bytes (mem w') stub 3 = ?lea"
    using sl[of "[]" ?lea "[9, 0, 0, 0] @ [0xe9] @ le_bytes 4 ?d @ le_bytes 4 (0x0b0f0b0f :: u32) @ patch_data_bytes pd" 0 3]
    by (simp add: w'(2) code len del: le_bytes.simps read_bytes.simps)
  then have s1: "mem w' stub = ?lea ! 0" "mem w' (stub + 1) = ?lea ! 1" "mem w' (stub + 2) = ?lea ! 2"
    by (simp_all add: read_bytes_numeral add.commute[of 2])
  have s2: "read_bytes (mem w') (stub + 3) 4 = [9, 0, 0, 0]"
    using sl[of ?lea "[9, 0, 0, 0]" "[0xe9] @ le_bytes 4 ?d @ le_bytes 4 (0x0b0f0b0f :: u32) @ patch_data_bytes pd" 3 4]
    by (simp add: w'(2) code len del: le_bytes.simps read_bytes.simps)
  have s3: "read_bytes (mem w') (stub + 7) 1 = [0xe9]"
    using sl[of "?lea @ [9, 0, 0, 0]" "[0xe9]" "le_bytes 4 ?d @ le_bytes 4 (0x0b0f0b0f :: u32) @ patch_data_bytes pd" 7 1]
    by (simp add: w'(2) code len del: le_bytes.simps read_bytes.simps)
  have s4: "read_bytes (mem w') (stub + 8) 4 = le_bytes 4 ?d"
    using sl[of "?lea @ [9, 0, 0, 0] @ [0xe9]" "le_bytes 4 ?d" "le_bytes 4 (0x0b0f0b0f :: u32) @ patch_data_bytes pd" 8 4]
    by (simp add: w'(2) code len del: le_bytes.simps read_bytes.simps)
  have "load32 (mem w') (stub + 8) = ?d"
    by (simp add: load32_def s4 le_word_le_bytes del: le_bytes.simps le_word.simps read_bytes.simps)
  then have "stub + 7 + 5 + scast (load32 (mem w') (stub + 7 + 1)) = plt + 8"
    using scast_ucast_32[OF assms(3,4)] by (simp add: add.commute[of 8])
  moreover have "mem w' (stub + 7) = 0xe9" using s3 by simp
  ultimately have "jmp_rel32 (mem w') (stub + 7) = Some (plt + 8)" by (simp only: jmp_rel32_def if_True refl)
  moreover have "load32 (mem w') (stub + 3) = 9"
    unfolding load32_def s2 by code_simp
  then have "lea_rip (mem w') stub = Some (patch_data_reg disp, stub + 16)"
    using lea_encoding[OF assms(2)] by (simp add: lea_rip_def s1 Let_def)
  moreover have "load_patch_data (mem w') (stub + 16) = pd"
    unfolding w'(2) code by (rule load_patch_data_bytes) simp
  ultimately show ?thesis using w'(1) by simp
qed

theorem patch_stub_correct_witness:
  "\<exists>stub g' w'. rtld_patch_create_stub grant_sys 0x400001002000 demo_disp
       \<lparr>sym_addr = 0x401000, rel_type = 2, rel_size = 8, addend = 0, patch_addr = 0x1000\<rparr> fresh_arenas (boot_world ()) =
       (0, Some stub, g', w') \<and>
     lea_rip (mem w') stub = Some (14, stub + 16) \<and> jmp_rel32 (mem w') (stub + 7) = Some 0x400001002008"
proof -
  let ?pd = "\<lparr>sym_addr = 0x401000, rel_type = 2, rel_size = 8, addend = 0, patch_addr = 0x1000\<rparr>"
  obtain g1 where g1: "mem_alloc_code grant_sys fresh_arenas 48 0x40 (boot_world ()) = (MEM_BASE + MEM_DATA_SIZE, g1, boot_world ())"
    using fresh_code_alloc(2) by blast
  then obtain w' where r: "rtld_patch_create_stub grant_sys 0x400001002000 demo_disp ?pd fresh_arenas (boot_world ()) =
      (0, Some 0x400001000000, g1, w')"
    by (simp add: rtld_patch_create_stub_def mem_write_code_def BAD_ADDR_def)
  from patch_stub_correct[OF r] r show ?thesis by (auto simp: demo_disp_def)
qed

text \<open>The range checks compare with the largest value itself: it is representable, and rejected.\<close>

lemma signed_limit_rejected:
  "fst (rtld_elf_signed_range sys loc 0x7fffffff 32 relinfo w) = False"
  "fst (rtld_elf_unsigned_range sys loc 0xffffffff 32 relinfo w) = False"
  by (simp_all add: rtld_elf_signed_range_def rtld_elf_unsigned_range_def CHECK_SIGNED_BITS_def CHECK_UNSIGNED_BITS_def)

end
