(* ===== verification/Rtld_Elf.thy ===== *)
theory Rtld_Elf
  imports Rtld_Table Rtld_Reloc
begin

text \<open>
  Loading a translated object, the ELF part of \<^verbatim>\<open>client/rtld.c\<close>: checking the header, resolving
  strings and symbols, processing relocation sections, placing the sections in the code arena and
  entering the functions into the table; and the perf support. The object lies in the client's
  memory, and the model reads and writes its headers there, at the offsets of the ELF64 structures.
  Functions that may run into an unterminated string or an endless write return an option.
\<close>

unbundle bit_operations_syntax

subsection \<open>ELF structures in memory\<close>

definition e_type :: "memory \<Rightarrow> u64 \<Rightarrow> u16" where "e_type m eh = load16 m (eh + 16)"
definition e_machine :: "memory \<Rightarrow> u64 \<Rightarrow> u16" where "e_machine m eh = load16 m (eh + 18)"
definition e_shoff :: "memory \<Rightarrow> u64 \<Rightarrow> u64" where "e_shoff m eh = load64 m (eh + 40)"
definition e_shentsize :: "memory \<Rightarrow> u64 \<Rightarrow> u16" where "e_shentsize m eh = load16 m (eh + 58)"
definition e_shnum :: "memory \<Rightarrow> u64 \<Rightarrow> u16" where "e_shnum m eh = load16 m (eh + 60)"

definition sh_type :: "memory \<Rightarrow> u64 \<Rightarrow> u32" where "sh_type m sh = load32 m (sh + 4)"
definition sh_flags :: "memory \<Rightarrow> u64 \<Rightarrow> u64" where "sh_flags m sh = load64 m (sh + 8)"
definition sh_addr :: "memory \<Rightarrow> u64 \<Rightarrow> u64" where "sh_addr m sh = load64 m (sh + 16)"
definition sh_offset :: "memory \<Rightarrow> u64 \<Rightarrow> u64" where "sh_offset m sh = load64 m (sh + 24)"
definition sh_size :: "memory \<Rightarrow> u64 \<Rightarrow> u64" where "sh_size m sh = load64 m (sh + 32)"
definition sh_link :: "memory \<Rightarrow> u64 \<Rightarrow> u32" where "sh_link m sh = load32 m (sh + 40)"
definition sh_info :: "memory \<Rightarrow> u64 \<Rightarrow> u32" where "sh_info m sh = load32 m (sh + 44)"
definition sh_addralign :: "memory \<Rightarrow> u64 \<Rightarrow> u64" where "sh_addralign m sh = load64 m (sh + 48)"
definition sh_entsize :: "memory \<Rightarrow> u64 \<Rightarrow> u64" where "sh_entsize m sh = load64 m (sh + 56)"
definition set_sh_addr :: "memory \<Rightarrow> u64 \<Rightarrow> u64 \<Rightarrow> memory" where "set_sh_addr m sh v = store64 m (sh + 16) v"

definition st_name :: "memory \<Rightarrow> u64 \<Rightarrow> u32" where "st_name m st = load32 m st"
definition st_info :: "memory \<Rightarrow> u64 \<Rightarrow> u8" where "st_info m st = load8 m (st + 4)"
definition st_other :: "memory \<Rightarrow> u64 \<Rightarrow> u8" where "st_other m st = load8 m (st + 5)"
definition st_shndx :: "memory \<Rightarrow> u64 \<Rightarrow> u16" where "st_shndx m st = load16 m (st + 6)"
definition st_value :: "memory \<Rightarrow> u64 \<Rightarrow> u64" where "st_value m st = load64 m (st + 8)"
definition st_size :: "memory \<Rightarrow> u64 \<Rightarrow> u64" where "st_size m st = load64 m (st + 16)"

definition r_offset :: "memory \<Rightarrow> u64 \<Rightarrow> u64" where "r_offset m rl = load64 m rl"
definition r_info :: "memory \<Rightarrow> u64 \<Rightarrow> u64" where "r_info m rl = load64 m (rl + 8)"
definition r_addend :: "memory \<Rightarrow> u64 \<Rightarrow> u64" where "r_addend m rl = load64 m (rl + 16)"

abbreviation (input) ET_REL :: u16 where "ET_REL \<equiv> 1"
abbreviation (input) EM_CURRENT :: u16 where "EM_CURRENT \<equiv> 62"
abbreviation (input) SHT_PROGBITS :: u32 where "SHT_PROGBITS \<equiv> 1"
abbreviation (input) SHT_SYMTAB :: u32 where "SHT_SYMTAB \<equiv> 2"
abbreviation (input) SHT_STRTAB :: u32 where "SHT_STRTAB \<equiv> 3"
abbreviation (input) SHT_RELA :: u32 where "SHT_RELA \<equiv> 4"
abbreviation (input) SHF_ALLOC :: u64 where "SHF_ALLOC \<equiv> 2"
abbreviation (input) SHN_UNDEF :: u16 where "SHN_UNDEF \<equiv> 0"
abbreviation (input) SHN_ABS :: u16 where "SHN_ABS \<equiv> 0xfff1"

text \<open>A C string in memory; \<open>None\<close> when there is no terminator.\<close>

partial_function (option) cstr_at :: "memory \<Rightarrow> u64 \<Rightarrow> string option" where
  "cstr_at m a =
     (if m a = 0 then Some []
      else Option.bind (cstr_at m (a + 1)) (\<lambda>s. Some (char_of (unat (m a)) # s)))"

subsection \<open>The loaded object\<close>

record rtld =
  perfmap_fd :: int
  perfdump_fd :: int
  disp_info :: dispatcher_info
  objects :: rtld_objects
  plt :: u64

record 'k rstate =
  rs_rtld :: rtld
  rs_arenas :: arenas
  rs_world :: "'k world"

abbreviation rs_mem :: "'k rstate \<Rightarrow> memory" where "rs_mem st \<equiv> mem (rs_world st)"

record rtld_elf =
  re_base :: u64
  re_size :: u64
  re_skew :: u64
  re_shdr :: u64

text \<open>\<^verbatim>\<open>re_ehdr\<close> is the address of the object itself.\<close>

abbreviation re_ehdr :: "rtld_elf \<Rightarrow> u64" where "re_ehdr re \<equiv> re_base re"

definition shdr_at :: "rtld_elf \<Rightarrow> nat \<Rightarrow> u64" where
  "shdr_at re i = re_shdr re + of_nat (64 * i)"

definition rtld_elf_init :: "memory \<Rightarrow> u64 \<Rightarrow> u64 \<Rightarrow> u64 \<Rightarrow> int + rtld_elf" where
  "rtld_elf_init m obase osize skew =
     (if osize < 64 then Inl (- EINVAL)
      else if read_bytes m obase 4 \<noteq> [0x7f, 0x45, 0x4c, 0x46] then Inl (- EINVAL)
      else if e_type m obase \<noteq> ET_REL then Inl (- EINVAL)
      else if load8 m (obase + 4) \<noteq> 2 then Inl (- EINVAL)
      else if e_machine m obase \<noteq> EM_CURRENT then Inl (- EINVAL)
      else if e_shentsize m obase \<noteq> 64 then Inl (- EINVAL)
      else if osize < e_shoff m obase + ucast (e_shentsize m obase) * ucast (e_shnum m obase)
        then Inl (- EINVAL)
      else Inr \<lparr>re_base = obase, re_size = osize, re_skew = skew,
                re_shdr = obase + e_shoff m obase\<rparr>)"

subsection \<open>Names and symbols\<close>

text \<open>The digits of a name: \<open>None\<close> is the early return on a digit that is not octal.\<close>

fun decode_digits :: "string \<Rightarrow> u64 \<Rightarrow> u64 option" where
  "decode_digits [] addr = Some addr"
| "decode_digits (c # cs) addr =
     (if c = NUL \<or> c = CHR ''_'' then Some addr
      else if uchar c < 48 \<or> uchar c \<ge> 56 then None
      else decode_digits cs (push_bit 3 addr OR word_of_int (uchar c - 48)))"

text \<open>The return value and the address, where it is written.\<close>

definition rtld_elf_decode_name :: "u64 \<Rightarrow> string \<Rightarrow> int \<times> u64 option" where
  "rtld_elf_decode_name skew name =
     (if deref name \<noteq> CHR ''Z'' \<and> deref name \<noteq> CHR ''S'' then (- EINVAL, None)
      else
        case decode_digits (tl name) 0 of
          None \<Rightarrow> (0, None)
        | Some addr \<Rightarrow> (0, Some (if deref name = CHR ''S'' then addr + skew else addr)))"

definition rtld_elf_resolve_str :: "memory \<Rightarrow> rtld_elf \<Rightarrow> u64 \<Rightarrow> u64 \<Rightarrow> u64 option" where
  "rtld_elf_resolve_str m re strtab_idx str_idx =
     (if strtab_idx = 0 \<or> strtab_idx \<ge> ucast (e_shnum m (re_ehdr re)) then None
      else
        let str_shdr = shdr_at re (unat strtab_idx) in
        if sh_type m str_shdr \<noteq> SHT_STRTAB then None
        else if str_idx \<ge> sh_size m str_shdr then None
        else Some (re_base re + sh_offset m str_shdr + str_idx))"

fun plt_search :: "(string \<times> u64) list \<Rightarrow> nat \<Rightarrow> string \<Rightarrow> nat option" where
  "plt_search [] i name = None"
| "plt_search ((n, _) # es) i name = (if strcmp name n = 0 then Some i else plt_search es (i + 1) name)"

definition undef_msg :: string where
  "undef_msg = ''undefined symbol reference to %s'' @ [CHR 0x0A]"

abbreviation on_world :: "('k world \<Rightarrow> 'k world) \<Rightarrow> 'k rstate \<Rightarrow> 'k rstate" where
  "on_world f st \<equiv> st\<lparr>rs_world := f (rs_world st)\<rparr>"

text \<open>An undefined symbol, by its name.\<close>

definition resolve_undef ::
  "'k sysfn \<Rightarrow> u64 \<Rightarrow> (string \<Rightarrow> u64) \<Rightarrow> rtld_elf \<Rightarrow> rtld_patch_data \<Rightarrow> string \<Rightarrow> 'k rstate \<Rightarrow>
   int \<times> u64 option \<times> 'k rstate" where
  "resolve_undef sys loc funcaddr re pd name st =
     (if strncmp name ''glob_'' 5 = 0 then
        (- EINVAL, None, on_world (dprintf_w sys loc 2 undef_msg [VStr name]) st)
      else if strcmp name ''instrew_baseaddr'' = 0 then (0, Some (re_skew re), st)
      else
        let (r, out) = rtld_elf_decode_name (re_skew re) name; addr = (case out of None \<Rightarrow> 0 | Some a \<Rightarrow> a) in
        if r = 0 then
          (case rtld_resolve (objects (rs_rtld st)) addr of
             Some entry \<Rightarrow> (0, Some entry, st)
           | None \<Rightarrow>
               (case rtld_patch_create_stub sys (plt (rs_rtld st)) (disp_info (rs_rtld st))
                       (pd\<lparr>sym_addr := addr\<rparr>) (rs_arenas st) (rs_world st) of
                  (ret, stub, g, w) \<Rightarrow> (ret, stub, st\<lparr>rs_arenas := g, rs_world := w\<rparr>)))
        else
          case plt_search (plt_entries funcaddr) 0 name of
            Some i \<Rightarrow> (0, Some (plt (rs_rtld st) + of_nat i * PLT_FUNC_SIZE), st)
          | None \<Rightarrow> (- EINVAL, None, on_world (dprintf_w sys loc 2 undef_msg [VStr name]) st))"

definition rtld_elf_resolve_sym ::
  "'k sysfn \<Rightarrow> u64 \<Rightarrow> (string \<Rightarrow> u64) \<Rightarrow> rtld_elf \<Rightarrow> u64 \<Rightarrow> u64 \<Rightarrow> rtld_patch_data \<Rightarrow> 'k rstate \<Rightarrow>
   (int \<times> u64 option \<times> 'k rstate) option" where
  "rtld_elf_resolve_sym sys loc funcaddr re symtab_idx sym_idx pd st =
     (let m = rs_mem st; sym_shdr = shdr_at re (unat symtab_idx) in
      if symtab_idx = 0 \<or> symtab_idx \<ge> ucast (e_shnum m (re_ehdr re)) then Some (- EINVAL, None, st)
      else if sh_type m sym_shdr \<noteq> SHT_SYMTAB then Some (- EINVAL, None, st)
      else if sh_entsize m sym_shdr \<noteq> 24 then Some (- EINVAL, None, st)
      else if sym_idx = 0 \<or> sym_idx \<ge> sh_size m sym_shdr div 24 then Some (- EINVAL, None, st)
      else
        let elf_sym = re_base re + sh_offset m sym_shdr + 24 * sym_idx in
        if st_shndx m elf_sym = SHN_UNDEF then
          (case (case rtld_elf_resolve_str m re (ucast (sh_link m sym_shdr)) (ucast (st_name m elf_sym)) of
                   None \<Rightarrow> Some ''<unknown>'' | Some p \<Rightarrow> cstr_at m p) of
             None \<Rightarrow> None
           | Some name \<Rightarrow> Some (resolve_undef sys loc funcaddr re pd name st))
        else if st_shndx m elf_sym = SHN_ABS then Some (0, Some (st_value m elf_sym), st)
        else if st_shndx m elf_sym < e_shnum m (re_ehdr re) then
          Some (0, Some (sh_addr m (shdr_at re (unat (st_shndx m elf_sym))) + st_value m elf_sym), st)
        else Some (- EINVAL, None, st))"

subsection \<open>Relocation sections\<close>

text \<open>The relocations from entry \<open>rl\<close> on; \<open>n\<close> entries are left.\<close>

fun rela_loop ::
  "'k sysfn \<Rightarrow> u64 \<Rightarrow> (string \<Rightarrow> u64) \<Rightarrow> rtld_elf \<Rightarrow> u64 \<Rightarrow> u64 \<Rightarrow> u64 \<Rightarrow> u64 \<Rightarrow> nat \<Rightarrow> 'k rstate \<Rightarrow>
   (int \<times> 'k rstate) option" where
  "rela_loop sys loc funcaddr re tgt_shdr sec_write_addr symtab_idx rl 0 st = Some (0, st)"
| "rela_loop sys loc funcaddr re tgt_shdr sec_write_addr symtab_idx rl (Suc n) st =
     (let m = rs_mem st in
      if r_offset m rl \<ge> sh_size m tgt_shdr then Some (- EINVAL, st)
      else
        let pd = \<lparr>sym_addr = 0, rel_type = ucast (r_info m rl), rel_size = 8, addend = r_addend m rl,
                  patch_addr = sh_addr m tgt_shdr + r_offset m rl\<rparr>;
            tgt = sec_write_addr + r_offset m rl
        in
        case rtld_elf_resolve_sym sys loc funcaddr re symtab_idx (drop_bit 32 (r_info m rl)) pd st of
          None \<Rightarrow> None
        | Some (ret, out, st1) \<Rightarrow>
            if ret < 0 then Some (- EINVAL, st1)
            else
              case rtld_reloc_at_x86_64 sys loc pd tgt (case out of None \<Rightarrow> 0 | Some s \<Rightarrow> s) (rs_world st1) of
                (retval, w2) \<Rightarrow>
                  let st2 = st1\<lparr>rs_world := w2\<rparr> in
                  if retval < 0 then Some (retval, st2)
                  else rela_loop sys loc funcaddr re tgt_shdr sec_write_addr symtab_idx (rl + 24) n st2)"

definition rtld_elf_process_rela ::
  "'k sysfn \<Rightarrow> u64 \<Rightarrow> (string \<Rightarrow> u64) \<Rightarrow> rtld_elf \<Rightarrow> nat \<Rightarrow> 'k rstate \<Rightarrow> (int \<times> 'k rstate) option" where
  "rtld_elf_process_rela sys loc funcaddr re rela_idx st =
     (let m = rs_mem st; rela_shdr = shdr_at re rela_idx; shnum = e_shnum m (re_ehdr re) in
      if rela_idx = 0 \<or> rela_idx \<ge> unat shnum then Some (- EINVAL, st)
      else if sh_type m rela_shdr \<noteq> SHT_RELA then Some (- EINVAL, st)
      else if sh_entsize m rela_shdr \<noteq> 24 then Some (- EINVAL, st)
      else if sh_info m rela_shdr = 0 \<or> sh_info m rela_shdr \<ge> ucast shnum then Some (- EINVAL, st)
      else
        let tgt_shdr = shdr_at re (unat (sh_info m rela_shdr)) in
        if sh_flags m tgt_shdr AND SHF_ALLOC = 0 then Some (- EINVAL, st)
        else
          rela_loop sys loc funcaddr re tgt_shdr (re_base re + sh_offset m tgt_shdr)
            (ucast (sh_link m rela_shdr)) (re_base re + sh_offset m rela_shdr)
            (unat (sh_size m rela_shdr div 24)) st)"

subsection \<open>Perf support\<close>

text \<open>The time stamp is read through a local \<^verbatim>\<open>struct timespec\<close> at \<open>loc\<close>.\<close>

definition rtld_perf_timestamp :: "'k sysfn \<Rightarrow> u64 \<Rightarrow> 'k world \<Rightarrow> u64 \<times> 'k world" where
  "rtld_perf_timestamp sys loc w =
     (case clock_gettime sys 1 loc w of
        (ret, w1) \<Rightarrow>
          (if ret = 0 then load64 (mem w1) loc * 1000000000 + load64 (mem w1) (loc + 8) else 0, w1))"

definition write_local ::
  "'k sysfn \<Rightarrow> u64 \<Rightarrow> int \<Rightarrow> u8 list \<Rightarrow> 'k world \<Rightarrow> (int \<times> 'k world) option" where
  "write_local sys loc fd bs w =
     write_full sys fd loc (of_nat (length bs)) (w\<lparr>mem := write_bytes (mem w) loc bs\<rparr>)"

text \<open>The records of the jitdump format.\<close>

definition jit_code_load :: "u32 \<Rightarrow> u64 \<Rightarrow> u32 \<Rightarrow> u32 \<Rightarrow> u64 \<Rightarrow> u64 \<Rightarrow> u64 \<Rightarrow> u8 list" where
  "jit_code_load total_size timestamp pid tid entry codesize addr =
     le_bytes 4 (0 :: u32) @ le_bytes 4 total_size @ le_bytes 8 timestamp @ le_bytes 4 pid @ le_bytes 4 tid @
     le_bytes 8 entry @ le_bytes 8 entry @ le_bytes 8 codesize @ le_bytes 8 addr"

definition jit_header :: "u32 \<Rightarrow> u64 \<Rightarrow> u8 list" where
  "jit_header pid timestamp =
     le_bytes 4 (0x4A695444 :: u32) @ le_bytes 4 (1 :: u32) @ le_bytes 4 (40 :: u32) @ le_bytes 4 (62 :: u32) @
     le_bytes 4 (0 :: u32) @ le_bytes 4 pid @ le_bytes 8 timestamp @ le_bytes 8 (0 :: u64)"

definition rtld_perf_dump ::
  "'k sysfn \<Rightarrow> u64 \<Rightarrow> rtld \<Rightarrow> u64 \<Rightarrow> u64 \<Rightarrow> u64 \<Rightarrow> string \<Rightarrow> 'k world \<Rightarrow> 'k world option" where
  "rtld_perf_dump sys loc r addr entry codesize name w =
     (let namebuf = loc + 64 in
      case snprintf (mem w) namebuf 64 ''%lx_%s'' [VInt addr, VStr name] of
        None \<Rightarrow> None
      | Some (n, m1) \<Rightarrow>
          let namelen = (if n \<ge> 64 then 63 else n) in
          case rtld_perf_timestamp sys loc (w\<lparr>mem := m1\<rparr>) of
            (ts, w1) \<Rightarrow>
              case getpid sys w1 of
                (pid, w2) \<Rightarrow>
                  case gettid sys w2 of
                    (tid, w3) \<Rightarrow>
                      let rec = jit_code_load (ucast (of_nat (56 + namelen + 1) + codesize)) ts
                                  (word_of_int pid) (word_of_int tid) entry codesize addr in
                      case write_local sys loc (perfdump_fd r) rec w3 of
                        None \<Rightarrow> None
                      | Some (_, w4) \<Rightarrow>
                          case write_full sys (perfdump_fd r) namebuf (of_nat (namelen + 1)) w4 of
                            None \<Rightarrow> None
                          | Some (_, w5) \<Rightarrow>
                              map_option snd (write_full sys (perfdump_fd r) entry codesize w5))"

definition rtld_perf_notify ::
  "'k sysfn \<Rightarrow> u64 \<Rightarrow> rtld \<Rightarrow> u64 \<Rightarrow> u64 \<Rightarrow> u64 \<Rightarrow> string \<Rightarrow> 'k world \<Rightarrow> 'k world option" where
  "rtld_perf_notify sys loc r addr entry codesize name w =
     (let w1 = (if perfmap_fd r \<ge> 0 then
                  dprintf_w sys loc (perfmap_fd r) (''%lx %lx %lx_%s'' @ [CHR 0x0A])
                    [VInt entry, VInt codesize, VInt addr, VStr name] w
                else w)
      in if perfdump_fd r \<ge> 0 then rtld_perf_dump sys loc r addr entry codesize name w1 else Some w1)"


abbreviation (input) perf_open_flags :: int where
  "perf_open_flags \<equiv> 0x40 + 0x200 + 0x20000 + 0x80000"

text \<open>The jitdump file: header, then the executable mapping that perf looks for.\<close>

definition rtld_perf_dump_init :: "'k sysfn \<Rightarrow> u64 \<Rightarrow> rtld \<Rightarrow> int \<Rightarrow> 'k world \<Rightarrow> (int \<times> rtld \<times> 'k world) option" where
  "rtld_perf_dump_init sys loc r dump_fd w =
     (case getpid sys w of
        (pid, w1) \<Rightarrow>
          case rtld_perf_timestamp sys loc w1 of
            (ts, w2) \<Rightarrow>
              case write_local sys loc dump_fd (jit_header (word_of_int pid) ts) w2 of
                None \<Rightarrow> None
              | Some (n, w3) \<Rightarrow>
                  if n < 0 then Some (- EIO, r, snd (c_close sys dump_fd w3))
                  else
                    case mmap sys 0 (pagesize w3) (or PROT_READ PROT_EXEC) MAP_PRIVATE dump_fd 0 w3 of
                      (marker, w4) \<Rightarrow>
                        if BAD_ADDR marker then Some (- EIO, r, snd (c_close sys dump_fd w4))
                        else Some (0, r\<lparr>perfdump_fd := dump_fd\<rparr>, w4))"

definition rtld_perf_init :: "'k sysfn \<Rightarrow> u64 \<Rightarrow> rtld \<Rightarrow> int \<Rightarrow> 'k world \<Rightarrow> (int \<times> rtld \<times> 'k world) option" where
  "rtld_perf_init sys loc r mode w =
     (if mode < 1 then Some (0, r, w)
      else
        case getpid sys w of
          (pid, w1) \<Rightarrow>
            case snprintf (mem w1) loc 32 ''/tmp/perf-%u.map'' [VInt (word_of_int pid)] of
              None \<Rightarrow> None
            | Some (_, m1) \<Rightarrow>
                case c_open sys loc (perf_open_flags + 1) 0x180 (w1\<lparr>mem := m1\<rparr>) of
                  (map_fd, w2) \<Rightarrow>
                    if map_fd < 0 then Some (map_fd, r, w2)
                    else
                      let r1 = r\<lparr>perfmap_fd := map_fd\<rparr> in
                      if mode < 2 then Some (0, r1, w2)
                      else
                        case snprintf (mem w2) loc 32 ''/tmp/jit-%u.dump'' [VInt (word_of_int pid)] of
                          None \<Rightarrow> None
                        | Some (_, m3) \<Rightarrow>
                            case c_open sys loc (perf_open_flags + 2) 0x180 (w2\<lparr>mem := m3\<rparr>) of
                              (dump_fd, w4) \<Rightarrow>
                                if dump_fd < 0 then Some (dump_fd, r1, w4)
                                else rtld_perf_dump_init sys loc r1 dump_fd w4)"

subsection \<open>Adding an object\<close>

text \<open>
  The four passes over the section headers. Each loop reads the number of sections anew, as the
  code does; it is a 16-bit field, which bounds the loops.
\<close>

lemma shnum_bound: "i < unat (e_shnum m a) \<Longrightarrow> i < 65536"
  using unsigned_less[of "e_shnum m a", where 'a = nat] by simp

abbreviation (input) supported_flags :: u64 where
  "supported_flags \<equiv> 0x2 OR 0x4 OR 0x10 OR 0x20 OR 0x40"

function pass_layout ::
  "'k sysfn \<Rightarrow> u64 \<Rightarrow> rtld_elf \<Rightarrow> nat \<Rightarrow> u64 \<Rightarrow> u64 \<Rightarrow> 'k world \<Rightarrow> (int \<times> 'k world) + (u64 \<times> u64 \<times> 'k world)" where
  "pass_layout sys loc re i totsz totalign w =
     (let m = mem w; sh = shdr_at re i in
      if i < unat (e_shnum m (re_ehdr re)) then
        if sh_flags m sh AND NOT supported_flags \<noteq> 0 then
          Inl (- EINVAL, dprintf_w sys loc 2 (''unsupported section flags'' @ [CHR 0x0A]) [] w)
        else if sh_flags m sh AND SHF_ALLOC \<noteq> 0 then
          let off = ALIGN_UP totsz (sh_addralign m sh) in
          pass_layout sys loc re (i + 1) (off + sh_size m sh)
            (if totalign < sh_addralign m sh then sh_addralign m sh else totalign)
            (w\<lparr>mem := set_sh_addr m sh off\<rparr>)
        else pass_layout sys loc re (i + 1) totsz totalign w
      else Inr (totsz, totalign, w))"
  by pat_completeness auto
termination
  by (relation "measure (\<lambda>(sys, loc, re, i, t, a, w). 65536 - i)") (auto dest: shnum_bound)

function pass_rebase :: "rtld_elf \<Rightarrow> u64 \<Rightarrow> nat \<Rightarrow> memory \<Rightarrow> memory" where
  "pass_rebase re base i m =
     (if i < unat (e_shnum m (re_ehdr re)) then
        let sh = shdr_at re i in
        pass_rebase re base (i + 1)
          (if sh_flags m sh AND SHF_ALLOC \<noteq> 0 then set_sh_addr m sh (sh_addr m sh + base) else m)
      else m)"
  by pat_completeness auto
termination
  by (relation "measure (\<lambda>(re, b, i, m). 65536 - i)") (auto dest: shnum_bound)

function pass_relocate ::
  "'k sysfn \<Rightarrow> u64 \<Rightarrow> (string \<Rightarrow> u64) \<Rightarrow> rtld_elf \<Rightarrow> nat \<Rightarrow> 'k rstate \<Rightarrow> (int \<times> 'k rstate) option" where
  "pass_relocate sys loc funcaddr re i st =
     (let m = rs_mem st in
      if i < unat (e_shnum m (re_ehdr re)) then
        if sh_type m (shdr_at re i) \<noteq> SHT_RELA then pass_relocate sys loc funcaddr re (i + 1) st
        else
          case rtld_elf_process_rela sys loc funcaddr re i st of
            None \<Rightarrow> None
          | Some (retval, st1) \<Rightarrow>
              if retval < 0 then Some (retval, st1) else pass_relocate sys loc funcaddr re (i + 1) st1
      else Some (0, st))"
  by pat_completeness auto
termination
  by (relation "measure (\<lambda>(sys, loc, f, re, i, st). 65536 - i)") (auto dest: shnum_bound)

function pass_copy :: "rtld_elf \<Rightarrow> nat \<Rightarrow> 'k world \<Rightarrow> int \<times> 'k world" where
  "pass_copy re i w =
     (let m = mem w; sh = shdr_at re i in
      if i < unat (e_shnum m (re_ehdr re)) then
        if sh_type m sh \<noteq> SHT_PROGBITS then pass_copy re (i + 1) w
        else
          case mem_write_code (sh_addr m sh) (read_bytes m (re_base re + sh_offset m sh) (unat (sh_size m sh))) w of
            (retval, w1) \<Rightarrow> if retval < 0 then (retval, w1) else pass_copy re (i + 1) w1
      else (0, w))"
  by pat_completeness auto
termination
  by (relation "measure (\<lambda>(re, i, w). 65536 - i)") (auto dest: shnum_bound)


text \<open>The symbols from \<open>elf_sym\<close> on; \<open>retval\<close> is the variable of that name in the code.\<close>

definition is_function_symbol :: "memory \<Rightarrow> u64 \<Rightarrow> bool" where
  "is_function_symbol m elf_sym \<longleftrightarrow>
     drop_bit 4 (st_info m elf_sym) = 1 \<and> st_info m elf_sym AND 0xf = 2 \<and>
     st_other m elf_sym AND 3 = 0 \<and> st_shndx m elf_sym \<noteq> SHN_UNDEF"

definition invalid_name_msg :: string where
  "invalid_name_msg = ''invalid function name %s'' @ [CHR 0x0A]"

definition add_symbol ::
  "'k sysfn \<Rightarrow> u64 \<Rightarrow> rtld_elf \<Rightarrow> u64 \<Rightarrow> u64 \<Rightarrow> 'k rstate \<Rightarrow> ((int \<times> 'k rstate) + 'k rstate) option" where
  "add_symbol sys loc re elf_shnt elf_sym st =
     (let m = rs_mem st; r = rs_rtld st in
      if st_shndx m elf_sym \<ge> e_shnum m (re_ehdr re) then Some (Inl (- EINVAL, st))
      else
        let entry = sh_addr m (shdr_at re (unat (st_shndx m elf_sym))) + st_value m elf_sym in
        case rtld_elf_resolve_str m re (ucast (sh_link m elf_shnt)) (ucast (st_name m elf_sym)) of
          None \<Rightarrow> Some (Inl (- EINVAL, st))
        | Some p \<Rightarrow>
            case cstr_at m p of
              None \<Rightarrow> None
            | Some name \<Rightarrow>
                let (ret, out) = rtld_elf_decode_name (re_skew re) name;
                    addr = (case out of None \<Rightarrow> 0 | Some a \<Rightarrow> a)
                in
                if ret < 0 \<or> addr = 0 then
                  Some (Inl (ret, on_world (dprintf_w sys loc 2 invalid_name_msg [VStr name]) st))
                else
                  case rtld_set (objects r) addr entry (re_base re) (re_size re) of
                    (ret2, obs) \<Rightarrow>
                      let r1 = r\<lparr>objects := obs\<rparr>; st1 = st\<lparr>rs_rtld := r1\<rparr> in
                      if ret2 < 0 then Some (Inl (ret2, st1))
                      else
                        case rtld_perf_notify sys loc r1 addr entry (st_size m elf_sym) name (rs_world st1) of
                          None \<Rightarrow> None
                        | Some w2 \<Rightarrow> Some (Inr (st1\<lparr>rs_world := w2\<rparr>)))"

fun symbol_loop ::
  "'k sysfn \<Rightarrow> u64 \<Rightarrow> rtld_elf \<Rightarrow> u64 \<Rightarrow> u64 \<Rightarrow> nat \<Rightarrow> 'k rstate \<Rightarrow> ((int \<times> 'k rstate) + 'k rstate) option" where
  "symbol_loop sys loc re elf_shnt elf_sym 0 st = Some (Inr st)"
| "symbol_loop sys loc re elf_shnt elf_sym (Suc n) st =
     (if \<not> is_function_symbol (rs_mem st) elf_sym then symbol_loop sys loc re elf_shnt (elf_sym + 24) n st
      else
        case add_symbol sys loc re elf_shnt elf_sym st of
          Some (Inr st1) \<Rightarrow> symbol_loop sys loc re elf_shnt (elf_sym + 24) n st1
        | r \<Rightarrow> r)"

function pass_symbols ::
  "'k sysfn \<Rightarrow> u64 \<Rightarrow> rtld_elf \<Rightarrow> nat \<Rightarrow> 'k rstate \<Rightarrow> (int \<times> 'k rstate) option" where
  "pass_symbols sys loc re i st =
     (let m = rs_mem st; sh = shdr_at re i in
      if i < unat (e_shnum m (re_ehdr re)) then
        if sh_type m sh \<noteq> SHT_SYMTAB then pass_symbols sys loc re (i + 1) st
        else if sh_entsize m sh \<noteq> 24 then Some (- EINVAL, st)
        else
          case symbol_loop sys loc re sh (re_base re + sh_offset m sh) (unat (sh_size m sh div 24)) st of
            None \<Rightarrow> None
          | Some (Inl r) \<Rightarrow> Some r
          | Some (Inr st1) \<Rightarrow> pass_symbols sys loc re (i + 1) st1
      else Some (0, st))"
  by pat_completeness auto
termination
  by (relation "measure (\<lambda>(sys, loc, re, i, st). 65536 - i)") (auto dest: shnum_bound)

declare pass_layout.simps [simp del] pass_rebase.simps [simp del] pass_relocate.simps [simp del]
  pass_copy.simps [simp del] pass_symbols.simps [simp del]

definition rtld_add_object ::
  "'k sysfn \<Rightarrow> u64 \<Rightarrow> (string \<Rightarrow> u64) \<Rightarrow> u64 \<Rightarrow> u64 \<Rightarrow> u64 \<Rightarrow> 'k rstate \<Rightarrow> (int \<times> 'k rstate) option" where
  "rtld_add_object sys loc funcaddr obase osize skew st =
     (case rtld_elf_init (rs_mem st) obase osize skew of
        Inl e \<Rightarrow> Some (e, st)
      | Inr re \<Rightarrow>
          case pass_layout sys loc re 0 0 1 (rs_world st) of
            Inl (e, w) \<Rightarrow> Some (e, st\<lparr>rs_world := w\<rparr>)
          | Inr (totsz, totalign, w1) \<Rightarrow>
              case mem_alloc_code sys (rs_arenas st) totsz totalign w1 of
                (base, g2, w2) \<Rightarrow>
                  if BAD_ADDR base then Some (c_int base, st\<lparr>rs_arenas := g2, rs_world := w2\<rparr>)
                  else
                    let st3 = st\<lparr>rs_arenas := g2, rs_world := w2\<lparr>mem := pass_rebase re base 0 (mem w2)\<rparr>\<rparr> in
                    case pass_relocate sys loc funcaddr re 0 st3 of
                      None \<Rightarrow> None
                    | Some (r4, st4) \<Rightarrow>
                        if r4 < 0 then Some (r4, st4)
                        else
                          case pass_copy re 0 (rs_world st4) of
                            (r5, w5) \<Rightarrow>
                              let st5 = st4\<lparr>rs_world := w5\<rparr> in
                              if r5 < 0 then Some (r5, st5) else pass_symbols sys loc re 0 st5)"

definition rtld_init ::
  "'k sysfn \<Rightarrow> dispatcher_info \<Rightarrow> (string \<Rightarrow> u64) \<Rightarrow> u64 list \<Rightarrow> rtld_objects \<Rightarrow> 'k rstate \<Rightarrow> int \<times> 'k rstate" where
  "rtld_init sys disp funcaddr plt0 obs st =
     (case mem_alloc_data sys (rs_arenas st) (32 * 2 ^ RTLD_HASH_BITS) (pagesize (rs_world st)) (rs_world st) of
        (p, g1, w1) \<Rightarrow>
          if BAD_ADDR p then (c_int p, st\<lparr>rs_arenas := g1, rs_world := w1\<rparr>)
          else
            let r1 = (rs_rtld st)\<lparr>objects := obs, perfmap_fd := - 1, perfdump_fd := - 1, disp_info := disp\<rparr> in
            case plt_create sys disp funcaddr plt0 g1 w1 of
              (ret, out, g2, w2) \<Rightarrow>
                let r2 = (case out of None \<Rightarrow> r1 | Some q \<Rightarrow> r1\<lparr>plt := q\<rparr>);
                    st2 = st\<lparr>rs_rtld := r2, rs_arenas := g2, rs_world := w2\<rparr>
                in if ret < 0 then (ret, st2) else (0, st2))"

subsection \<open>Function names\<close>

text \<open>
  The server names the code of a guest address by its octal digits, as C++ streams print them with
  \<^verbatim>\<open>std::oct\<close>, behind Z (absolute) or S (relative to the load bias), with an underscore before any
  further text.
\<close>

fun oct_text :: "nat \<Rightarrow> string" where
  "oct_text v = (if v < 8 then [char_of (48 + v)] else oct_text (v div 8) @ [char_of (48 + v mod 8)])"

declare oct_text.simps [simp del]

definition function_name :: "char \<Rightarrow> u64 \<Rightarrow> string" where
  "function_name prefix addr = prefix # oct_text (unat addr)"

lemma decode_digit_step:
  assumes "d < 8"
  shows "decode_digits (char_of (48 + d) # cs) acc = decode_digits cs (push_bit 3 acc OR of_nat d)"
proof -
  have u: "uchar (char_of (48 + d) :: char) = 48 + int d"
    using assms by (subst uchar_char_of) auto
  then have "char_of (48 + d) \<noteq> NUL" and "char_of (48 + d) \<noteq> CHR ''_''"
    using assms uchar_NUL by (auto simp: of_char_Char)
  with u assms show ?thesis by simp
qed

lemma push_3_or:
  assumes "8 * k + d < 2 ^ 64" and "d < 8"
  shows "push_bit 3 (of_nat k :: u64) OR of_nat d = of_nat (8 * k + d)"
proof -
  have "push_bit 3 (of_nat k :: u64) = of_nat (8 * k)" by (simp add: push_bit_eq_mult)
  moreover have "(of_nat (8 * k) :: u64) AND of_nat d = 0"
  proof (rule bit_word_eqI)
    fix n assume "n < LENGTH(64)"
    have "\<not> (bit (8 * k) n \<and> bit d n)"
    proof
      assume "bit (8 * k) n \<and> bit d n"
      then have b: "bit (push_bit 3 k) n" "bit d n" by (simp_all add: push_bit_eq_mult mult.commute)
      then have "3 \<le> n" by (simp add: bit_simps)
      moreover have "bit (take_bit 3 d) n" using b(2) assms(2) by (simp add: take_bit_nat_eq_self)
      ultimately show False by (simp add: bit_simps)
    qed
    then show "bit ((of_nat (8 * k) :: u64) AND of_nat d) n = bit (0 :: u64) n"
      by (simp add: bit_simps del: of_nat_mult)
  qed
  ultimately have "push_bit 3 (of_nat k :: u64) OR of_nat d = of_nat (8 * k) + of_nat d"
    by (simp only: disjunctive_add_eq_or)
  then show ?thesis by (simp only: of_nat_add)
qed

lemma decode_oct_text:
  "v < 2 ^ 64 \<Longrightarrow> decode_digits (oct_text v @ cs) 0 = decode_digits cs (of_nat v)"
proof (induction v arbitrary: cs rule: oct_text.induct)
  case (1 v)
  show ?case
  proof (cases "v < 8")
    case True
    then show ?thesis by (simp add: oct_text.simps decode_digit_step del: decode_digits.simps)
  next
    case False
    have "8 * (v div 8) + v mod 8 = v" by simp
    then have "push_bit 3 (of_nat (v div 8) :: u64) OR of_nat (v mod 8) = of_nat v"
      using push_3_or[of "v div 8" "v mod 8"] 1(2) by simp
    then show ?thesis
      using False 1(1)[OF False, of "char_of (48 + v mod 8) # cs"] 1(2)
      by (subst oct_text.simps) (simp add: decode_digit_step del: decode_digits.simps)
  qed
qed

text \<open>
  C28: The name of a function decodes to the address it was made from: rtld_elf_decode_name reads
  the octal digits the server prints, up to the end or an underscore, as the guest address
  for a Z name, and adds the load bias for an S name.
\<close>

theorem function_name_roundtrip:
  "rtld_elf_decode_name skew (function_name (CHR ''Z'') addr) = (0, Some addr) \<and>
   rtld_elf_decode_name skew (function_name (CHR ''S'') addr @ CHR ''_'' # rest) = (0, Some (addr + skew))"
  using decode_oct_text[of "unat addr" "[]"] decode_oct_text[of "unat addr" "CHR ''_'' # rest"]
    unsigned_less[of addr, where 'a = nat]
  by (simp add: rtld_elf_decode_name_def function_name_def)

text \<open>
  C37: An object whose header rtld_elf_init accepts is an x86-64 relocatable ELF64 file with its
  section header table inside the object, every header at its place, unless the end of the table
  wraps around the address space; everything else is rejected with -EINVAL.
\<close>

theorem rtld_elf_init_bounds:
  "case rtld_elf_init m obase osize skew of
     Inl e \<Rightarrow> e = - EINVAL
   | Inr re \<Rightarrow>
       re_base re = obase \<and> re_skew re = skew \<and> e_type m obase = ET_REL \<and> e_machine m obase = EM_CURRENT \<and>
       (let off = unat (e_shoff m obase); n = unat (e_shnum m obase) in
        2 ^ 64 \<le> off + 64 * n \<or>
        (off + 64 * n \<le> unat osize \<and> (\<forall>i. shdr_at re i = obase + of_nat (off + 64 * i))))"
proof -
  have "unat (ucast (e_shnum m obase) :: u64) = unat (e_shnum m obase)"
    using unsigned_less[of "e_shnum m obase", where 'a = nat] by (simp add: unsigned_ucast_eq take_bit_nat_eq_self)
  moreover have "unat (e_shnum m obase) < 65536" using unsigned_less[of "e_shnum m obase", where 'a = nat] by simp
  ultimately have "unat (e_shoff m obase + 64 * ucast (e_shnum m obase)) = unat (e_shoff m obase) + 64 * unat (e_shnum m obase)"
    if "unat (e_shoff m obase) + 64 * unat (e_shnum m obase) < 2 ^ 64"
    using that by (simp add: unat_word_ariths)
  note nowrap = this
  show ?thesis
  proof (cases "unat (e_shoff m obase) + 64 * unat (e_shnum m obase) < 2 ^ 64")
    case True
    with nowrap show ?thesis
      by (auto simp: rtld_elf_init_def shdr_at_def Let_def word_less_nat_alt add.assoc)
  next
    case False
    then show ?thesis by (auto simp: rtld_elf_init_def Let_def)
  qed
qed

subsection \<open>The table only grows\<close>

definition table_grows :: "rtld_objects \<Rightarrow> rtld_objects \<Rightarrow> bool" where
  "table_grows t t' \<longleftrightarrow>
     (table_inv t \<longrightarrow> table_inv t' \<and> (\<forall>a e. rtld_resolve t a = Some e \<longrightarrow> rtld_resolve t' a = Some e))"

lemma table_grows_refl [simp, intro]: "table_grows t t"
  by (simp add: table_grows_def)

lemma table_grows_trans: "table_grows t u \<Longrightarrow> table_grows u v \<Longrightarrow> table_grows t v"
  by (auto simp: table_grows_def)

lemma rtld_set_grows: "table_grows t (snd (rtld_set t a e b s))"
  using objects.set_inv[of t a e b s] objects.set_extends[of t _ _ a e b s]
  by (auto simp: table_grows_def)

lemma resolve_undef_rtld: "rs_rtld (snd (snd (resolve_undef sys loc f re pd name st))) = rs_rtld st"
  by (auto simp: resolve_undef_def Let_def split: prod.splits option.splits)

lemma resolve_sym_rtld:
  "rtld_elf_resolve_sym sys loc f re si yi pd st = Some (r, out, st') \<Longrightarrow> rs_rtld st' = rs_rtld st"
  using resolve_undef_rtld[of sys loc f re pd _ st]
  by (auto simp: rtld_elf_resolve_sym_def Let_def split: if_splits option.splits) (metis snd_conv)+

lemma rela_loop_rtld:
  "rela_loop sys loc f re ts sw si rl n st = Some (r, st') \<Longrightarrow> rs_rtld st' = rs_rtld st"
proof (induction n arbitrary: rl st)
  case (Suc n)
  then show ?case
    by (auto simp: Let_def split: if_splits option.splits prod.splits dest!: resolve_sym_rtld Suc.IH)
qed simp

lemma process_rela_rtld:
  "rtld_elf_process_rela sys loc f re i st = Some (r, st') \<Longrightarrow> rs_rtld st' = rs_rtld st"
  by (auto simp: rtld_elf_process_rela_def Let_def split: if_splits dest: rela_loop_rtld)

lemma pass_relocate_rtld:
  "pass_relocate sys loc f re i st = Some (r, st') \<Longrightarrow> rs_rtld st' = rs_rtld st"
proof (induction sys loc f re i st rule: pass_relocate.induct)
  case (1 sys loc f re i st)
  note prem = 1(3)[unfolded pass_relocate.simps[of sys loc f re i st] Let_def]
  show ?case
  proof (cases "i < unat (e_shnum (rs_mem st) (re_ehdr re)) \<and> sh_type (rs_mem st) (shdr_at re i) = SHT_RELA")
    case False
    with prem 1(1)[OF refl] show ?thesis by (auto split: if_splits)
  next
    case True
    then obtain q st1 where q: "rtld_elf_process_rela sys loc f re i st = Some (q, st1)"
      using prem by (auto split: option.splits)
    with prem True 1(2)[OF refl _ _ q refl] process_rela_rtld[OF q] show ?thesis
      by (auto split: if_splits)
  qed
qed

lemma add_symbol_grows:
  assumes "add_symbol sys loc re sh sy st = Some r"
  shows "table_grows (objects (rs_rtld st))
    (objects (rs_rtld (case r of Inl (_, st') \<Rightarrow> st' | Inr st' \<Rightarrow> st')))"
  using assms rtld_set_grows[of "objects (rs_rtld st)"]
  by (auto simp: add_symbol_def Let_def split: if_splits option.splits prod.splits) (metis snd_conv)+

lemma symbol_loop_grows:
  assumes "symbol_loop sys loc re sh sy n st = Some r"
  shows "table_grows (objects (rs_rtld st))
    (objects (rs_rtld (case r of Inl (_, st') \<Rightarrow> st' | Inr st' \<Rightarrow> st')))"
  using assms
proof (induction n arbitrary: sy st)
  case (Suc n)
  show ?case
  proof (cases "is_function_symbol (rs_mem st) sy")
    case False
    with Suc show ?thesis by simp
  next
    case True
    then obtain q where q: "add_symbol sys loc re sh sy st = Some q"
      using Suc.prems by (auto split: option.splits)
    show ?thesis
    proof (cases q)
      case (Inl p)
      with q True Suc.prems add_symbol_grows[OF q] show ?thesis by simp
    next
      case (Inr st1)
      with q True Suc.prems have "symbol_loop sys loc re sh (sy + 24) n st1 = Some r" by simp
      from table_grows_trans[OF _ Suc.IH[OF this]] add_symbol_grows[OF q] Inr show ?thesis by simp
    qed
  qed
qed auto

lemma pass_symbols_grows:
  "pass_symbols sys loc re i st = Some (r, st') \<Longrightarrow>
    table_grows (objects (rs_rtld st)) (objects (rs_rtld st'))"
proof (induction sys loc re i st rule: pass_symbols.induct)
  case (1 sys loc re i st)
  note prem = 1(3)[unfolded pass_symbols.simps[of sys loc re i st] Let_def]
  let ?m = "rs_mem st" and ?sh = "shdr_at re i"
  show ?case
  proof (cases "i < unat (e_shnum ?m (re_ehdr re)) \<and> sh_type ?m ?sh = SHT_SYMTAB \<and> sh_entsize ?m ?sh = 24")
    case False
    with prem 1(1) show ?thesis by (auto split: if_splits)
  next
    case True
    then obtain q where q: "symbol_loop sys loc re ?sh (re_base re + sh_offset ?m ?sh)
        (unat (sh_size ?m ?sh div 24)) st = Some q"
      using prem by (auto split: option.splits)
    show ?thesis
    proof (cases q)
      case (Inl p)
      with q True prem symbol_loop_grows[OF q] show ?thesis by simp
    next
      case (Inr st1)
      with True q prem have s: "pass_symbols sys loc re (i + 1) st1 = Some (r, st')" by simp
      have "table_grows (objects (rs_rtld st1)) (objects (rs_rtld st'))"
        using 1(2)[OF refl refl _ _ _ q _ s] True Inr by simp
      with symbol_loop_grows[OF q] Inr show ?thesis by (auto intro: table_grows_trans)
    qed
  qed
qed

lemma rtld_add_object_grows:
  "rtld_add_object sys loc f ob sz skew st = Some (r, st') \<Longrightarrow>
    table_grows (objects (rs_rtld st)) (objects (rs_rtld st'))"
  by (auto simp: rtld_add_object_def Let_def split: sum.splits prod.splits option.splits if_splits
      dest!: pass_relocate_rtld dest: pass_symbols_grows)

text \<open>A name with a digit that is not octal is not an error.\<close>

lemma decode_name_bad_digit: "rtld_elf_decode_name skew ''Z19_'' = (0, None)"
  by (simp add: rtld_elf_decode_name_def deref_def)

text \<open>Aligning to zero, as for a section without an alignment, gives zero.\<close>

lemma ALIGN_UP_zero: "ALIGN_UP v 0 = (0 :: u64)"
  by (simp add: ALIGN_UP_def)

end
