(* ===== verification/Libc_Signal.thy ===== *)
theory Libc_Signal
  imports Libc_Io
begin

text \<open>
  Signal sets and the signal system calls of \<^verbatim>\<open>client/minilibc.c\<close>, the auxiliary vector, and the
  start-up code \<^verbatim>\<open>__start_main\<close> that relocates the client. On x86-64 a signal set is one 64-bit
  word; the other branch of the conditionals, an array of words, is given where it differs.
\<close>

subsection \<open>Signal sets\<close>

type_synonym sigset = u64

abbreviation (input) NSIG :: int where "NSIG \<equiv> 64"

definition sigsetmsk :: "int \<Rightarrow> u64" where
  "sigsetmsk signum = push_bit (nat (signum - 1)) 1"

text \<open>The index \<^verbatim>\<open>signum / 8 / sizeof *set->sig\<close> where the set is an array.\<close>

definition sigsetptr_index :: "int \<Rightarrow> int" where
  "sigsetptr_index signum = signum div 8 div 8"

definition sigemptyset :: "int \<times> sigset" where
  "sigemptyset = (0, le_word (replicate 8 0))"

definition sigfillset :: "int \<times> sigset" where
  "sigfillset = (0, le_word (replicate 8 0xff))"

definition sigaddset :: "sigset \<Rightarrow> int \<Rightarrow> int \<times> sigset" where
  "sigaddset s signum =
     (if signum \<le> 0 \<or> signum > NSIG then (- EINVAL, s) else (0, s OR sigsetmsk signum))"

definition sigdelset :: "sigset \<Rightarrow> int \<Rightarrow> int \<times> sigset" where
  "sigdelset s signum =
     (if signum \<le> 0 \<or> signum > NSIG then (- EINVAL, s) else (0, s AND NOT (sigsetmsk signum)))"

definition sigismember :: "sigset \<Rightarrow> int \<Rightarrow> int" where
  "sigismember s signum =
     (if signum \<le> 0 \<or> signum > NSIG then - EINVAL
      else if s AND sigsetmsk signum \<noteq> 0 then 1 else 0)"

subsection \<open>Signal system calls\<close>

record sigact =
  sa_handler :: u64
  sa_flags :: u64
  sa_restorer :: u64
  sa_mask :: sigset

definition sigact_bytes :: "sigact \<Rightarrow> u8 list" where
  "sigact_bytes a = le_bytes 8 (sa_handler a) @ le_bytes 8 (sa_flags a) @
     le_bytes 8 (sa_restorer a) @ le_bytes 8 (sa_mask a)"

definition load_sigact :: "memory \<Rightarrow> u64 \<Rightarrow> sigact" where
  "load_sigact m p = \<lparr>sa_handler = load64 m p, sa_flags = load64 m (p + 8),
     sa_restorer = load64 m (p + 16), sa_mask = load64 m (p + 24)\<rparr>"

abbreviation (input) SA_RESTORER :: u64 where "SA_RESTORER \<equiv> 0x04000000"

text \<open>
  The action is given by value, \<open>None\<close> for a null pointer; the local copy \<^verbatim>\<open>kact\<close> is at \<open>loc\<close>, and
  \<open>restore\<close> is the address of the assembly routine \<^verbatim>\<open>__restore\<close>.
\<close>

definition sigaction ::
  "'k sysfn \<Rightarrow> u64 \<Rightarrow> u64 \<Rightarrow> int \<Rightarrow> sigact option \<Rightarrow> u64 \<Rightarrow> 'k world \<Rightarrow> int \<times> 'k world" where
  "sigaction sys loc restore num act oact w =
     (case act of
        None \<Rightarrow> ret_int (syscall4 sys NR_rt_sigaction (word_of_int num) 0 oact 8 w)
      | Some a \<Rightarrow>
          let kact = a\<lparr>sa_flags := sa_flags a OR SA_RESTORER, sa_restorer := restore\<rparr>;
              w1 = w\<lparr>mem := write_bytes (mem w) loc (sigact_bytes kact)\<rparr>
          in ret_int (syscall4 sys NR_rt_sigaction (word_of_int num) loc oact 8 w1))"

definition sigprocmask ::
  "'k sysfn \<Rightarrow> int \<Rightarrow> u64 \<Rightarrow> u64 \<Rightarrow> 'k world \<Rightarrow> int \<times> 'k world" where
  "sigprocmask sys how sp old w =
     ret_int (syscall4 sys NR_rt_sigprocmask (word_of_int how) sp old 8 w)"

definition sigsuspend :: "'k sysfn \<Rightarrow> u64 \<Rightarrow> 'k world \<Rightarrow> int \<times> 'k world" where
  "sigsuspend sys sp w = ret_int (syscall2 sys NR_rt_sigsuspend sp 8 w)"

subsection \<open>Start-up\<close>

partial_function (option) getauxval_loop :: "memory \<Rightarrow> u64 \<Rightarrow> u64 \<Rightarrow> u64 option" where
  "getauxval_loop m aux type =
     (if load64 m aux = 0 then Some 0
      else if load64 m aux = type then Some (load64 m (aux + 8))
      else getauxval_loop m (aux + 16) type)"

definition getauxval :: "memory \<Rightarrow> u64 \<Rightarrow> u64 \<Rightarrow> u64 option" where
  "getauxval m auxvptr type = getauxval_loop m auxvptr type"

definition getpagesize :: "'k world \<Rightarrow> u64" where
  "getpagesize w = pagesize w"

text \<open>The first zero word from an address on, the end of the environment.\<close>

partial_function (option) env_end :: "memory \<Rightarrow> u64 \<Rightarrow> u64 option" where
  "env_end m aux = (if load64 m aux = 0 then Some aux else env_end m (aux + 8))"

abbreviation (input) PT_DYNAMIC :: u32 where "PT_DYNAMIC \<equiv> 2"
abbreviation (input) AT_PHDR :: u64 where "AT_PHDR \<equiv> 3"
abbreviation (input) AT_PHENT :: u64 where "AT_PHENT \<equiv> 4"
abbreviation (input) AT_PHNUM :: u64 where "AT_PHNUM \<equiv> 5"
abbreviation (input) AT_PAGESZ :: u64 where "AT_PAGESZ \<equiv> 6"
abbreviation (input) R_RELATIVE :: u64 where "R_RELATIVE \<equiv> 8"

definition ELF_R_TYPE :: "u64 \<Rightarrow> u64" where
  "ELF_R_TYPE info = info AND 0xffffffff"

text \<open>The load bias found in the program headers, zero when there is no dynamic segment.\<close>

fun dynamic_base :: "memory \<Rightarrow> u64 \<Rightarrow> u64 \<Rightarrow> nat \<Rightarrow> u64" where
  "dynamic_base m dynv phdr 0 = 0"
| "dynamic_base m dynv phdr (Suc n) =
     (if load32 m phdr = PT_DYNAMIC then dynv - load64 m (phdr + 16)
      else dynamic_base m dynv (phdr + 56) n)"

text \<open>
  The tags of the dynamic section are DT_REL (17), DT_RELA (7), DT_RELSZ (18) and DT_RELASZ (8).
\<close>

record dyn_info =
  dt_rel :: u64
  dt_rela :: u64
  dt_relsz :: u64
  dt_relasz :: u64

partial_function (option) dyn_loop :: "memory \<Rightarrow> u64 \<Rightarrow> u64 \<Rightarrow> dyn_info \<Rightarrow> dyn_info option" where
  "dyn_loop m base dynv d =
     (let tag = load64 m dynv; v = load64 m (dynv + 8) in
      if tag = 0 then Some d
      else dyn_loop m base (dynv + 16)
        (if tag = 17 then d\<lparr>dt_rel := base + v\<rparr>
         else if tag = 7 then d\<lparr>dt_rela := base + v\<rparr>
         else if tag = 18 then d\<lparr>dt_relsz := v\<rparr>
         else if tag = 8 then d\<lparr>dt_relasz := v\<rparr>
         else d))"

text \<open>
  The relocation loops count the size down to exactly zero; the value \<open>Inl\<close> is the status given to
  \<^verbatim>\<open>_exit\<close>.
\<close>

partial_function (option) rel_loop :: "u64 \<Rightarrow> u64 \<Rightarrow> u64 \<Rightarrow> memory \<Rightarrow> (int + memory) option" where
  "rel_loop base rel relsz m =
     (if relsz = 0 then Some (Inr m)
      else if ELF_R_TYPE (load64 m (rel + 8)) \<noteq> R_RELATIVE then Some (Inl (- ENOEXEC))
      else let p = base + load64 m rel in
        rel_loop base (rel + 16) (relsz - 16) (store64 m p (load64 m p + base)))"

partial_function (option) rela_relative_loop ::
  "u64 \<Rightarrow> u64 \<Rightarrow> u64 \<Rightarrow> memory \<Rightarrow> (int + memory) option" where
  "rela_relative_loop base rela relasz m =
     (if relasz = 0 then Some (Inr m)
      else if ELF_R_TYPE (load64 m (rela + 8)) \<noteq> R_RELATIVE then Some (Inl (- ENOEXEC))
      else rela_relative_loop base (rela + 24) (relasz - 24)
        (store64 m (base + load64 m rela) (base + load64 m (rela + 16))))"

definition relocate_self :: "u64 \<Rightarrow> u64 \<Rightarrow> memory \<Rightarrow> (int + memory) option" where
  "relocate_self auxv dynv m =
     Option.bind (getauxval m auxv AT_PHNUM) (\<lambda>phnum.
     Option.bind (getauxval m auxv AT_PHENT) (\<lambda>phent.
     Option.bind (getauxval m auxv AT_PHDR) (\<lambda>phdr.
       if phent \<noteq> 56 then Some (Inl (- ENOEXEC))
       else
         let base = dynamic_base m dynv phdr (unat phnum) in
         Option.bind (dyn_loop m base dynv \<lparr>dt_rel = 0, dt_rela = 0, dt_relsz = 0, dt_relasz = 0\<rparr>) (\<lambda>d.
         Option.bind (rel_loop base (dt_rel d) (dt_relsz d) m) (\<lambda>r.
           case r of
             Inl e \<Rightarrow> Some (Inl e)
           | Inr m1 \<Rightarrow> rela_relative_loop base (dt_rela d) (dt_relasz d) m1)))))"

text \<open>
  What \<^verbatim>\<open>__start_main\<close> passes on: the status of an early exit, or the arguments of \<^verbatim>\<open>main\<close>, the
  auxiliary vector, the environment and the process with its page size set. The argument count
  is an \<^verbatim>\<open>int\<close>, used as an index.
\<close>

record 'k startup =
  su_argc :: int
  su_argv :: u64
  su_environ :: u64
  su_auxv :: u64
  su_world :: "'k world"

definition start_main :: "u64 \<Rightarrow> u64 \<Rightarrow> 'k world \<Rightarrow> (int + 'k startup) option" where
  "start_main stack dynv w =
     (let argc = c_int (load64 (mem w) stack); envp = stack + word_of_int (8 * (argc + 2)) in
      Option.bind (env_end (mem w) envp) (\<lambda>e.
      Option.bind (getauxval (mem w) (e + 8) AT_PAGESZ) (\<lambda>ps.
        let w1 = w\<lparr>pagesize := ps\<rparr> in
        Option.bind (if dynv = 0 then Some (Inr (mem w)) else relocate_self (e + 8) dynv (mem w)) (\<lambda>r.
          case r of
            Inl st \<Rightarrow> Some (Inl st)
          | Inr m \<Rightarrow> Some (Inr \<lparr>su_argc = argc, su_argv = stack + 8, su_environ = envp,
              su_auxv = e + 8, su_world = w1\<lparr>mem := m\<rparr>\<rparr>)))))"

subsection \<open>Signal sets are sets\<close>

definition sigs :: "sigset \<Rightarrow> int set" where
  "sigs s = {i. 1 \<le> i \<and> i \<le> NSIG \<and> bit s (nat (i - 1))}"

lemma bit_sigsetmsk:
  assumes "1 \<le> i" and "1 \<le> j" and "j \<le> NSIG"
  shows "bit (sigsetmsk i) (nat (j - 1)) \<longleftrightarrow> i = j"
  using assms by (auto simp: sigsetmsk_def bit_simps nat_eq_iff2)

lemma sigsetmsk_member:
  assumes "1 \<le> i" and "i \<le> NSIG"
  shows "s AND sigsetmsk i \<noteq> 0 \<longleftrightarrow> i \<in> sigs s"
proof -
  have "s AND sigsetmsk i = (if bit s (nat (i - 1)) then sigsetmsk i else 0)"
    by (rule bit_word_eqI) (auto simp: sigsetmsk_def bit_simps)
  moreover have "sigsetmsk i \<noteq> 0"
    using bit_sigsetmsk[of i i] assms by auto
  ultimately show ?thesis using assms by (simp add: sigs_def)
qed

lemma sigs_insert: "1 \<le> i \<Longrightarrow> i \<le> NSIG \<Longrightarrow> sigs (s OR sigsetmsk i) = insert i (sigs s)"
  by (auto simp: sigs_def bit_or_iff bit_sigsetmsk)

lemma sigs_delete: "1 \<le> i \<Longrightarrow> i \<le> NSIG \<Longrightarrow> sigs (s AND NOT (sigsetmsk i)) = sigs s - {i}"
  by (auto simp: sigs_def bit_and_iff bit_not_iff bit_sigsetmsk)

lemma sigs_full: "sigs (snd sigfillset) = {1..NSIG}"
proof -
  have f: "snd sigfillset = mask 64" by (simp add: sigfillset_def, code_simp)
  show ?thesis unfolding f by (auto simp: sigs_def bit_mask_iff)
qed

lemma sigs_empty: "sigs (snd sigemptyset) = {}"
proof -
  have f: "snd sigemptyset = 0" by (simp add: sigemptyset_def, code_simp)
  show ?thesis unfolding f by (simp add: sigs_def)
qed

text \<open>
  C30: A signal set represents the set of its signals 1 to 64: the operations of the library are
  the empty set, the full set, insertion, removal and membership on it, and every operation
  reports a number outside 1 to 64 as an invalid argument and leaves the set alone.
\<close>

theorem sigset_refines_set:
  "sigs (snd sigemptyset) = {} \<and> sigs (snd sigfillset) = {1..64} \<and>
   fst (sigaddset s i) = (if i \<in> {1..64} then 0 else - 22) \<and>
   sigs (snd (sigaddset s i)) = (if i \<in> {1..64} then insert i (sigs s) else sigs s) \<and>
   fst (sigdelset s i) = (if i \<in> {1..64} then 0 else - 22) \<and>
   sigs (snd (sigdelset s i)) = (if i \<in> {1..64} then sigs s - {i} else sigs s) \<and>
   sigismember s i = (if i \<in> sigs s then 1 else if i \<in> {1..64} then 0 else - 22)"
proof -
  have "sigismember s i = (if i \<in> sigs s then 1 else if i \<in> {1..64} then 0 else - 22)"
    by (auto simp: sigismember_def sigsetmsk_member) (auto simp: sigs_def)
  then show ?thesis
    by (simp add: sigs_empty sigs_full sigaddset_def sigdelset_def sigs_insert sigs_delete)
qed

subsection \<open>Self-relocation\<close>

lemma range_at_offset: "i < n \<Longrightarrow> n \<le> 2 ^ 64 \<Longrightarrow> b + of_nat i \<in> range_at b n"
  by (simp add: range_at_def unat_of_nat_64)

lemma load64_other:
  assumes "range_at a 8 \<inter> range_at b 8 = {}"
  shows "load64 (store64 m a v) b = load64 m b"
proof -
  have "read_bytes (store64 m a v) b 8 = read_bytes m b 8"
  proof (rule read_bytes_cong)
    fix i :: nat assume "i < 8"
    then have "b + of_nat i \<in> range_at b 8" by (intro range_at_offset) auto
    with assms have "b + of_nat i \<notin> range_at a 8" by auto
    then show "store64 m a v (b + of_nat i) = m (b + of_nat i)"
      by (simp add: store64_def write_bytes_outside del: le_bytes.simps)
  qed
  then show ?thesis by (simp add: load64_def)
qed

text \<open>
  A table of \<open>n\<close> entries whose targets keep clear of the table and of each other. \<open>rela_entry\<close> is
  the address of an entry and \<open>rela_target\<close> the word it relocates.
\<close>

definition rela_entry :: "u64 \<Rightarrow> nat \<Rightarrow> u64" where
  "rela_entry rela i = rela + of_nat (24 * i)"

definition rela_target :: "memory \<Rightarrow> u64 \<Rightarrow> u64 \<Rightarrow> nat \<Rightarrow> u64" where
  "rela_target m base rela i = base + load64 m (rela_entry rela i)"

definition rela_table_ok :: "memory \<Rightarrow> u64 \<Rightarrow> u64 \<Rightarrow> nat \<Rightarrow> bool" where
  "rela_table_ok m base rela n \<longleftrightarrow>
     (\<forall>i<n. ELF_R_TYPE (load64 m (rela_entry rela i + 8)) = R_RELATIVE) \<and>
     (\<forall>i<n. \<forall>j<n. \<forall>k\<in>{0, 8, 16}.
        range_at (rela_target m base rela i) 8 \<inter> range_at (rela_entry rela j + k) 8 = {}) \<and>
     (\<forall>i<n. \<forall>j<n. i \<noteq> j \<longrightarrow>
        range_at (rela_target m base rela i) 8 \<inter> range_at (rela_target m base rela j) 8 = {})"

lemma rela_entry_Suc: "rela_entry rela (Suc i) = rela_entry (rela + 24) i"
  by (simp add: rela_entry_def algebra_simps)

lemma rela_entry_0 [simp]: "rela_entry rela 0 = rela"
  by (simp add: rela_entry_def)

lemma rela_step:
  assumes "rela_table_ok m base rela (Suc n)"
    and m': "m' = store64 m (rela_target m base rela 0) v"
  shows "k \<in> {0, 8, 16} \<Longrightarrow> i < n \<Longrightarrow> load64 m' (rela_entry (rela + 24) i + k) = load64 m (rela_entry rela (Suc i) + k)"
    and "i < n \<Longrightarrow> rela_target m' base (rela + 24) i = rela_target m base rela (Suc i)"
    and "rela_table_ok m' base (rela + 24) n"
proof -
  have ty: "ELF_R_TYPE (load64 m (rela_entry rela i + 8)) = R_RELATIVE" if "i < Suc n" for i
    using assms(1) that unfolding rela_table_ok_def by blast
  have d: "range_at (rela_target m base rela i) 8 \<inter> range_at (rela_entry rela j + k) 8 = {}"
    if "i < Suc n" "j < Suc n" "k \<in> {0, 8, 16}" for i j k
    using assms(1) that unfolding rela_table_ok_def by blast
  have dt: "range_at (rela_target m base rela i) 8 \<inter> range_at (rela_target m base rela j) 8 = {}"
    if "i < Suc n" "j < Suc n" "i \<noteq> j" for i j
    using assms(1) that unfolding rela_table_ok_def by blast
  have e: "load64 m' (rela_entry rela (Suc i) + k) = load64 m (rela_entry rela (Suc i) + k)"
    if "k \<in> {0, 8, 16}" "i < n" for i k
    unfolding m' using that d[of 0 "Suc i" k] by (intro load64_other) simp
  then show "k \<in> {0, 8, 16} \<Longrightarrow> i < n \<Longrightarrow> load64 m' (rela_entry (rela + 24) i + k) = load64 m (rela_entry rela (Suc i) + k)"
    by (simp add: rela_entry_Suc)
  have t: "rela_target m' base (rela + 24) i = rela_target m base rela (Suc i)" if "i < n" for i
    using e[of 0 i] that by (simp add: rela_target_def rela_entry_Suc)
  then show "i < n \<Longrightarrow> rela_target m' base (rela + 24) i = rela_target m base rela (Suc i)" .
  show "rela_table_ok m' base (rela + 24) n"
    unfolding rela_table_ok_def
  proof (intro conjI allI impI ballI)
    fix i assume i: "i < n"
    show "ELF_R_TYPE (load64 m' (rela_entry (rela + 24) i + 8)) = R_RELATIVE"
      using e[of 8 i] ty[of "Suc i"] i by (simp add: rela_entry_Suc)
    fix j assume j: "j < n"
    show "range_at (rela_target m' base (rela + 24) i) 8 \<inter> range_at (rela_entry (rela + 24) j + k) 8 = {}"
      if "k \<in> {0, 8, 16}" for k
      using d[of "Suc i" "Suc j" k] i j that by (simp only: t rela_entry_Suc Suc_less_eq)
    show "range_at (rela_target m' base (rela + 24) i) 8 \<inter> range_at (rela_target m' base (rela + 24) j) 8 = {}"
      if "i \<noteq> j" using dt[of "Suc i" "Suc j"] i j that by (simp only: t Suc_less_eq Suc_inject)
  qed
qed

text \<open>
  C13: The relocation of the client by itself ends and does what the dynamic linker would do: for
  a table of relative relocations whose targets keep clear of the table and of each other, every
  target word holds the base plus its addend and all other memory is unchanged.
\<close>

theorem self_relocation_correct:
  assumes "rela_table_ok m base rela n" and "24 * n < 2 ^ 64"
  shows "\<exists>m'. rela_relative_loop base rela (of_nat (24 * n)) m = Some (Inr m') \<and>
    (\<forall>i<n. load64 m' (rela_target m base rela i) = base + load64 m (rela_entry rela i + 16)) \<and>
    (\<forall>x. (\<forall>i<n. x \<notin> range_at (rela_target m base rela i) 8) \<longrightarrow> m' x = m x)"
  using assms
proof (induction n arbitrary: m rela)
  case 0
  then show ?case by (simp add: rela_relative_loop.simps)
next
  case (Suc n)
  define m1 where "m1 = store64 m (rela_target m base rela 0) (base + load64 m (rela + 16))"
  note st = rela_step[OF Suc.prems(1) m1_def]
  obtain m' where m': "rela_relative_loop base (rela + 24) (of_nat (24 * n)) m1 = Some (Inr m')"
    and v: "\<And>i. i < n \<Longrightarrow> load64 m' (rela_target m1 base (rela + 24) i) = base + load64 m1 (rela_entry (rela + 24) i + 16)"
    and o: "\<And>x. (\<forall>i<n. x \<notin> range_at (rela_target m1 base (rela + 24) i) 8) \<Longrightarrow> m' x = m1 x"
    using Suc.IH[OF st(3)] Suc.prems(2) by auto
  have nz: "(of_nat (24 * Suc n) :: u64) \<noteq> 0"
    using unat_of_nat_64[OF Suc.prems(2)] by (metis mult_is_0 unat_0 nat.distinct(1) zero_neq_numeral)
  have ty: "ELF_R_TYPE (load64 m (rela + 8)) = R_RELATIVE"
    using Suc.prems(1) unfolding rela_table_ok_def by (metis rela_entry_0 zero_less_Suc)
  have run: "rela_relative_loop base rela (of_nat (24 * Suc n)) m = Some (Inr m')"
    using m' nz ty by (subst rela_relative_loop.simps) (simp add: m1_def rela_target_def algebra_simps)
  have o': "m' x = m1 x" if "\<And>i. i < n \<Longrightarrow> x \<notin> range_at (rela_target m base rela (Suc i)) 8" for x
    using o[of x] that st(2) by simp
  have "load64 m' (rela_target m base rela 0) = load64 m1 (rela_target m base rela 0)"
    unfolding load64_def
  proof (intro arg_cong[where f = le_word] read_bytes_cong o')
    fix i j :: nat assume "i < 8" "j < n"
    moreover have "range_at (rela_target m base rela (Suc j)) 8 \<inter> range_at (rela_target m base rela 0) 8 = {}"
      using Suc.prems(1) \<open>j < n\<close> unfolding rela_table_ok_def by (metis Suc_less_eq nat.distinct(1) zero_less_Suc)
    ultimately show "rela_target m base rela 0 + of_nat i \<notin> range_at (rela_target m base rela (Suc j)) 8"
      using range_at_offset[of i 8 "rela_target m base rela 0"] by auto
  qed
  then have v0: "load64 m' (rela_target m base rela 0) = base + load64 m (rela + 16)"
    by (simp add: m1_def mem_simps)
  have vs: "load64 m' (rela_target m base rela i) = base + load64 m (rela_entry rela i + 16)" if "i < Suc n" for i
  proof (cases i)
    case (Suc j)
    with that v[of j] st(1)[of 16 j] st(2)[of j] show ?thesis by simp
  qed (simp add: v0)
  have os: "m' x = m x" if "\<forall>i<Suc n. x \<notin> range_at (rela_target m base rela i) 8" for x
    using o'[of x] that by (simp add: m1_def store64_def write_bytes_outside del: le_bytes.simps)
  from run vs os show ?case by blast
qed

lemma range_at_disjoint:
  assumes "n \<le> unat (b - a)" and "unat (b - a) + k \<le> 2 ^ 64"
  shows "range_at a n \<inter> range_at b k = {}"
proof -
  have "n \<le> unat (x - a)" if "unat (x - b) < k" for x
  proof -
    have "x - a = (x - b) + (b - a)" by simp
    then have "unat (x - a) = unat (x - b) + unat (b - a)"
      using that assms(2) unat_word_ariths(1)[of "x - b" "b - a"] by (simp only:) simp
    with assms(1) show ?thesis by simp
  qed
  then show ?thesis by (force simp: range_at_def)
qed

theorem self_relocation_correct_witness:
  "let m = write_bytes (\<lambda>_. 0) 0x2000 (le_bytes 8 (0x100 :: u64) @ le_bytes 8 (8 :: u64) @ le_bytes 8 (0x1234 :: u64)) in
   \<exists>m'. rela_relative_loop 0x400000 0x2000 24 m = Some (Inr m') \<and> load64 m' 0x400100 = 0x401234"
proof -
  define m :: memory where "m = write_bytes (\<lambda>_. 0) 0x2000
    (le_bytes 8 (0x100 :: u64) @ le_bytes 8 (8 :: u64) @ le_bytes 8 (0x1234 :: u64))"
  have l: "load64 m 0x2000 = 0x100" "load64 m 0x2008 = 8" "load64 m 0x2010 = 0x1234"
    unfolding m_def by code_simp+
  have "range_at 0x400100 8 \<inter> range_at (0x2000 + k) 8 = {}" if "k \<in> {0, 8, 16}" for k :: u64
    using that by (intro range_at_disjoint) auto
  then have "rela_table_ok m 0x400000 0x2000 1"
    by (simp add: rela_table_ok_def rela_target_def l ELF_R_TYPE_def)
  from self_relocation_correct[OF this] show ?thesis
    by (fold m_def) (auto simp: rela_target_def l)
qed

end
