(* ===== verification/Dispatch.thy ===== *)
theory Dispatch
  imports Translator Rtld_Elf Libc_Signal
begin

text \<open>
  The state of the client (\<^verbatim>\<open>client/state.h\<close>) and the dispatcher (\<^verbatim>\<open>client/dispatch.c\<close>): the quick
  table of recently used functions, the resolution of a guest address to translated code, the
  dispatch loop of the C calling convention and the assembly dispatchers of the HHVM (x86-64) and
  AAPCS-X (aarch64) conventions.
\<close>

unbundle bit_operations_syntax

subsection \<open>State\<close>

text \<open>
  The linker state, the arenas and the process of \<open>rstate\<close> are the \<^verbatim>\<open>rtld\<close> field, the global arenas
  and the address space. A \<^verbatim>\<open>CpuState\<close> contains its \<^verbatim>\<open>State\<close> in place of the pointer to it (there is
  one of each); \<open>regdata\<close> holds the guest registers as the 64-bit words they are accessed by.
\<close>

record 'k state =
  st_rs :: "'k rstate"
  st_translator :: translator
  rew_time :: u64
  sigact_tab :: "nat \<Rightarrow> sigact"
  st_tsc :: translator_server_config
  st_tc :: translator_config

record stack_t =
  ss_sp :: u64
  ss_flags :: u32
  ss_size :: u64

record 'k cpu_state =
  cs_state :: "'k state"
  regdata :: "nat \<Rightarrow> u64"
  quick_tlb :: "nat \<Rightarrow> u64 \<times> u64"
  sigpending :: int
  cs_sigmask :: sigset
  cs_sigaltstack :: stack_t
  cs_siginfo :: "u8 list"

abbreviation st_rtld :: "'k state \<Rightarrow> rtld" where "st_rtld st \<equiv> rs_rtld (st_rs st)"
abbreviation st_world :: "'k state \<Rightarrow> 'k world" where "st_world st \<equiv> rs_world (st_rs st)"
abbreviation cs_world :: "'k cpu_state \<Rightarrow> 'k world" where "cs_world cs \<equiv> st_world (cs_state cs)"
abbreviation cs_objects :: "'k cpu_state \<Rightarrow> rtld_objects" where
  "cs_objects cs \<equiv> objects (st_rtld (cs_state cs))"

definition on_st_world :: "('k world \<Rightarrow> 'k world) \<Rightarrow> 'k state \<Rightarrow> 'k state" where
  "on_st_world f st = st\<lparr>st_rs := (st_rs st)\<lparr>rs_world := f (st_world st)\<rparr>\<rparr>"

definition set_world :: "'k world \<Rightarrow> 'k cpu_state \<Rightarrow> 'k cpu_state" where
  "set_world w cs = cs\<lparr>cs_state := on_st_world (\<lambda>_. w) (cs_state cs)\<rparr>"

subsection \<open>Tracing\<close>

text \<open>The register dump, a format and the indices of the registers it prints.\<close>

definition trace_regs :: "(string \<times> nat list) list" where
  "trace_regs =
     [(''RAX=%lx RBX=%lx RCX=%lx RDX=%lx'', [1, 4, 2, 3]),
      (''RSI=%lx RDI=%lx RBP=%lx RSP=%lx'', [7, 8, 6, 5]),
      (''R8 =%lx R9 =%lx R10=%lx R11=%lx'', [9, 10, 11, 12]),
      (''R12=%lx R13=%lx R14=%lx R15=%lx'', [13, 14, 15, 16])]"

definition trace_vregs :: "(string \<times> nat list) list" where
  "trace_vregs =
     [(''XMM0=%lx:%lx XMM1=%lx:%lx'', [18, 19, 20, 21]),
      (''XMM2=%lx:%lx XMM3=%lx:%lx'', [22, 23, 24, 25]),
      (''XMM4=%lx:%lx XMM5=%lx:%lx'', [26, 27, 28, 29]),
      (''XMM6=%lx:%lx XMM7=%lx:%lx'', [30, 31, 32, 33])]"

definition trace_line :: "'k sysfn \<Rightarrow> u64 \<Rightarrow> string \<Rightarrow> u64 list \<Rightarrow> 'k world \<Rightarrow> 'k world" where
  "trace_line sys loc format args w =
     dprintf_w sys loc 2 (format @ [CHR 0x0A]) (map VInt args) w"

definition trace_dump ::
  "'k sysfn \<Rightarrow> u64 \<Rightarrow> (nat \<Rightarrow> u64) \<Rightarrow> (string \<times> nat list) list \<Rightarrow> 'k world \<Rightarrow> 'k world" where
  "trace_dump sys loc regs ls w = foldl (\<lambda>w (f, is). trace_line sys loc f (map regs is) w) w ls"

definition print_trace :: "'k sysfn \<Rightarrow> u64 \<Rightarrow> 'k cpu_state \<Rightarrow> u64 \<Rightarrow> 'k cpu_state" where
  "print_trace sys loc cs addr =
     (let w1 = trace_line sys loc ''Trace 0x%lx'' [addr] (cs_world cs) in
      set_world
        (if tc_print_regs (st_tc (cs_state cs)) \<noteq> 0 then
           trace_dump sys loc (regdata cs) trace_vregs
             (trace_line sys loc ''RIP=%lx'' [addr]
               (trace_dump sys loc (regdata cs) trace_regs w1))
         else w1) cs)"

subsection \<open>Resolving a function\<close>

abbreviation (input) QUICK_TLB_BITS :: nat where "QUICK_TLB_BITS \<equiv> 10"
abbreviation (input) QUICK_TLB_BITOFF :: nat where "QUICK_TLB_BITOFF \<equiv> 4"

definition QUICK_TLB_HASH :: "u64 \<Rightarrow> u64" where
  "QUICK_TLB_HASH addr = drop_bit QUICK_TLB_BITOFF addr AND (push_bit QUICK_TLB_BITS 1 - 1)"

text \<open>
  The locals are at \<open>loc\<close>: the two time stamps of 16 bytes, the address and the size of the object;
  callees use the memory behind. The elapsed time wraps around in 64 bits.
\<close>

definition elapsed_ns :: "memory \<Rightarrow> u64 \<Rightarrow> u64" where
  "elapsed_ns m loc = (load64 m (loc + 16) - load64 m loc) * 1000000000
     + (load64 m (loc + 24) - load64 m (loc + 8))"

abbreviation (input) CLOCK_MONOTONIC :: int where "CLOCK_MONOTONIC \<equiv> 1"

text \<open>
  The branch taken when the address is not in the table: \<open>None\<close> in the first component of the
  result is the jump to the error exit.
\<close>

definition resolve_miss ::
  "'k sysfn \<Rightarrow> u64 \<Rightarrow> (string \<Rightarrow> u64) \<Rightarrow> u64 \<Rightarrow> 'k state \<Rightarrow> (u64 option \<times> 'k state) option" where
  "resolve_miss sys loc funcaddr addr st =
     (let profile = tc_profile (st_tc st) \<noteq> 0;
          st1 = (if profile then on_st_world (\<lambda>w. snd (clock_gettime sys CLOCK_MONOTONIC loc w)) st else st)
      in case translator_get sys (loc + 48) (st_translator st1) addr (rs_arenas (st_rs st1)) (st_world st1) of
        None \<Rightarrow> None
      | Some (ret, out, t, g, w) \<Rightarrow>
          let st2 = st1\<lparr>st_translator := t, st_rs := (st_rs st1)\<lparr>rs_arenas := g, rs_world := w\<rparr>\<rparr>;
              (obase, osize) = (case out of Some o1 \<Rightarrow> o1
                 | None \<Rightarrow> (load64 (mem w) (loc + 32), load64 (mem w) (loc + 40)))
          in if ret < 0 then Some (None, st2)
          else
            case rtld_add_object sys (loc + 48) funcaddr obase osize addr (st_rs st2) of
              None \<Rightarrow> None
            | Some (ret2, rs) \<Rightarrow>
                let st3 = st2\<lparr>st_rs := rs\<rparr> in
                if ret2 < 0 then Some (None, st3)
                else
                  case rtld_resolve (objects (st_rtld st3)) addr of
                    None \<Rightarrow> Some (None, st3)
                  | Some func \<Rightarrow>
                      if profile then
                        let st4 = on_st_world (\<lambda>w. snd (clock_gettime sys CLOCK_MONOTONIC (loc + 16) w)) st3
                        in Some (Some func, st4\<lparr>rew_time := rew_time st4 + elapsed_ns (mem (st_world st4)) loc\<rparr>)
                      else Some (Some func, st3))"

text \<open>
  \<^verbatim>\<open>resolve_func\<close> returns the entry, or leaves the process (\<open>Inl\<close> with the exit status). The patch
  data is a pointer, zero when there is none.
\<close>

definition resolve_func ::
  "'k sysfn \<Rightarrow> u64 \<Rightarrow> (string \<Rightarrow> u64) \<Rightarrow> 'k cpu_state \<Rightarrow> u64 \<Rightarrow> u64 \<Rightarrow> ((int + u64) \<times> 'k cpu_state) option" where
  "resolve_func sys loc funcaddr cs addr0 patch_data =
     (let st = cs_state cs;
          addr = (if patch_data \<noteq> 0 then sym_addr (load_patch_data (mem (st_world st)) patch_data) else addr0)
      in case (case rtld_resolve (objects (st_rtld st)) addr of
                 Some func \<Rightarrow> Some (Some func, st)
               | None \<Rightarrow> resolve_miss sys loc funcaddr addr st) of
        None \<Rightarrow> None
      | Some (None, st1) \<Rightarrow> Some (Inl 0, cs\<lparr>cs_state := st1\<rparr>)
      | Some (Some func, st1) \<Rightarrow>
          let cs1 = cs\<lparr>cs_state := st1\<rparr> in
          if tc_print_trace (st_tc st1) = 0 then
            Some (Inr func,
              (set_world (rtld_patch sys loc patch_data func (st_world st1)) cs1)
                \<lparr>quick_tlb := (quick_tlb cs)(unat (QUICK_TLB_HASH addr) := (addr, func))\<rparr>)
          else Some (Inr func, print_trace sys loc cs1 addr))"

subsection \<open>The C dispatcher\<close>

text \<open>
  The translated function is a parameter \<open>run\<close>: given its entry it transforms the whole state, or does
  not return. The result is the exit status, if the process exits, and the state.
\<close>

type_synonym 'k guest = "u64 \<Rightarrow> 'k cpu_state \<Rightarrow> 'k cpu_state option"

definition dispatch_target ::
  "'k sysfn \<Rightarrow> u64 \<Rightarrow> (string \<Rightarrow> u64) \<Rightarrow> 'k cpu_state \<Rightarrow> ((int + u64) \<times> 'k cpu_state) option" where
  "dispatch_target sys loc funcaddr cs =
     (let addr = regdata cs 0; hash = unat (QUICK_TLB_HASH addr) in
      if fst (quick_tlb cs hash) \<noteq> addr then resolve_func sys loc funcaddr cs addr 0
      else Some (Inr (snd (quick_tlb cs hash)), cs))"

definition dispatch_cdecl ::
  "'k sysfn \<Rightarrow> u64 \<Rightarrow> (string \<Rightarrow> u64) \<Rightarrow> 'k guest \<Rightarrow> 'k cpu_state \<Rightarrow> (int option \<times> 'k cpu_state) option" where
  "dispatch_cdecl sys loc funcaddr run cs =
     (case dispatch_target sys loc funcaddr cs of
        None \<Rightarrow> None
      | Some (Inl status, cs1) \<Rightarrow> Some (Some status, cs1)
      | Some (Inr func, cs1) \<Rightarrow>
          (case run func cs1 of None \<Rightarrow> None | Some cs2 \<Rightarrow> Some (None, cs2)))"

partial_function (option) dispatch_cdecl_loop ::
  "'k sysfn \<Rightarrow> u64 \<Rightarrow> (string \<Rightarrow> u64) \<Rightarrow> 'k guest \<Rightarrow> 'k cpu_state \<Rightarrow> (int \<times> 'k cpu_state) option" where
  "dispatch_cdecl_loop sys loc funcaddr run cs =
     (case dispatch_cdecl sys loc funcaddr run cs of
        None \<Rightarrow> None
      | Some (Some status, cs1) \<Rightarrow> Some (status, cs1)
      | Some (None, cs1) \<Rightarrow> dispatch_cdecl_loop sys loc funcaddr run cs1)"
subsection \<open>The quick table is a cache\<close>

text \<open>
  The invariant: every entry for a nonzero address is an entry of the function table, and there
  are no entries when tracing.
\<close>

definition tlb_inv :: "'k cpu_state \<Rightarrow> bool" where
  "tlb_inv cs \<longleftrightarrow> table_inv (cs_objects cs) \<and>
     (\<forall>h. fst (quick_tlb cs h) \<noteq> 0 \<longrightarrow>
        rtld_resolve (cs_objects cs) (fst (quick_tlb cs h)) = Some (snd (quick_tlb cs h)) \<and>
        tc_print_trace (st_tc (cs_state cs)) = 0)"

lemma on_st_world_simps [simp]:
  "st_rtld (on_st_world f st) = st_rtld st" "st_tc (on_st_world f st) = st_tc st"
  "st_translator (on_st_world f st) = st_translator st"
  "on_st_world (\<lambda>_. st_world st) st = st"
  by (simp_all add: on_st_world_def)

lemma set_world_simps [simp]:
  "cs_objects (set_world w cs) = cs_objects cs" "st_tc (cs_state (set_world w cs)) = st_tc (cs_state cs)"
  "quick_tlb (set_world w cs) = quick_tlb cs" "regdata (set_world w cs) = regdata cs"
  by (simp_all add: set_world_def)

lemma set_same_world [simp]: "set_world (cs_world cs) cs = cs"
  by (simp add: set_world_def)

lemma print_trace_simps [simp]:
  "cs_objects (print_trace sys loc cs a) = cs_objects cs"
  "st_tc (cs_state (print_trace sys loc cs a)) = st_tc (cs_state cs)"
  "quick_tlb (print_trace sys loc cs a) = quick_tlb cs"
  by (simp_all add: print_trace_def Let_def)

lemma resolve_miss_spec:
  assumes "resolve_miss sys loc f a st = Some (r, st')"
  shows "table_grows (objects (st_rtld st)) (objects (st_rtld st'))" and "st_tc st' = st_tc st"
    and "r = Some e \<Longrightarrow> rtld_resolve (objects (st_rtld st')) a = Some e"
  using assms
  by (auto simp: resolve_miss_def Let_def split: option.splits prod.splits if_splits dest!: rtld_add_object_grows)

text \<open>The address a call of \<^verbatim>\<open>resolve_func\<close> resolves.\<close>

definition wanted :: "'k cpu_state \<Rightarrow> u64 \<Rightarrow> u64 \<Rightarrow> u64" where
  "wanted cs addr pd = (if pd \<noteq> 0 then sym_addr (load_patch_data (mem (cs_world cs)) pd) else addr)"

lemma resolve_func_spec:
  assumes inv: "tlb_inv cs" and run: "resolve_func sys loc f cs addr pd = Some (r, cs')"
  shows "tlb_inv cs'" and "table_grows (cs_objects cs) (cs_objects cs')"
    and "r = Inr e \<Longrightarrow> rtld_resolve (cs_objects cs') (wanted cs addr pd) = Some e"
    and "r = Inl s \<Longrightarrow> s = 0"
proof -
  obtain q st1 where q: "(case rtld_resolve (cs_objects cs) (wanted cs addr pd) of
        Some func \<Rightarrow> Some (Some func, cs_state cs)
      | None \<Rightarrow> resolve_miss sys loc f (wanted cs addr pd) (cs_state cs)) = Some (q, st1)"
    using run by (auto simp: resolve_func_def wanted_def Let_def split: option.splits)
  then have g: "table_grows (cs_objects cs) (objects (st_rtld st1))" and t: "st_tc st1 = st_tc (cs_state cs)"
    and e: "q = Some e \<Longrightarrow> rtld_resolve (objects (st_rtld st1)) (wanted cs addr pd) = Some e" for e
    using resolve_miss_spec by (auto split: option.splits)
  note run' = run[unfolded resolve_func_def Let_def, folded wanted_def, unfolded q]
  show g': "table_grows (cs_objects cs) (cs_objects cs')"
    using run' g by (auto split: option.splits if_splits)
  show "r = Inr e \<Longrightarrow> rtld_resolve (cs_objects cs') (wanted cs addr pd) = Some e"
    using run' e by (auto split: option.splits if_splits)
  show "r = Inl s \<Longrightarrow> s = 0" using run' by (auto split: option.splits if_splits)
  show "tlb_inv cs'"
  proof (cases q)
    case None
    then have "cs' = cs\<lparr>cs_state := st1\<rparr>" using run' by simp
    with inv g t show ?thesis by (auto simp: tlb_inv_def table_grows_def)
  next
    case (Some func)
    with run' e[OF Some] inv g t show ?thesis
      by (auto simp: tlb_inv_def table_grows_def split: if_splits)
  qed
qed

text \<open>
  C1: The quick table is transparent: in a state where it is coherent, dispatching a nonzero guest
  address through it enters the same code and leaves the same state as resolving the address
  in full, with tracing or without.
\<close>

theorem quick_tlb_transparent:
  assumes "tlb_inv cs" and "regdata cs 0 \<noteq> 0"
  shows "dispatch_target sys loc f cs = resolve_func sys loc f cs (regdata cs 0) 0"
proof (cases "fst (quick_tlb cs (unat (QUICK_TLB_HASH (regdata cs 0)))) = regdata cs 0")
  case True
  let ?h = "unat (QUICK_TLB_HASH (regdata cs 0))"
  from True assms have r: "rtld_resolve (cs_objects cs) (regdata cs 0) = Some (snd (quick_tlb cs ?h))"
    and t: "tc_print_trace (st_tc (cs_state cs)) = 0"
    unfolding tlb_inv_def by metis+
  have "(quick_tlb cs)(?h := (regdata cs 0, snd (quick_tlb cs ?h))) = quick_tlb cs"
    using True by (intro fun_upd_idem) (simp add: prod_eq_iff)
  with True r t show ?thesis
    by (simp add: dispatch_target_def resolve_func_def rtld_patch_def)
qed (simp add: dispatch_target_def)

text \<open>A state with one translated function, no quick entries and tracing off.\<close>

definition demo_cpu :: "u64 \<Rightarrow> unit cpu_state" where
  "demo_cpu pc = \<lparr>cs_state = \<lparr>st_rs = \<lparr>rs_rtld = \<lparr>perfmap_fd = -1, perfdump_fd = -1, disp_info = demo_disp,
       objects = snd (rtld_set no_objects 0x401000 0x7000 1 2), plt = 0\<rparr>,
       rs_arenas = fresh_arenas, rs_world = boot_world ()\<rparr>,
     st_translator = demo_translator, rew_time = 0, sigact_tab = (\<lambda>_. \<lparr>sa_handler = 0, sa_flags = 0, sa_restorer = 0, sa_mask = 0\<rparr>),
     st_tsc = \<lparr>tsc_guest_arch = 62, tsc_host_arch = 62, tsc_host_cpu_features = 0, tsc_server_mode = 0, tsc_stack_alignment = 0\<rparr>,
     st_tc = \<lparr>tc_callconv = 0, tc_profile = 0, tc_perf = 0, tc_print_trace = 0, tc_print_regs = 0\<rparr>\<rparr>,
     regdata = (\<lambda>i. if i = 0 then pc else 0), quick_tlb = (\<lambda>_. (0, 0)), sigpending = 0, cs_sigmask = 0,
     cs_sigaltstack = \<lparr>ss_sp = 0, ss_flags = 0, ss_size = 0\<rparr>, cs_siginfo = []\<rparr>"

lemma demo_table:
  "table_inv (snd (rtld_set no_objects 0x401000 0x7000 1 2))"
  "rtld_resolve (snd (rtld_set no_objects 0x401000 0x7000 1 2)) 0x401000 = Some 0x7000"
proof -
  have "fst (rtld_set no_objects 0x401000 0x7000 1 2) = 0"
    using rtld_set_result[OF no_objects_inv, of "0x401000" "0x7000" 1 2]
    by (auto simp: no_objects_resolve no_objects_addr)
  then show "table_inv (snd (rtld_set no_objects 0x401000 0x7000 1 2))"
    "rtld_resolve (snd (rtld_set no_objects 0x401000 0x7000 1 2)) 0x401000 = Some 0x7000"
    using objects.set_ok[OF no_objects_inv, of "0x401000" "0x7000" 1 2] by (metis prod.collapse)+
qed

lemma demo_cpu_inv: "tlb_inv (demo_cpu pc)"
  by (simp add: tlb_inv_def demo_cpu_def demo_table)

lemma demo_dispatch:
  "\<exists>cs. dispatch_target grant_sys 0x1000 (\<lambda>_. 0) (demo_cpu 0x401000) = Some (Inr 0x7000, cs)"
  by (simp add: dispatch_target_def resolve_func_def demo_cpu_def demo_table)

theorem quick_tlb_transparent_witness:
  "regdata (demo_cpu 0x401000) 0 \<noteq> 0 \<and>
   dispatch_target grant_sys 0x1000 (\<lambda>_. 0) (demo_cpu 0x401000) =
   resolve_func grant_sys 0x1000 (\<lambda>_. 0) (demo_cpu 0x401000) (regdata (demo_cpu 0x401000) 0) 0"
proof -
  have nz: "regdata (demo_cpu 0x401000) 0 \<noteq> 0" by (simp add: demo_cpu_def)
  with quick_tlb_transparent[OF demo_cpu_inv nz] show ?thesis by blast
qed

subsection \<open>Runs of the dispatch loop\<close>

text \<open>
  \<open>cdecl_run cs es cs'\<close>: from \<open>cs\<close> the loop dispatches the guest addresses and enters the code listed in
  \<open>es\<close>, and is at the top of the loop in \<open>cs'\<close>.
\<close>

inductive cdecl_run ::
  "'k sysfn \<Rightarrow> u64 \<Rightarrow> (string \<Rightarrow> u64) \<Rightarrow> 'k guest \<Rightarrow> 'k cpu_state \<Rightarrow> (u64 \<times> u64) list \<Rightarrow> 'k cpu_state \<Rightarrow> bool"
  for sys loc f run cs where
  start: "cdecl_run sys loc f run cs [] cs"
| step: "cdecl_run sys loc f run cs es cs1 \<Longrightarrow> dispatch_target sys loc f cs1 = Some (Inr func, cs2) \<Longrightarrow>
    run func cs2 = Some cs3 \<Longrightarrow> cdecl_run sys loc f run cs (es @ [(regdata cs1 0, func)]) cs3"

text \<open>The loop is its runs: it exits in a state that some run reaches.\<close>

lemma cdecl_loop_unfold:
  assumes "cdecl_run sys loc f run cs es cs'"
  shows "dispatch_cdecl_loop sys loc f run cs = dispatch_cdecl_loop sys loc f run cs'"
  using assms
proof induction
  case (step es cs1 func cs2 cs3)
  then show ?case
    by (simp add: dispatch_cdecl_loop.simps[of sys loc f run cs1] dispatch_cdecl_def)
qed simp

text \<open>
  What translated code may do to the client's state: it reaches the tables only through the
  dispatcher's own entry points, which keep the quick table coherent and the function table growing.
\<close>

definition guest_ok :: "'k guest \<Rightarrow> bool" where
  "guest_ok run \<longleftrightarrow> (\<forall>func cs cs'. run func cs = Some cs' \<longrightarrow> tlb_inv cs \<longrightarrow>
     tlb_inv cs' \<and> table_grows (cs_objects cs) (cs_objects cs'))"

lemma dispatch_target_spec:
  assumes "tlb_inv cs" and "dispatch_target sys loc f cs = Some (r, cs')"
  shows "tlb_inv cs'" and "table_grows (cs_objects cs) (cs_objects cs')"
    and "r = Inr e \<Longrightarrow> regdata cs 0 \<noteq> 0 \<Longrightarrow> rtld_resolve (cs_objects cs') (regdata cs 0) = Some e"
proof -
  let ?q = "quick_tlb cs (unat (QUICK_TLB_HASH (regdata cs 0)))"
  have "tlb_inv cs' \<and> table_grows (cs_objects cs) (cs_objects cs') \<and>
    (r = Inr e \<longrightarrow> regdata cs 0 \<noteq> 0 \<longrightarrow> rtld_resolve (cs_objects cs') (regdata cs 0) = Some e)"
  proof (cases "fst ?q = regdata cs 0")
    case True
    with assms(2) have hit: "cs' = cs" "r = Inr (snd ?q)" by (auto simp: dispatch_target_def)
    have "rtld_resolve (cs_objects cs) (regdata cs 0) = Some (snd ?q)" if "regdata cs 0 \<noteq> 0"
      using assms(1) True that unfolding tlb_inv_def by metis
    with assms(1) show ?thesis by (simp add: hit)
  next
    case False
    with assms(2) have miss: "resolve_func sys loc f cs (regdata cs 0) 0 = Some (r, cs')" by (simp add: dispatch_target_def)
    show ?thesis using resolve_func_spec[OF assms(1) miss] by (simp add: wanted_def)
  qed
  then show "tlb_inv cs'" "table_grows (cs_objects cs) (cs_objects cs')"
    "r = Inr e \<Longrightarrow> regdata cs 0 \<noteq> 0 \<Longrightarrow> rtld_resolve (cs_objects cs') (regdata cs 0) = Some e" by simp_all
qed

text \<open>
  C14: However long the loop runs, the code entered for a guest address is the code the function
  table holds for it, and it stays in the table: at any later point every nonzero address
  dispatched so far still resolves to the code that was entered.
\<close>

theorem dispatch_run_coherent:
  assumes "tlb_inv cs" and "guest_ok run" and "cdecl_run sys loc f run cs es cs'"
  shows "tlb_inv cs' \<and> table_grows (cs_objects cs) (cs_objects cs') \<and>
    (\<forall>(a, func) \<in> set es. a \<noteq> 0 \<longrightarrow> rtld_resolve (cs_objects cs') a = Some func)"
  using assms(3)
proof induction
  case start
  with assms(1) show ?case by simp
next
  case (step es cs1 func cs2 cs3)
  have t: "tlb_inv cs1" and g1: "table_grows (cs_objects cs) (cs_objects cs1)"
    and old: "\<forall>(a, func) \<in> set es. a \<noteq> 0 \<longrightarrow> rtld_resolve (cs_objects cs1) a = Some func"
    using step.IH by auto
  note d = dispatch_target_spec[OF t step.hyps(2)]
  have r: "tlb_inv cs3" "table_grows (cs_objects cs2) (cs_objects cs3)"
    using assms(2) step.hyps(3) d(1) by (auto simp: guest_ok_def)
  have g: "table_grows (cs_objects cs1) (cs_objects cs3)" using d(2) r(2) by (rule table_grows_trans)
  have "rtld_resolve (cs_objects cs3) a = Some func'" if "rtld_resolve (cs_objects cs1) a = Some func'" for a func'
    using g t that by (simp add: table_grows_def tlb_inv_def)
  moreover have "rtld_resolve (cs_objects cs3) (regdata cs1 0) = Some func" if "regdata cs1 0 \<noteq> 0"
    using d(1,3) that r(2) by (simp add: table_grows_def tlb_inv_def)
  ultimately show ?case using r(1) table_grows_trans[OF g1 g] old by auto
qed

theorem dispatch_run_coherent_witness:
  "\<exists>cs'. cdecl_run grant_sys 0x1000 (\<lambda>_. 0) (\<lambda>_. Some) (demo_cpu 0x401000) [(0x401000, 0x7000)] cs' \<and>
     rtld_resolve (cs_objects cs') 0x401000 = Some 0x7000"
proof -
  obtain cs where "dispatch_target grant_sys 0x1000 (\<lambda>_. 0) (demo_cpu 0x401000) = Some (Inr 0x7000, cs)"
    using demo_dispatch by blast
  from cdecl_run.step[OF cdecl_run.start this, of "\<lambda>_. Some" cs]
  have run: "cdecl_run grant_sys 0x1000 (\<lambda>_. 0) (\<lambda>_. Some) (demo_cpu 0x401000) [(0x401000, 0x7000)] cs"
    by (simp add: demo_cpu_def)
  have "guest_ok (\<lambda>_. Some :: unit cpu_state \<Rightarrow> _)" by (simp add: guest_ok_def)
  from dispatch_run_coherent[OF demo_cpu_inv this run] run show ?thesis by auto
qed

text \<open>
  An address the invariant says nothing about: with a zeroed quick table, guest address zero counts
  as a hit and the dispatcher enters address zero of the host.
\<close>

lemma dispatch_address_zero:
  "dispatch_target sys loc f (demo_cpu 0) = Some (Inr 0, demo_cpu 0)"
  by (simp add: dispatch_target_def demo_cpu_def)

end
