(* ===== verification/Dispatch_Asm.thy ===== *)
theory Dispatch_Asm
  imports Dispatch
begin

text \<open>
  The assembly dispatchers of \<^verbatim>\<open>client/dispatch.c\<close>, on a machine with the registers and the memory
  they use: the HHVM convention on x86-64 and the AAPCS-X convention on aarch64. They read the
  quick table at its place in memory, behind the guest registers of the \<^verbatim>\<open>CpuState\<close>.
\<close>

unbundle bit_operations_syntax

abbreviation (input) CPU_STATE_REGDATA_OFFSET :: u64 where "CPU_STATE_REGDATA_OFFSET \<equiv> 0x40"
abbreviation (input) CPU_STATE_QTLB_OFFSET :: u64 where "CPU_STATE_QTLB_OFFSET \<equiv> 0x440"

text \<open>The constant \<^verbatim>\<open>((1 << QUICK_TLB_BITS) - 1) << QUICK_TLB_BITOFF\<close>.\<close>

definition QUICK_TLB_MASK :: u64 where
  "QUICK_TLB_MASK = push_bit 4 (push_bit 10 1 - 1)"

subsection \<open>HHVM on x86-64\<close>

datatype reg = RAX | RCX | RDX | RBX | RSP | RBP | RSI | RDI
  | R8 | R9 | R10 | R11 | R12 | R13 | R14 | R15

record machine =
  xreg :: "reg \<Rightarrow> u64"
  xmm :: "nat \<Rightarrow> 128 word"
  xmem :: memory

text \<open>The instructions the dispatcher uses; a load has a base register and a displacement.\<close>

datatype xinstr = Push reg | Pop reg | Mov reg reg | Load reg reg u64 | AndImm reg u64 | Zero reg

fun exec1 :: "xinstr \<Rightarrow> machine \<Rightarrow> machine" where
  "exec1 (Push r) ms = (let sp = xreg ms RSP - 8 in
     ms\<lparr>xreg := (xreg ms)(RSP := sp), xmem := store64 (xmem ms) sp (xreg ms r)\<rparr>)"
| "exec1 (Pop r) ms = (let sp = xreg ms RSP in
     ms\<lparr>xreg := (xreg ms)(RSP := sp + 8, r := load64 (xmem ms) sp)\<rparr>)"
| "exec1 (Mov d s) ms = ms\<lparr>xreg := (xreg ms)(d := xreg ms s)\<rparr>"
| "exec1 (Load d b disp) ms = ms\<lparr>xreg := (xreg ms)(d := load64 (xmem ms) (xreg ms b + disp))\<rparr>"
| "exec1 (AndImm d v) ms = ms\<lparr>xreg := (xreg ms)(d := xreg ms d AND v)\<rparr>"
| "exec1 (Zero d) ms = ms\<lparr>xreg := (xreg ms)(d := 0)\<rparr>"

definition exec :: "xinstr list \<Rightarrow> machine \<Rightarrow> machine" where
  "exec is ms = foldl (\<lambda>ms i. exec1 i ms) ms is"

definition caller_saved :: "reg list" where
  "caller_saved = [RAX, RCX, RDX, RSI, RDI, R8, R9, R10, R11]"

definition fullresolve_args :: "xinstr list" where
  "fullresolve_args = [Load RDI R12 (- CPU_STATE_REGDATA_OFFSET), Mov RSI RBX, Mov RDX R14]"

text \<open>
  The call of \<^verbatim>\<open>resolve_func\<close> is a parameter: it maps the machine at the call instruction to the
  machine behind it. The result is the target of the final jump.
\<close>

definition dispatch_hhvm_fullresolve :: "(machine \<Rightarrow> machine) \<Rightarrow> machine \<Rightarrow> u64 \<times> machine" where
  "dispatch_hhvm_fullresolve resolve ms =
     (let ms1 = exec (map Push caller_saved @ fullresolve_args) ms;
          ms2 = resolve ms1;
          ms3 = exec (Mov R14 RAX # map Pop (rev caller_saved)) ms2
      in (xreg ms3 R14, ms3))"

text \<open>The lookup shared by all three entry points: the target on a hit.\<close>

definition hhvm_probe :: "machine \<Rightarrow> u64 option \<times> machine" where
  "hhvm_probe ms =
     (let ms1 = exec [Mov R14 RBX, AndImm R14 QUICK_TLB_MASK] ms;
          slot = xreg ms1 R12 + 1 * xreg ms1 R14 - CPU_STATE_REGDATA_OFFSET + CPU_STATE_QTLB_OFFSET
      in (if xreg ms1 RBX = load64 (xmem ms1) slot then Some (load64 (xmem ms1) (slot + 8)) else None, ms1))"

definition dispatch_hhvm_tail :: "(machine \<Rightarrow> machine) \<Rightarrow> machine \<Rightarrow> u64 \<times> machine" where
  "dispatch_hhvm_tail resolve ms =
     (case hhvm_probe ms of
        (Some target, ms1) \<Rightarrow> (target, ms1)
      | (None, ms1) \<Rightarrow> dispatch_hhvm_fullresolve resolve (exec [Zero R14] ms1))"

text \<open>
  A call pushes its return address \<open>ra\<close>; \<open>enter\<close> runs the translated code at an address until it
  returns, and is undefined when it does not.
\<close>

definition push_return :: "u64 \<Rightarrow> machine \<Rightarrow> machine" where
  "push_return ra ms = (let sp = xreg ms RSP - 8 in
     ms\<lparr>xreg := (xreg ms)(RSP := sp), xmem := store64 (xmem ms) sp ra\<rparr>)"

definition dispatch_hhvm_call ::
  "(machine \<Rightarrow> machine) \<Rightarrow> (u64 \<Rightarrow> machine \<Rightarrow> machine option) \<Rightarrow> u64 \<Rightarrow> machine \<Rightarrow> machine option" where
  "dispatch_hhvm_call resolve enter ra ms =
     (case hhvm_probe ms of
        (Some target, ms1) \<Rightarrow> enter target (push_return ra ms1)
      | (None, ms1) \<Rightarrow>
          case dispatch_hhvm_fullresolve resolve (push_return ra (exec [Zero R14] ms1)) of
            (target, ms2) \<Rightarrow> enter target ms2)"

definition hhvm_loads :: "(reg \<times> nat) list" where
  "hhvm_loads = [(RBX, 0), (RAX, 1), (RCX, 2), (RDX, 3), (RBP, 4), (R15, 5), (R13, 6), (RSI, 7),
     (RDI, 8), (R8, 9), (R9, 10), (R10, 11), (R11, 12)]"

partial_function (option) hhvm_loop ::
  "(machine \<Rightarrow> machine) \<Rightarrow> (u64 \<Rightarrow> machine \<Rightarrow> machine option) \<Rightarrow> u64 \<Rightarrow> machine \<Rightarrow> machine option" where
  "hhvm_loop resolve enter ra ms =
     (case hhvm_probe ms of
        (Some target, ms1) \<Rightarrow>
          (case enter target (push_return ra ms1) of None \<Rightarrow> None | Some ms2 \<Rightarrow> hhvm_loop resolve enter ra ms2)
      | (None, ms1) \<Rightarrow>
          (case dispatch_hhvm_fullresolve resolve (push_return ra (exec [Zero R14] ms1)) of
             (target, ms2) \<Rightarrow>
               (case enter target ms2 of None \<Rightarrow> None | Some ms3 \<Rightarrow> hhvm_loop resolve enter ra ms3)))"

definition dispatch_hhvm ::
  "(machine \<Rightarrow> machine) \<Rightarrow> (u64 \<Rightarrow> machine \<Rightarrow> machine option) \<Rightarrow> u64 \<Rightarrow> machine \<Rightarrow> machine option" where
  "dispatch_hhvm resolve enter ra ms =
     (let ms1 = exec (Mov R12 RDI # map (\<lambda>(r, i). Load r R12 (of_nat i * 8)) hhvm_loads) ms in
      case dispatch_hhvm_fullresolve resolve (push_return ra (exec [Zero R14] ms1)) of
        (target, ms2) \<Rightarrow> (case enter target ms2 of None \<Rightarrow> None | Some ms3 \<Rightarrow> hhvm_loop resolve enter ra ms3))"

subsection \<open>AAPCS-X on aarch64\<close>

record amachine =
  ax :: "nat \<Rightarrow> u64"
  aq :: "nat \<Rightarrow> 128 word"
  asp :: u64
  amem :: memory

definition aapcsx_probe :: "amachine \<Rightarrow> u64 option \<times> amachine" where
  "aapcsx_probe s =
     (let x17 = ax s 20 + (- CPU_STATE_REGDATA_OFFSET + CPU_STATE_QTLB_OFFSET);
          x16 = ax s 0 AND QUICK_TLB_MASK;
          p = x17 + push_bit (4 - 4) x16;
          key = load64 (amem s) p; val = load64 (amem s) (p + 8);
          s1 = s\<lparr>ax := (ax s)(16 := key, 17 := val)\<rparr>
      in (if key = ax s 0 then Some val else None, s1))"

text \<open>The pairs of registers in the frame, at their offsets.\<close>

definition aapcsx_x_pairs :: "(nat \<times> nat \<times> u64) list" where
  "aapcsx_x_pairs = [(18, 30, 0), (0, 1, 0x10), (2, 3, 0x20), (4, 5, 0x30), (6, 7, 0x40), (8, 9, 0x50),
     (10, 11, 0x60), (12, 13, 0x70), (14, 15, 0x80)]"

definition aapcsx_q_pairs :: "(nat \<times> nat \<times> u64) list" where
  "aapcsx_q_pairs = [(0, 1, 0x90), (2, 3, 0xb0), (4, 5, 0xd0), (6, 7, 0xf0), (6, 7, 0x110), (8, 9, 0x130),
     (10, 11, 0x150), (12, 13, 0x170), (14, 15, 0x190), (16, 17, 0x1b0), (18, 19, 0x1d0), (20, 21, 0x1f0),
     (22, 23, 0x210), (24, 25, 0x230), (26, 27, 0x250), (28, 29, 0x270), (30, 31, 0x290)]"

definition stp_x :: "nat \<times> nat \<times> u64 \<Rightarrow> amachine \<Rightarrow> amachine" where
  "stp_x p s = (case p of (i, j, off) \<Rightarrow>
     s\<lparr>amem := write_bytes (amem s) (asp s + off) (le_bytes 8 (ax s i) @ le_bytes 8 (ax s j))\<rparr>)"

definition stp_q :: "nat \<times> nat \<times> u64 \<Rightarrow> amachine \<Rightarrow> amachine" where
  "stp_q p s = (case p of (i, j, off) \<Rightarrow>
     s\<lparr>amem := write_bytes (amem s) (asp s + off) (le_bytes 16 (aq s i) @ le_bytes 16 (aq s j))\<rparr>)"

definition ldp_x :: "nat \<times> nat \<times> u64 \<Rightarrow> amachine \<Rightarrow> amachine" where
  "ldp_x p s = (case p of (i, j, off) \<Rightarrow>
     s\<lparr>ax := (ax s)(i := le_word (read_bytes (amem s) (asp s + off) 8),
                    j := le_word (read_bytes (amem s) (asp s + off + 8) 8))\<rparr>)"

definition ldp_q :: "nat \<times> nat \<times> u64 \<Rightarrow> amachine \<Rightarrow> amachine" where
  "ldp_q p s = (case p of (i, j, off) \<Rightarrow>
     s\<lparr>aq := (aq s)(i := le_word (read_bytes (amem s) (asp s + off) 16),
                    j := le_word (read_bytes (amem s) (asp s + off + 16) 16))\<rparr>)"

definition run_all :: "('a \<Rightarrow> 's \<Rightarrow> 's) \<Rightarrow> 'a list \<Rightarrow> 's \<Rightarrow> 's" where
  "run_all f xs s = foldl (\<lambda>s x. f x s) s xs"

definition aapcsx_save :: "amachine \<Rightarrow> amachine" where
  "aapcsx_save s = run_all stp_q aapcsx_q_pairs (run_all stp_x aapcsx_x_pairs (s\<lparr>asp := asp s - 0x2b0\<rparr>))"

definition aapcsx_restore :: "amachine \<Rightarrow> amachine" where
  "aapcsx_restore s =
     (let s1 = run_all ldp_q aapcsx_q_pairs (run_all ldp_x aapcsx_x_pairs s) in s1\<lparr>asp := asp s1 + 0x2b0\<rparr>)"

definition dispatch_aapcsx_fullresolve :: "(amachine \<Rightarrow> amachine) \<Rightarrow> amachine \<Rightarrow> u64 \<times> amachine" where
  "dispatch_aapcsx_fullresolve resolve s =
     (let s1 = aapcsx_save s;
          s2 = s1\<lparr>ax := (ax s1)(1 := ax s1 0, 0 := ax s1 20 - CPU_STATE_REGDATA_OFFSET, 2 := ax s1 16)\<rparr>;
          s3 = resolve s2;
          s4 = aapcsx_restore (s3\<lparr>ax := (ax s3)(16 := ax s3 0)\<rparr>)
      in (ax s4 16, s4))"

definition dispatch_aapcsx :: "(amachine \<Rightarrow> amachine) \<Rightarrow> amachine \<Rightarrow> u64 \<times> amachine" where
  "dispatch_aapcsx resolve s =
     (case aapcsx_probe s of
        (Some target, s1) \<Rightarrow> (target, s1)
      | (None, s1) \<Rightarrow> dispatch_aapcsx_fullresolve resolve (s1\<lparr>ax := (ax s1)(16 := 0)\<rparr>))"

text \<open>The link register is x30; \<open>enter\<close> runs translated code until it returns to it.\<close>

partial_function (option) aapcsx_loop ::
  "(amachine \<Rightarrow> amachine) \<Rightarrow> (u64 \<Rightarrow> amachine \<Rightarrow> amachine option) \<Rightarrow> u64 \<Rightarrow> amachine \<Rightarrow> amachine option" where
  "aapcsx_loop resolve enter ra s =
     (case aapcsx_probe s of
        (Some target, s1) \<Rightarrow>
          (case enter target (s1\<lparr>ax := (ax s1)(30 := ra)\<rparr>) of
             None \<Rightarrow> None | Some s2 \<Rightarrow> aapcsx_loop resolve enter ra s2)
      | (None, s1) \<Rightarrow>
          (case dispatch_aapcsx_fullresolve resolve (s1\<lparr>ax := (ax s1)(16 := 0, 30 := ra)\<rparr>) of
             (target, s2) \<Rightarrow>
               (case enter target s2 of None \<Rightarrow> None | Some s3 \<Rightarrow> aapcsx_loop resolve enter ra s3)))"

definition aapcsx_loads :: "(nat \<times> u64) list" where
  "aapcsx_loads = [(1, 0x8), (2, 0x10), (3, 0x18), (4, 0x20), (5, 0x28), (6, 0x38), (7, 0x40)]"

definition dispatch_aapcsx_loop ::
  "(amachine \<Rightarrow> amachine) \<Rightarrow> (u64 \<Rightarrow> amachine \<Rightarrow> amachine option) \<Rightarrow> u64 \<Rightarrow> amachine \<Rightarrow> amachine option" where
  "dispatch_aapcsx_loop resolve enter ra s =
     (let rd = ax s 0;
          s1 = s\<lparr>ax := (ax s)(20 := rd, 0 := load64 (amem s) rd)\<rparr>;
          s2 = run_all (\<lambda>(i, off) s. s\<lparr>ax := (ax s)(i := load64 (amem s) (ax s 20 + off))\<rparr>) aapcsx_loads s1
      in aapcsx_loop resolve enter ra s2)"

subsection \<open>Selecting the dispatcher\<close>

text \<open>
  The table of \<^verbatim>\<open>dispatch_get\<close>, given the addresses of the functions. The array has an entry for every
  index up to the largest one initialised; the ones not mentioned are zero.
\<close>

definition no_dispatcher :: dispatcher_info where
  "no_dispatcher = \<lparr>loop_func = 0, quick_dispatch_func = 0, full_dispatch_func = 0, patch_data_reg = 0\<rparr>"

definition cdecl_info :: "(string \<Rightarrow> u64) \<Rightarrow> dispatcher_info" where
  "cdecl_info f = \<lparr>loop_func = f ''dispatch_cdecl_loop'', quick_dispatch_func = f ''dispatch_cdecl'',
     full_dispatch_func = f ''dispatch_cdecl'', patch_data_reg = 6\<rparr>"

definition dispatch_infos :: "bool \<Rightarrow> (string \<Rightarrow> u64) \<Rightarrow> dispatcher_info list" where
  "dispatch_infos aarch64 f =
     (if aarch64 then
        [cdecl_info f, no_dispatcher, no_dispatcher,
         \<lparr>loop_func = f ''dispatch_aapcsx_loop'', quick_dispatch_func = f ''dispatch_aapcsx'',
          full_dispatch_func = f ''dispatch_aapcsx_fullresolve'', patch_data_reg = 16\<rparr>]
      else
        [cdecl_info f,
         \<lparr>loop_func = f ''dispatch_hhvm'', quick_dispatch_func = f ''dispatch_hhvm_tail'',
          full_dispatch_func = f ''dispatch_hhvm_fullresolve'', patch_data_reg = 14\<rparr>])"

definition dispatch_get :: "bool \<Rightarrow> (string \<Rightarrow> u64) \<Rightarrow> 'k state \<Rightarrow> dispatcher_info option" where
  "dispatch_get aarch64 f st =
     (let infos = dispatch_infos aarch64 f; callconv = unat (tc_callconv (st_tc st)) in
      if callconv < length infos then Some (infos ! callconv) else None)"
subsection \<open>The lookup\<close>

text \<open>The quick table in memory, and the lookup of \<^verbatim>\<open>dispatch_cdecl\<close> in it.\<close>

definition tlb_at :: "memory \<Rightarrow> u64 \<Rightarrow> nat \<Rightarrow> u64 \<times> u64" where
  "tlb_at m cpu h = (load64 m (cpu + CPU_STATE_QTLB_OFFSET + of_nat (16 * h)),
     load64 m (cpu + CPU_STATE_QTLB_OFFSET + of_nat (16 * h) + 8))"

definition tlb_lookup :: "(nat \<Rightarrow> u64 \<times> u64) \<Rightarrow> u64 \<Rightarrow> u64 option" where
  "tlb_lookup tlb addr = (let e = tlb (unat (QUICK_TLB_HASH addr)) in if fst e = addr then Some (snd e) else None)"

lemma and_push_bit: "x AND push_bit n m = push_bit n (drop_bit n x AND (m :: 'a::len word))"
  by (rule bit_word_eqI) (auto simp: bit_simps)

lemma mask_offset: "addr AND QUICK_TLB_MASK = of_nat (16 * unat (QUICK_TLB_HASH addr))"
proof -
  have "addr AND QUICK_TLB_MASK = push_bit 4 (QUICK_TLB_HASH addr)"
    by (simp only: QUICK_TLB_MASK_def QUICK_TLB_HASH_def and_push_bit)
  then show ?thesis by (simp add: push_bit_eq_mult mult.commute)
qed

lemma tlb_hash_bound: "unat (QUICK_TLB_HASH addr) < 1024"
proof -
  have "QUICK_TLB_HASH addr = take_bit 10 (drop_bit 4 addr)"
    by (simp add: QUICK_TLB_HASH_def take_bit_eq_mask mask_eq_exp_minus_1)
  then show ?thesis using take_bit_nat_less_exp[of 10 "unat (drop_bit 4 addr)"]
    by (simp add: unsigned_take_bit_eq)
qed

text \<open>
  C36: The assembly dispatchers look an address up in the same place and with the same outcome as
  the C code: with the register base 0x40 behind the CPU state, both the x86-64 and the aarch64
  sequence hit exactly when entry QUICK_TLB_HASH(addr) holds the address, and then take its code;
  the entry is always one of the 1024 of the table.
\<close>

theorem asm_lookups_agree:
  "fst (hhvm_probe ms) = tlb_lookup (tlb_at (xmem ms) (xreg ms R12 - 0x40)) (xreg ms RBX) \<and>
   fst (aapcsx_probe s) = tlb_lookup (tlb_at (amem s) (ax s 20 - 0x40)) (ax s 0) \<and>
   unat (QUICK_TLB_HASH addr) < 1024"
proof -
  have "fst (hhvm_probe ms) = tlb_lookup (tlb_at (xmem ms) (xreg ms R12 - 0x40)) (xreg ms RBX)"
    by (auto simp: hhvm_probe_def exec_def tlb_lookup_def tlb_at_def mask_offset Let_def algebra_simps simp del: of_nat_mult)
  moreover have "fst (aapcsx_probe s) = tlb_lookup (tlb_at (amem s) (ax s 20 - 0x40)) (ax s 0)"
    by (auto simp: aapcsx_probe_def tlb_lookup_def tlb_at_def mask_offset Let_def algebra_simps simp del: of_nat_mult)
  ultimately show ?thesis by (simp add: tlb_hash_bound)
qed

subsection \<open>Saving registers around the call\<close>

lemma exec_Nil [simp]: "exec [] ms = ms"
  by (simp add: exec_def)

lemma exec_Cons [simp]: "exec (i # is) ms = exec is (exec1 i ms)"
  by (simp add: exec_def)

lemma exec_append: "exec (xs @ ys) ms = exec ys (exec xs ms)"
  by (simp add: exec_def)

lemma load64_cong:
  assumes "\<And>x. x \<in> range_at p 8 \<Longrightarrow> m' x = m x"
  shows "load64 m' p = load64 m p"
  unfolding load64_def by (intro arg_cong[where f = le_word] read_bytes_cong assms range_at_offset) auto

lemma range_at_sub:
  assumes "unat (b - a) + k \<le> n" and "n \<le> 2 ^ 64"
  shows "range_at b k \<subseteq> range_at a n"
proof
  fix x assume "x \<in> range_at b k"
  then have x: "unat (x - b) < k" by (simp add: range_at_def)
  have "x - a = (x - b) + (b - a)" by simp
  then have "unat (x - a) \<le> unat (x - b) + unat (b - a)"
    using unat_word_ariths(1)[of "x - b" "b - a"] by (simp only:) simp
  with x assms(1) show "x \<in> range_at a n" by (simp add: range_at_def)
qed

text \<open>Pushing registers lays them out below the stack pointer.\<close>

lemma push_all:
  assumes "RSP \<notin> set rs" and "8 * length rs < 2 ^ 60"
  shows "xreg (exec (map Push rs) ms) = (xreg ms)(RSP := xreg ms RSP - of_nat (8 * length rs)) \<and>
    (\<forall>i < length rs.
      load64 (xmem (exec (map Push rs) ms)) (xreg ms RSP - of_nat (8 * (i + 1))) = xreg ms (rs ! i)) \<and>
    (\<forall>x. x \<notin> range_at (xreg ms RSP - of_nat (8 * length rs)) (8 * length rs) \<longrightarrow>
      xmem (exec (map Push rs) ms) x = xmem ms x)"
  using assms
proof (induction rs rule: rev_induct)
  case (snoc r rs)
  let ?sp = "xreg ms RSP" and ?n = "length rs" and ?e = "exec (map Push rs) ms"
  have pre: "RSP \<notin> set rs" "8 * length rs < 2 ^ 60" using snoc.prems by auto
  have IH: "xreg ?e = (xreg ms)(RSP := ?sp - of_nat (8 * ?n))"
    and IHl: "\<And>i. i < ?n \<Longrightarrow> load64 (xmem ?e) (?sp - of_nat (8 * (i + 1))) = xreg ms (rs ! i)"
    and IHo: "\<And>x. x \<notin> range_at (?sp - of_nat (8 * ?n)) (8 * ?n) \<Longrightarrow> xmem ?e x = xmem ms x"
    using snoc.IH[OF pre] by blast+
  have sp: "?sp - of_nat (8 * ?n) - 8 = ?sp - of_nat (8 * Suc ?n)" by (simp add: algebra_simps)
  have ex: "exec (map Push (rs @ [r])) ms =
      ?e\<lparr>xreg := (xreg ms)(RSP := ?sp - of_nat (8 * Suc ?n)),
         xmem := store64 (xmem ?e) (?sp - of_nat (8 * Suc ?n)) (xreg ms r)\<rparr>"
    using snoc.prems by (auto simp: exec_append IH Let_def diff_diff_eq add.commute)
  have 1: "xreg (exec (map Push (rs @ [r])) ms) = (xreg ms)(RSP := ?sp - of_nat (8 * length (rs @ [r])))"
    by (simp only: ex) simp
  have 2: "load64 (xmem (exec (map Push (rs @ [r])) ms)) (?sp - of_nat (8 * (i + 1))) = xreg ms ((rs @ [r]) ! i)"
    if "i < length (rs @ [r])" for i
  proof (cases "i = ?n")
    case False
    with that have i: "i < ?n" by simp
    have d: "?sp - of_nat (8 * (i + 1)) - (?sp - of_nat (8 * Suc ?n)) = of_nat (8 * (?n - i))"
      using i by (simp add: of_nat_diff algebra_simps)
    have u: "unat (of_nat (8 * (?n - i)) :: u64) = 8 * (?n - i)"
      using snoc.prems by (intro unat_of_nat_64) simp
    have "range_at (?sp - of_nat (8 * Suc ?n)) 8 \<inter> range_at (?sp - of_nat (8 * (i + 1))) 8 = {}"
      by (rule range_at_disjoint; simp only: d u) (use i snoc.prems in auto)
    then show ?thesis using i IHl[OF i] by (simp only: ex) (simp add: load64_other nth_append del: of_nat_mult of_nat_Suc)
  qed (simp only: ex, simp add: mem_simps)
  have 3: "xmem (exec (map Push (rs @ [r])) ms) x = xmem ms x"
    if x: "x \<notin> range_at (?sp - of_nat (8 * length (rs @ [r]))) (8 * length (rs @ [r]))" for x
  proof -
    have d: "?sp - of_nat (8 * ?n) - (?sp - of_nat (8 * Suc ?n)) = 8" by (simp add: algebra_simps)
    have "range_at (?sp - of_nat (8 * ?n)) (8 * ?n) \<subseteq> range_at (?sp - of_nat (8 * Suc ?n)) (8 * Suc ?n)"
      using snoc.prems by (intro range_at_sub) (simp_all only: d, auto)
    moreover have "range_at (?sp - of_nat (8 * Suc ?n)) 8 \<subseteq> range_at (?sp - of_nat (8 * Suc ?n)) (8 * Suc ?n)"
      using snoc.prems by (intro range_at_sub) auto
    ultimately have "x \<notin> range_at (?sp - of_nat (8 * Suc ?n)) 8"
      "x \<notin> range_at (?sp - of_nat (8 * ?n)) (8 * ?n)" using x by auto
    then show ?thesis using IHo[of x]
      by (simp only: ex) (simp add: store64_def write_bytes_outside del: le_bytes.simps of_nat_mult of_nat_Suc)
  qed
  from 1 2 3 show ?case by blast
qed simp

lemma pop_all:
  assumes "distinct rs" and "RSP \<notin> set rs"
    and "xreg ms RSP = sp - of_nat (8 * length rs)"
    and "\<And>i. i < length rs \<Longrightarrow> load64 (xmem ms) (sp - of_nat (8 * (i + 1))) = v (rs ! i)"
  shows "exec (map Pop (rev rs)) ms =
    ms\<lparr>xreg := (\<lambda>r. if r \<in> set rs then v r else if r = RSP then sp else xreg ms r)\<rparr>"
  using assms
proof (induction rs arbitrary: ms rule: rev_induct)
  case Nil
  then have "(\<lambda>r. if r = RSP then sp else xreg ms r) = xreg ms" by auto
  then show ?case by simp
next
  case (snoc r rs)
  let ?ms = "exec1 (Pop r) ms"
  have "load64 (xmem ms) (xreg ms RSP) = v r"
    using snoc.prems(4)[of "length rs"] snoc.prems(3) by simp
  then have ms: "?ms = ms\<lparr>xreg := (xreg ms)(RSP := sp - of_nat (8 * length rs), r := v r)\<rparr>"
    using snoc.prems(3) by (simp add: Let_def)
  have "exec (map Pop (rev rs)) ?ms =
      ?ms\<lparr>xreg := (\<lambda>r. if r \<in> set rs then v r else if r = RSP then sp else xreg ?ms r)\<rparr>"
  proof (rule snoc.IH)
    show "load64 (xmem ?ms) (sp - of_nat (8 * (i + 1))) = v (rs ! i)" if "i < length rs" for i
      using snoc.prems(4)[of i] that by (simp add: Let_def nth_append del: of_nat_mult of_nat_Suc)
  qed (use snoc.prems in \<open>auto simp: Let_def\<close>)
  then show ?case using snoc.prems(1,2) by (auto simp: Let_def ms[simplified Let_def exec1.simps] intro!: arg_cong[where f = "\<lambda>f. ms\<lparr>xreg := f\<rparr>"])
qed
text \<open>
  What the System V calling convention promises of a call: the callee-saved registers and the stack
  frame of the caller, here \<open>n\<close> bytes at the stack pointer, are as before. It promises nothing of the
  vector registers.
\<close>

definition callee_saved :: "reg list" where
  "callee_saved = [RBX, RBP, RSP, R12, R13, R14, R15]"

definition sysv_call :: "(machine \<Rightarrow> machine) \<Rightarrow> nat \<Rightarrow> bool" where
  "sysv_call call n \<longleftrightarrow> (\<forall>ms. (\<forall>r \<in> set callee_saved. xreg (call ms) r = xreg ms r) \<and>
     (\<forall>x \<in> range_at (xreg ms RSP) n. xmem (call ms) x = xmem ms x))"

lemma aligned_call: "(x :: u64) AND 15 = 8 \<Longrightarrow> (x - 72) AND 15 = 0"
proof -
  have m: "unat (y AND 15) = unat y mod 16" for y :: u64
  proof -
    have "y AND 15 = take_bit 4 y" by (simp add: take_bit_eq_mask mask_eq_exp_minus_1)
    then show ?thesis by (simp only: unsigned_take_bit_eq) (simp add: take_bit_eq_mod)
  qed
  assume "x AND 15 = 8"
  then have x: "unat x mod 16 = 8" using m[of x] by simp
  have "unat x = (unat (x - 72) + 72) mod 2 ^ 64"
    using unat_word_ariths(1)[of "x - 72" 72] by simp
  then have "unat x mod 16 = (unat (x - 72) + 72) mod 16"
    by (simp only:) (subst mod_mod_cancel, simp_all)
  with x have "unat (x - 72) mod 16 = 0" by presburger
  then show ?thesis using m[of "x - 72"] by (simp add: unat_eq_0)
qed

lemma fullresolve_frame:
  fixes ms :: machine
  defines "c \<equiv> exec (map Push caller_saved @ fullresolve_args) ms"
  assumes "range_at (xreg ms RSP - 72) 72 \<inter> range_at (xreg ms R12 - 0x40) 8 = {}"
  shows "xreg c = (xreg ms)(RSP := xreg ms RSP - 72, RDI := load64 (xmem ms) (xreg ms R12 - 0x40),
      RSI := xreg ms RBX, RDX := xreg ms R14)"
    and "i < 9 \<Longrightarrow> load64 (xmem c) (xreg ms RSP - of_nat (8 * (i + 1))) = xreg ms (caller_saved ! i)"
proof -
  let ?e = "exec (map Push caller_saved) ms"
  have l: "length caller_saved = 9" and n: "RSP \<notin> set caller_saved" by (simp_all add: caller_saved_def)
  note p = push_all[OF n, of ms, unfolded l, simplified]
  have r: "xreg ?e = (xreg ms)(RSP := xreg ms RSP - 72)" using p by simp
  have "load64 (xmem ?e) (xreg ms R12 - 0x40) = load64 (xmem ms) (xreg ms R12 - 0x40)"
    by (rule load64_cong) (use p assms(2) in auto)
  with r show "xreg c = (xreg ms)(RSP := xreg ms RSP - 72, RDI := load64 (xmem ms) (xreg ms R12 - 0x40),
      RSI := xreg ms RBX, RDX := xreg ms R14)"
    by (simp add: c_def exec_append fullresolve_args_def fun_eq_iff)
  have "xmem c = xmem ?e" by (simp add: c_def exec_append fullresolve_args_def)
  then show "i < 9 \<Longrightarrow> load64 (xmem c) (xreg ms RSP - of_nat (8 * (i + 1))) = xreg ms (caller_saved ! i)"
    using push_all[OF n, of ms, unfolded l] by simp
qed

text \<open>
  C7: The full resolution on x86-64 keeps the general-purpose registers, which carry the guest's registers in
  the HHVM convention: for a resolve_func that keeps to the calling convention, it is called with the CPU state's self
  pointer, the guest address and the patch data, on a stack aligned to 16 bytes; the jump goes
  to the address it returns, and apart from r14, which holds that address, every general-purpose
  register is as before, the stack pointer included. The vector registers are not saved:
  they are left as the call leaves them.
\<close>

theorem hhvm_fullresolve_transparent:
  assumes "sysv_call resolve 72"
    and "range_at (xreg ms RSP - 72) 72 \<inter> range_at (xreg ms R12 - 0x40) 8 = {}"
    and "xreg ms RSP AND 15 = 8"
  shows "case dispatch_hhvm_fullresolve resolve ms of (target, ms') \<Rightarrow>
    \<exists>c. xreg c RDI = load64 (xmem ms) (xreg ms R12 - 0x40) \<and> xreg c RSI = xreg ms RBX \<and>
      xreg c RDX = xreg ms R14 \<and> xreg c RSP AND 15 = 0 \<and> xmm c = xmm ms \<and>
      target = xreg (resolve c) RAX \<and> xmem ms' = xmem (resolve c) \<and>
      xreg ms' = (xreg ms)(R14 := target) \<and> xmm ms' = xmm (resolve c)"
proof -
  define c where "c = exec (map Push caller_saved @ fullresolve_args) ms"
  let ?d = "exec1 (Mov R14 RAX) (resolve c)" and ?t = "xreg (resolve c) RAX"
  note f = fullresolve_frame[OF assms(2), folded c_def]
  have keep: "xreg (resolve c) r = xreg c r" if "r \<in> set callee_saved" for r
    using assms(1) that by (simp add: sysv_call_def)
  have frame: "xmem (resolve c) x = xmem c x" if "x \<in> range_at (xreg ms RSP - 72) 72" for x
    using assms(1) that f(1) by (simp add: sysv_call_def)
  have "load64 (xmem ?d) (xreg ms RSP - of_nat (8 * (i + 1))) = xreg ms (caller_saved ! i)" if "i < 9" for i
  proof -
    have d: "xreg ms RSP - of_nat (8 * (i + 1)) - (xreg ms RSP - 72) = of_nat (8 * (8 - i))"
      using that by (simp add: of_nat_diff algebra_simps)
    have "range_at (xreg ms RSP - of_nat (8 * (i + 1))) 8 \<subseteq> range_at (xreg ms RSP - 72) 72"
      using that by (intro range_at_sub) (simp_all only: d, simp_all add: unat_of_nat_64 del: of_nat_mult)
    then have "load64 (xmem (resolve c)) (xreg ms RSP - of_nat (8 * (i + 1))) =
        load64 (xmem c) (xreg ms RSP - of_nat (8 * (i + 1)))"
      using frame by (intro load64_cong) auto
    with f(2)[OF that] show ?thesis by (simp del: of_nat_mult of_nat_Suc)
  qed
  then have "exec (map Pop (rev caller_saved)) ?d =
      ?d\<lparr>xreg := (\<lambda>r. if r \<in> set caller_saved then xreg ms r else if r = RSP then xreg ms RSP else xreg ?d r)\<rparr>"
    by (intro pop_all) (simp_all add: caller_saved_def keep[unfolded callee_saved_def] f(1))
  moreover have "(\<lambda>r. if r \<in> set caller_saved then xreg ms r else if r = RSP then xreg ms RSP else xreg ?d r) =
      (xreg ms)(R14 := ?t)"
  proof
    fix r show "(if r \<in> set caller_saved then xreg ms r else if r = RSP then xreg ms RSP else xreg ?d r) =
        ((xreg ms)(R14 := ?t)) r"
      using keep[of r] by (cases r) (simp_all add: caller_saved_def callee_saved_def f(1))
  qed
  ultimately have "exec (Mov R14 RAX # map Pop (rev caller_saved)) (resolve c) =
      ?d\<lparr>xreg := (xreg ms)(R14 := ?t)\<rparr>" by simp
  then have "dispatch_hhvm_fullresolve resolve ms = (?t, ?d\<lparr>xreg := (xreg ms)(R14 := ?t)\<rparr>)"
    by (simp add: dispatch_hhvm_fullresolve_def Let_def c_def[symmetric] del: exec_Cons)
  moreover have "xmm c = xmm ms"
    by (simp add: c_def caller_saved_def fullresolve_args_def Let_def)
  ultimately show ?thesis
    by (auto intro!: exI[of _ c] simp: f(1) aligned_call[OF assms(3)])
qed

text \<open>A machine at the entry of the dispatcher, and a resolver that clobbers what it may.\<close>

definition demo_machine :: machine where
  "demo_machine = \<lparr>xreg = (\<lambda>_. 5)(RSP := 0x8008, R12 := 0x1040, RBX := 0x401000), xmm = (\<lambda>_. 9), xmem = (\<lambda>_. 0)\<rparr>"

definition demo_resolve :: "machine \<Rightarrow> machine" where
  "demo_resolve ms = ms\<lparr>xreg := (xreg ms)(RAX := 0x7000, RCX := 0, R11 := 0), xmm := (\<lambda>_. 0)\<rparr>"

theorem hhvm_fullresolve_transparent_witness:
  "fst (dispatch_hhvm_fullresolve demo_resolve demo_machine) = 0x7000 \<and>
   xreg (snd (dispatch_hhvm_fullresolve demo_resolve demo_machine)) = (xreg demo_machine)(R14 := 0x7000) \<and>
   xmm (snd (dispatch_hhvm_fullresolve demo_resolve demo_machine)) \<noteq> xmm demo_machine"
proof -
  have s: "sysv_call demo_resolve 72"
    by (simp add: sysv_call_def demo_resolve_def callee_saved_def)
  have "range_at (xreg demo_machine R12 - 0x40) 8 \<inter> range_at (xreg demo_machine RSP - 72) 72 = {}"
    by (rule range_at_disjoint) (simp_all add: demo_machine_def)
  then have d: "range_at (xreg demo_machine RSP - 72) 72 \<inter> range_at (xreg demo_machine R12 - 0x40) 8 = {}"
    by (simp only: Int_commute)
  have a: "xreg demo_machine RSP AND 15 = 8" by (simp add: demo_machine_def)
  obtain c where "fst (dispatch_hhvm_fullresolve demo_resolve demo_machine) = xreg (demo_resolve c) RAX"
    "xreg (snd (dispatch_hhvm_fullresolve demo_resolve demo_machine)) =
      (xreg demo_machine)(R14 := fst (dispatch_hhvm_fullresolve demo_resolve demo_machine))"
    "xmm (snd (dispatch_hhvm_fullresolve demo_resolve demo_machine)) = xmm (demo_resolve c)"
    using hhvm_fullresolve_transparent[OF s d a] by (auto simp: case_prod_beta)
  moreover have "xreg (demo_resolve c) RAX = 0x7000" "xmm (demo_resolve c) 0 \<noteq> xmm demo_machine 0"
    by (simp_all add: demo_resolve_def demo_machine_def)
  ultimately show ?thesis by auto
qed
subsection \<open>The frame on aarch64\<close>

text \<open>Slots of a frame: bytes stored at offsets, each behind the one before it.\<close>

definition write_slots :: "u64 \<Rightarrow> (u64 \<times> u8 list) list \<Rightarrow> memory \<Rightarrow> memory" where
  "write_slots sp L m = foldl (\<lambda>m (off, bs). write_bytes m (sp + off) bs) m L"

fun slots_from :: "nat \<Rightarrow> (u64 \<times> nat) list \<Rightarrow> bool" where
  "slots_from lo [] \<longleftrightarrow> lo \<le> 2 ^ 63"
| "slots_from lo ((off, n) # L) \<longleftrightarrow> lo \<le> unat off \<and> slots_from (unat off + n) L"

abbreviation slot_sizes :: "(u64 \<times> u8 list) list \<Rightarrow> (u64 \<times> nat) list" where
  "slot_sizes L \<equiv> map (\<lambda>(off, bs). (off, length bs)) L"

lemma slots_from_end: "slots_from lo L \<Longrightarrow> lo \<le> 2 ^ 63"
  by (induction lo L rule: slots_from.induct) auto

lemma slots_from_bounds: "slots_from lo L \<Longrightarrow> (off, n) \<in> set L \<Longrightarrow> lo \<le> unat off \<and> unat off + n \<le> 2 ^ 63"
proof (induction lo L rule: slots_from.induct)
  case (2 lo o' k L)
  then show ?case using slots_from_end[of "unat o' + k" L] by fastforce
qed simp

lemma write_slots_outside:
  assumes "slots_from lo (slot_sizes L)" and "unat (x - sp) < lo"
  shows "write_slots sp L m x = m x"
  using assms
proof (induction L arbitrary: lo m)
  case (Cons s L)
  obtain off bs where s: "s = (off, bs)" by (cases s)
  have le: "unat (x - sp) < unat off" and b: "unat off + length bs \<le> 2 ^ 63"
    using Cons.prems slots_from_end[of "unat off + length bs" "slot_sizes L"] by (auto simp: s)
  have u: "2 ^ 64 \<le> unat (x - (sp + off)) + (unat off - unat (x - sp))"
  proof -
    have e: "unat (off - (x - sp)) = unat off - unat (x - sp)" using le by (intro unat_sub) (simp add: word_le_nat_alt)
    have "(unat (x - (sp + off)) + unat (off - (x - sp))) mod 2 ^ 64 = 0"
      using unat_word_ariths(1)[of "x - (sp + off)" "off - (x - sp)"] by simp
    then have "2 ^ 64 dvd unat (x - (sp + off)) + unat (off - (x - sp))" by (rule mod_0_imp_dvd)
    then show ?thesis using e le by (metis add_is_0 dvd_imp_le neq0_conv zero_less_diff not_less_zero)
  qed
  then have "write_bytes m (sp + off) bs x = m x"
    using b le by (intro write_bytes_outside) (auto simp: range_at_def)
  moreover have "write_slots sp L (write_bytes m (sp + off) bs) x = write_bytes m (sp + off) bs x"
    using Cons.prems le by (intro Cons.IH[of "unat off + length bs"]) (auto simp: s)
  ultimately show ?case by (simp add: write_slots_def s)
qed (simp add: write_slots_def)

lemma read_slot:
  assumes "slots_from lo (slot_sizes L)" and "(off, bs) \<in> set L"
  shows "read_bytes (write_slots sp L m) (sp + off) (length bs) = bs"
  using assms
proof (induction L arbitrary: lo m)
  case (Cons s L)
  obtain o' bs' where s: "s = (o', bs')" by (cases s)
  have rest: "slots_from (unat o' + length bs') (slot_sizes L)" using Cons.prems(1) by (simp add: s)
  have w: "write_slots sp (s # L) m = write_slots sp L (write_bytes m (sp + o') bs')"
    by (simp add: write_slots_def s)
  show ?case
  proof (cases "(off, bs) = s")
    case True
    then have e: "o' = off" "bs' = bs" by (auto simp: s)
    have b: "unat off + length bs \<le> 2 ^ 63" using slots_from_end[OF rest] e by simp
    have "read_bytes (write_slots sp L (write_bytes m (sp + off) bs)) (sp + off) (length bs) =
        read_bytes (write_bytes m (sp + off) bs) (sp + off) (length bs)"
    proof (rule read_bytes_cong)
      fix i assume i: "i < length bs"
      have "unat (sp + off + of_nat i - sp) = unat off + i"
        using i b unat_word_ariths(1)[of off "of_nat i"] by (simp add: unat_of_nat_64)
      then show "write_slots sp L (write_bytes m (sp + off) bs) (sp + off + of_nat i) =
          write_bytes m (sp + off) bs (sp + off + of_nat i)"
        using i rest e by (intro write_slots_outside[where lo = "unat off + length bs"]) simp_all
    qed
    with b show ?thesis by (simp add: w e read_write_bytes)
  next
    case False
    with Cons.prems(2) have "(off, bs) \<in> set L" by auto
    with rest show ?thesis unfolding w by (rule Cons.IH)
  qed
qed simp

definition x_slot :: "(nat \<Rightarrow> u64) \<Rightarrow> nat \<times> nat \<times> u64 \<Rightarrow> u64 \<times> u8 list" where
  "x_slot v p = (case p of (i, j, off) \<Rightarrow> (off, le_bytes 8 (v i) @ le_bytes 8 (v j)))"

definition q_slot :: "(nat \<Rightarrow> 128 word) \<Rightarrow> nat \<times> nat \<times> u64 \<Rightarrow> u64 \<times> u8 list" where
  "q_slot v p = (case p of (i, j, off) \<Rightarrow> (off, le_bytes 16 (v i) @ le_bytes 16 (v j)))"

lemma run_all_Nil [simp]: "run_all f [] s = s"
  by (simp add: run_all_def)

lemma run_all_Cons [simp]: "run_all f (x # xs) s = run_all f xs (f x s)"
  by (simp add: run_all_def)

lemma stp_x_all: "run_all stp_x ps s = s\<lparr>amem := write_slots (asp s) (map (x_slot (ax s)) ps) (amem s)\<rparr>"
  by (induction ps arbitrary: s) (auto simp: write_slots_def stp_x_def x_slot_def)

lemma stp_q_all: "run_all stp_q ps s = s\<lparr>amem := write_slots (asp s) (map (q_slot (aq s)) ps) (amem s)\<rparr>"
  by (induction ps arbitrary: s) (auto simp: write_slots_def stp_q_def q_slot_def)

lemma read_pair:
  assumes "read_bytes m p (n + n) = le_bytes n (v :: 'a::len word) @ le_bytes n (w :: 'a word)" and "LENGTH('a) \<le> 8 * n"
  shows "le_word (read_bytes m p n) = v" and "le_word (read_bytes m (p + of_nat n) n) = w"
proof -
  have "read_bytes m p n = le_bytes n v \<and> read_bytes m (p + of_nat n) n = le_bytes n w"
    using assms(1) by (simp add: read_bytes_append)
  with assms(2) show "le_word (read_bytes m p n) = v" "le_word (read_bytes m (p + of_nat n) n) = w"
    by (simp_all add: le_word_le_bytes)
qed

abbreviation pair_regs :: "(nat \<times> nat \<times> u64) list \<Rightarrow> nat set" where
  "pair_regs ps \<equiv> (\<Union>(i, j, off) \<in> set ps. {i, j})"

lemma ldp_x_all:
  assumes "\<And>p. p \<in> set ps \<Longrightarrow> read_bytes (amem s) (asp s + fst (x_slot v p)) 16 = snd (x_slot v p)"
  shows "run_all ldp_x ps s = s\<lparr>ax := (\<lambda>r. if r \<in> pair_regs ps then v r else ax s r)\<rparr>"
  using assms
proof (induction ps arbitrary: s)
  case (Cons p ps)
  obtain i j off where p: "p = (i, j, off)" by (cases p)
  have "read_bytes (amem s) (asp s + off) (8 + 8) = le_bytes 8 (v i) @ le_bytes 8 (v j)"
    using Cons.prems[of p] by (simp add: p x_slot_def del: le_bytes.simps read_bytes.simps)
  from read_pair[OF this] have "ldp_x p s = s\<lparr>ax := (ax s)(i := v i, j := v j)\<rparr>"
    by (simp add: ldp_x_def p)
  moreover have "run_all ldp_x ps (s\<lparr>ax := (ax s)(i := v i, j := v j)\<rparr>) =
      s\<lparr>ax := (\<lambda>r. if r \<in> pair_regs ps then v r else ax (s\<lparr>ax := (ax s)(i := v i, j := v j)\<rparr>) r)\<rparr>"
    using Cons.IH[of "s\<lparr>ax := (ax s)(i := v i, j := v j)\<rparr>"] Cons.prems by simp
  ultimately show ?case by (auto simp: p intro!: arg_cong[where f = "\<lambda>f. s\<lparr>ax := f\<rparr>"])
qed simp

lemma ldp_q_all:
  assumes "\<And>p. p \<in> set ps \<Longrightarrow> read_bytes (amem s) (asp s + fst (q_slot v p)) 32 = snd (q_slot v p)"
  shows "run_all ldp_q ps s = s\<lparr>aq := (\<lambda>r. if r \<in> pair_regs ps then v r else aq s r)\<rparr>"
  using assms
proof (induction ps arbitrary: s)
  case (Cons p ps)
  obtain i j off where p: "p = (i, j, off)" by (cases p)
  have "read_bytes (amem s) (asp s + off) (16 + 16) = le_bytes 16 (v i) @ le_bytes 16 (v j)"
    using Cons.prems[of p] by (simp add: p q_slot_def del: le_bytes.simps read_bytes.simps)
  from read_pair[OF this] have "ldp_q p s = s\<lparr>aq := (aq s)(i := v i, j := v j)\<rparr>"
    by (simp add: ldp_q_def p)
  moreover have "run_all ldp_q ps (s\<lparr>aq := (aq s)(i := v i, j := v j)\<rparr>) =
      s\<lparr>aq := (\<lambda>r. if r \<in> pair_regs ps then v r else aq (s\<lparr>aq := (aq s)(i := v i, j := v j)\<rparr>) r)\<rparr>"
    using Cons.IH[of "s\<lparr>aq := (aq s)(i := v i, j := v j)\<rparr>"] Cons.prems by simp
  ultimately show ?case by (auto simp: p intro!: arg_cong[where f = "\<lambda>f. s\<lparr>aq := f\<rparr>"])
qed simp

text \<open>The frame of \<^verbatim>\<open>dispatch_aapcsx_fullresolve\<close>.\<close>

abbreviation frame_slots :: "amachine \<Rightarrow> (u64 \<times> u8 list) list" where
  "frame_slots s \<equiv> map (x_slot (ax s)) aapcsx_x_pairs @ map (q_slot (aq s)) aapcsx_q_pairs"

lemma aapcsx_save_eq:
  "aapcsx_save s = s\<lparr>asp := asp s - 0x2b0, amem := write_slots (asp s - 0x2b0) (frame_slots s) (amem s)\<rparr>"
  by (simp add: aapcsx_save_def stp_x_all stp_q_all write_slots_def)

lemma frame_slots_ok: "slots_from 0 (slot_sizes (frame_slots s))"
  by (simp add: aapcsx_x_pairs_def aapcsx_q_pairs_def x_slot_def q_slot_def del: le_bytes.simps)

lemma x_slot_length: "length (snd (x_slot v p)) = 16"
  by (simp add: x_slot_def case_prod_beta del: le_bytes.simps)

lemma q_slot_length: "length (snd (q_slot v p)) = 32"
  by (simp add: q_slot_def case_prod_beta del: le_bytes.simps)

lemma frame_slot_bound:
  "(off, bs) \<in> set (frame_slots s) \<Longrightarrow> unat off + length bs \<le> 0x2b0"
  by (auto simp: aapcsx_x_pairs_def aapcsx_q_pairs_def x_slot_def q_slot_def simp del: le_bytes.simps)

lemma pair_regs_frame:
  "pair_regs aapcsx_x_pairs = set [0..<16] \<union> {18, 30}" "pair_regs aapcsx_q_pairs = set [0..<32]"
  by code_simp+
text \<open>
  What the procedure call standard of aarch64 promises of a call: registers x19 to x29, the stack
  pointer and the caller's frame of \<open>n\<close> bytes are as before.
\<close>

definition aapcs_call :: "(amachine \<Rightarrow> amachine) \<Rightarrow> nat \<Rightarrow> bool" where
  "aapcs_call call n \<longleftrightarrow> (\<forall>s. asp (call s) = asp s \<and> (\<forall>r \<in> {19..29}. ax (call s) r = ax s r) \<and>
     (\<forall>x \<in> range_at (asp s) n. amem (call s) x = amem s x))"

lemma frame_kept:
  assumes "aapcs_call call 0x2b0" and "asp c = sp"
    and "amem c = write_slots sp (frame_slots s) m" and "(off, bs) \<in> set (frame_slots s)"
  shows "read_bytes (amem (call c)) (sp + off) (length bs) = bs"
proof -
  have "read_bytes (amem (call c)) (sp + off) (length bs) = read_bytes (amem c) (sp + off) (length bs)"
  proof (rule read_bytes_cong)
    fix i assume i: "i < length bs"
    have b: "unat off + length bs \<le> 0x2b0" by (rule frame_slot_bound[OF assms(4)])
    have "unat (sp + off + of_nat i - sp) = unat off + i"
      using i b unat_word_ariths(1)[of off "of_nat i"] by (simp add: unat_of_nat_64)
    then have "sp + off + of_nat i \<in> range_at sp 0x2b0" using i b by (simp add: range_at_def)
    then show "amem (call c) (sp + off + of_nat i) = amem c (sp + off + of_nat i)"
      using assms(1,2) by (simp add: aapcs_call_def)
  qed
  then show ?thesis using read_slot[OF frame_slots_ok assms(4)] assms(3) by simp
qed

lemma aapcsx_restore_eq:
  assumes "\<And>p. p \<in> set aapcsx_x_pairs \<Longrightarrow> read_bytes (amem d) (asp d + fst (x_slot v p)) 16 = snd (x_slot v p)"
    and "\<And>p. p \<in> set aapcsx_q_pairs \<Longrightarrow> read_bytes (amem d) (asp d + fst (q_slot w p)) 32 = snd (q_slot w p)"
  shows "aapcsx_restore d = d\<lparr>asp := asp d + 0x2b0,
    ax := (\<lambda>r. if r < 16 \<or> r = 18 \<or> r = 30 then v r else ax d r),
    aq := (\<lambda>r. if r < 32 then w r else aq d r)\<rparr>"
proof -
  have "run_all ldp_x aapcsx_x_pairs d = d\<lparr>ax := (\<lambda>r. if r < 16 \<or> r = 18 \<or> r = 30 then v r else ax d r)\<rparr>"
    using ldp_x_all[of aapcsx_x_pairs d v] assms(1) by (simp add: pair_regs_frame disj_ac)
  moreover have "run_all ldp_q aapcsx_q_pairs (d\<lparr>ax := f\<rparr>) = d\<lparr>ax := f, aq := (\<lambda>r. if r < 32 then w r else aq d r)\<rparr>" for f
    using ldp_q_all[of aapcsx_q_pairs "d\<lparr>ax := f\<rparr>" w] assms(2) by (simp add: pair_regs_frame cong: if_cong)
  ultimately show ?thesis by (simp add: aapcsx_restore_def Let_def)
qed

text \<open>
  C27: The full resolution on aarch64 is invisible in the same way: resolve_func gets the CPU state,
  the guest address and the patch data, the jump goes to the address it returns, and all general
  and vector registers except the scratch registers x16 and x17, and the stack pointer, are as
  before.
\<close>

theorem aapcsx_fullresolve_transparent:
  assumes "aapcs_call resolve 0x2b0"
  shows "case dispatch_aapcsx_fullresolve resolve s of (target, s') \<Rightarrow>
    \<exists>c. ax c 0 = ax s 20 - 0x40 \<and> ax c 1 = ax s 0 \<and> ax c 2 = ax s 16 \<and>
      target = ax (resolve c) 0 \<and> amem s' = amem (resolve c) \<and> asp s' = asp s \<and> ax s' 16 = target \<and>
      (\<forall>r \<le> 30. r \<noteq> 16 \<longrightarrow> r \<noteq> 17 \<longrightarrow> ax s' r = ax s r) \<and> (\<forall>r < 32. aq s' r = aq s r)"
proof -
  let ?s1 = "aapcsx_save s"
  define c where "c = ?s1\<lparr>ax := (ax ?s1)(1 := ax ?s1 0, 0 := ax ?s1 20 - 0x40, 2 := ax ?s1 16)\<rparr>"
  define d where "d = (resolve c)\<lparr>ax := (ax (resolve c))(16 := ax (resolve c) 0)\<rparr>"
  have c: "asp c = asp s - 0x2b0" "amem c = write_slots (asp s - 0x2b0) (frame_slots s) (amem s)"
    "ax c 0 = ax s 20 - 0x40" "ax c 1 = ax s 0" "ax c 2 = ax s 16" "\<And>r. 19 \<le> r \<Longrightarrow> ax c r = ax s r"
    by (simp_all add: c_def aapcsx_save_eq)
  have keep: "asp (resolve c) = asp c" "\<And>r. r \<in> {19..29} \<Longrightarrow> ax (resolve c) r = ax c r"
    using assms by (auto simp: aapcs_call_def)
  have fr: "read_bytes (amem d) (asp d + off) (length bs) = bs" if "(off, bs) \<in> set (frame_slots s)" for off bs
    using frame_kept[OF assms c(1,2) that] keep(1) c(1) by (simp add: d_def)
  have "aapcsx_restore d = d\<lparr>asp := asp d + 0x2b0,
      ax := (\<lambda>r. if r < 16 \<or> r = 18 \<or> r = 30 then ax s r else ax d r),
      aq := (\<lambda>r. if r < 32 then aq s r else aq d r)\<rparr>"
  proof (rule aapcsx_restore_eq)
    fix p assume "p \<in> set aapcsx_x_pairs"
    then have "(fst (x_slot (ax s) p), snd (x_slot (ax s) p)) \<in> set (frame_slots s)" by simp
    from fr[OF this] show "read_bytes (amem d) (asp d + fst (x_slot (ax s) p)) 16 = snd (x_slot (ax s) p)"
      by (simp only: x_slot_length)
  next
    fix p assume "p \<in> set aapcsx_q_pairs"
    then have "(fst (q_slot (aq s) p), snd (q_slot (aq s) p)) \<in> set (frame_slots s)" by simp
    from fr[OF this] show "read_bytes (amem d) (asp d + fst (q_slot (aq s) p)) 32 = snd (q_slot (aq s) p)"
      by (simp only: q_slot_length)
  qed
  moreover have "dispatch_aapcsx_fullresolve resolve s = (ax (aapcsx_restore d) 16, aapcsx_restore d)"
    by (simp add: dispatch_aapcsx_fullresolve_def Let_def c_def d_def)
  moreover have "ax d r = ax s r" if "\<not> r < 16" "r \<noteq> 16" "r \<noteq> 17" "r \<noteq> 18" "r \<noteq> 30" "r \<le> 30" for r
    using that keep(2)[of r] c(6)[of r] by (simp add: d_def)
  ultimately show ?thesis
    using c keep(1) by (auto intro!: exI[of _ c] simp: d_def)
qed

theorem aapcsx_fullresolve_transparent_witness:
  "let resolve = (\<lambda>s. s\<lparr>ax := (ax s)(0 := 0x7000, 1 := 0)\<rparr>);
       s = \<lparr>ax = (\<lambda>r. of_nat r), aq = (\<lambda>r. of_nat r), asp = 0x8000, amem = (\<lambda>_. 0)\<rparr> in
   aapcs_call resolve 0x2b0 \<and> fst (dispatch_aapcsx_fullresolve resolve s) = 0x7000 \<and>
   ax (snd (dispatch_aapcsx_fullresolve resolve s)) 1 = 1"
proof -
  define resolve where "resolve = (\<lambda>s :: amachine. s\<lparr>ax := (ax s)(0 := 0x7000, 1 := 0)\<rparr>)"
  define s :: amachine where "s = \<lparr>ax = (\<lambda>r. of_nat r), aq = (\<lambda>r. of_nat r), asp = 0x8000, amem = (\<lambda>_. 0)\<rparr>"
  have a: "aapcs_call resolve 0x2b0" by (simp add: aapcs_call_def resolve_def)
  have "ax (resolve c) 0 = 0x7000" for c by (simp add: resolve_def)
  moreover have "ax s 1 = 1" by (simp add: s_def)
  ultimately have "fst (dispatch_aapcsx_fullresolve resolve s) = 0x7000 \<and>
      ax (snd (dispatch_aapcsx_fullresolve resolve s)) 1 = 1"
    using aapcsx_fullresolve_transparent[OF a, of s] by (auto simp: case_prod_beta)
  with a show ?thesis unfolding Let_def resolve_def s_def by blast
qed

text \<open>
  The table has a hole on aarch64: calling conventions 1 and 2 select an entry of null pointers,
  although the lookup succeeds; \<^verbatim>\<open>main\<close> rejects an entry without a loop function.
\<close>

lemma dispatch_get_hole:
  "unat (tc_callconv (st_tc st)) \<in> {1, 2} \<Longrightarrow> dispatch_get True f st = Some no_dispatcher"
  by (auto simp: dispatch_get_def dispatch_infos_def)

end
