(* ===== verification/Signals.thy ===== *)
theory Signals
  imports Dispatch
begin

text \<open>
  Guest signals, the first part of \<^verbatim>\<open>client/emulate.c\<close>: the guest's signal actions, mask and alternate
  stack in the CPU state, the host's mask kept in step with the guest's, the host handler that
  records a pending signal and the handling of a pending signal.
\<close>

unbundle bit_operations_syntax

abbreviation (input) SIG_DFL :: u64 where "SIG_DFL \<equiv> 0"
abbreviation (input) SIG_IGN :: u64 where "SIG_IGN \<equiv> 1"
abbreviation (input) SIGABRT :: int where "SIGABRT \<equiv> 6"
abbreviation (input) SIGBUS :: int where "SIGBUS \<equiv> 7"
abbreviation (input) SIGKILL :: int where "SIGKILL \<equiv> 9"
abbreviation (input) SIGSEGV :: int where "SIGSEGV \<equiv> 11"
abbreviation (input) SIGSTOP :: int where "SIGSTOP \<equiv> 19"
abbreviation (input) SIG_BLOCK :: int where "SIG_BLOCK \<equiv> 0"
abbreviation (input) SIG_UNBLOCK :: int where "SIG_UNBLOCK \<equiv> 1"
abbreviation (input) SIG_SETMASK :: int where "SIG_SETMASK \<equiv> 2"
abbreviation (input) SA_SIGINFO :: u64 where "SA_SIGINFO \<equiv> 4"
abbreviation (input) SA_RESTART :: u64 where "SA_RESTART \<equiv> 0x10000000"

text \<open>
  The addresses of the assembly routine \<^verbatim>\<open>__restore\<close> and of \<^verbatim>\<open>signal_handler\<close>. Locals are at \<open>loc\<close>, the
  callees' behind it.
\<close>

record sigenv =
  restore_addr :: u64
  handler_addr :: u64

subsection \<open>Operations\<close>

text \<open>
  \<^verbatim>\<open>abort_with_signal\<close> does not return; the result is the process as it waits for the signal.
\<close>

definition abort_with_signal :: "'k sysfn \<Rightarrow> sigenv \<Rightarrow> u64 \<Rightarrow> int \<Rightarrow> 'k world \<Rightarrow> 'k world" where
  "abort_with_signal sys se loc sig w =
     (let full = snd sigfillset;
          act = \<lparr>sa_handler = SIG_DFL, sa_flags = 0, sa_restorer = 0, sa_mask = full\<rparr>;
          (_, w1) = sigaction sys (loc + 32) (restore_addr se) sig (Some act) 0 w;
          (pid, w2) = getpid sys w1;
          (_, w3) = c_kill sys pid sig w2;
          w4 = w3\<lparr>mem := store64 (mem w3) loc (snd (sigdelset full sig))\<rparr>;
          (_, w5) = sigsuspend sys loc w4
      in w5)"

definition host_mask :: "sigset \<Rightarrow> sigset" where
  "host_mask s = snd (sigdelset (snd (sigdelset s SIGSEGV)) SIGBUS)"

definition signal_update_hostmask :: "'k sysfn \<Rightarrow> u64 \<Rightarrow> 'k cpu_state \<Rightarrow> int \<times> 'k cpu_state" where
  "signal_update_hostmask sys loc cs =
     (let w = cs_world cs; w1 = w\<lparr>mem := store64 (mem w) loc (host_mask (cs_sigmask cs))\<rparr>;
          (r, w2) = sigprocmask sys SIG_SETMASK loc 0 w1
      in (r, set_world w2 cs))"

text \<open>
  The handling of a pending signal: \<open>Inl\<close> is the process that has aborted. The code behind the call of
  the function that does not return is dead.
\<close>

definition unhandled_signal_msg :: string where
  "unhandled_signal_msg = ''guest signal handling not implemented! %d'' @ [CHR 0x0A]"

definition signal_handle ::
  "'k sysfn \<Rightarrow> sigenv \<Rightarrow> u64 \<Rightarrow> 'k cpu_state \<Rightarrow> 'k world + 'k cpu_state" where
  "signal_handle sys se loc cs =
     (let sig = sigpending cs; cs1 = cs\<lparr>sigpending := 0\<rparr>;
          act = sigact_tab (cs_state cs1) (nat (sig - 1))
      in
      if sa_handler act = SIG_DFL then Inl (abort_with_signal sys se loc sig (cs_world cs1))
      else if sa_handler act = SIG_IGN then Inr cs1
      else
        let w = dprintf_w sys loc 2 unhandled_signal_msg [VInt (word_of_int sig)] (cs_world cs1) in
        Inl (abort_with_signal sys se loc sig w))"

definition signal_sigreturn :: "'k sysfn \<Rightarrow> sigenv \<Rightarrow> u64 \<Rightarrow> 'k cpu_state \<Rightarrow> 'k world" where
  "signal_sigreturn sys se loc cs =
     abort_with_signal sys se loc SIGABRT
       (dprintf_w sys loc 2 (''guest sigreturn not implemented!'' @ [CHR 0x0A]) [] (cs_world cs))"

text \<open>
  The handler installed on the host. \<open>info\<close> and \<open>ucp\<close> point to the kernel's \<^verbatim>\<open>siginfo\<close> (128 bytes, the code
  at offset 8) and \<^verbatim>\<open>ucontext\<close> (the signal mask at offset 296).
\<close>

definition uc_sigmask :: "u64 \<Rightarrow> u64" where
  "uc_sigmask ucp = ucp + 296"

definition is_synchronous :: "memory \<Rightarrow> int \<Rightarrow> u64 \<Rightarrow> bool" where
  "is_synchronous m sig info \<longleftrightarrow> (sig = SIGSEGV \<or> sig = SIGBUS) \<and> sint (load32 m (info + 8)) > 0"

definition signal_handler ::
  "'k sysfn \<Rightarrow> sigenv \<Rightarrow> u64 \<Rightarrow> int \<Rightarrow> u64 \<Rightarrow> u64 \<Rightarrow> 'k cpu_state \<Rightarrow> 'k world + 'k cpu_state" where
  "signal_handler sys se loc sig info ucp cs =
     (let w = cs_world cs; m = mem w in
      if is_synchronous m sig info then
        let w1 = (if sa_handler (sigact_tab (cs_state cs) (nat (sig - 1))) \<noteq> SIG_DFL
                  then dprintf_w sys loc 2 (''handling of synchronous signals not implemented'' @ [CHR 0x0A]) [] w
                  else w)
        in Inl (abort_with_signal sys se loc sig w1)
      else if sigismember (cs_sigmask cs) sig \<noteq> 0 then
        Inr (set_world (dprintf_w sys loc 2 (''dropping asynchronous blocked signal %d'' @ [CHR 0x0A])
               [VInt (word_of_int sig)] w) cs)
      else
        let full = snd sigfillset;
            cs1 = cs\<lparr>sigpending := sig, cs_siginfo := read_bytes m info 128\<rparr>
        in Inr (set_world (w\<lparr>mem := store64 m (uc_sigmask ucp) (host_mask full)\<rparr>) cs1))"

definition signal_sigaction ::
  "'k sysfn \<Rightarrow> sigenv \<Rightarrow> u64 \<Rightarrow> 'k cpu_state \<Rightarrow> int \<Rightarrow> u64 \<Rightarrow> u64 \<Rightarrow> int \<times> 'k cpu_state" where
  "signal_sigaction sys se loc cs sig nact oact =
     (if sig \<le> 0 \<or> sig > NSIG then (- EINVAL, cs)
      else
        let i = nat (sig - 1); w = cs_world cs;
            w1 = (if oact \<noteq> 0 then w\<lparr>mem := write_bytes (mem w) oact (sigact_bytes (sigact_tab (cs_state cs) i))\<rparr> else w);
            cs1 = set_world w1 cs
        in
        if nact = 0 then (0, cs1)
        else
          let na = load_sigact (mem w1) nact;
              cs2 = cs1\<lparr>cs_state := (cs_state cs1)\<lparr>sigact_tab := (sigact_tab (cs_state cs1))(i := na)\<rparr>\<rparr>
          in
          if sig = SIGSEGV \<or> sig = SIGBUS then (0, cs2)
          else
            let h = (if sa_handler na = SIG_DFL \<or> sa_handler na = SIG_IGN then sa_handler na else handler_addr se);
                fl = (if sa_flags na AND SA_RESTART \<noteq> 0 then SA_SIGINFO OR SA_RESTART else SA_SIGINFO);
                act = \<lparr>sa_handler = h, sa_flags = fl, sa_restorer = 0, sa_mask = snd sigfillset\<rparr>;
                (r, w2) = sigaction sys loc (restore_addr se) sig (Some act) 0 w1
            in (r, set_world w2 cs2))"

text \<open>The loops over all signals of \<^verbatim>\<open>SIG_BLOCK\<close> and \<^verbatim>\<open>SIG_UNBLOCK\<close>.\<close>

definition block_all :: "sigset \<Rightarrow> sigset \<Rightarrow> sigset" where
  "block_all s m0 = foldl (\<lambda>m i. if sigismember s i \<noteq> 0 then snd (sigaddset m i) else m) m0 [1..NSIG]"

definition unblock_all :: "sigset \<Rightarrow> sigset \<Rightarrow> sigset" where
  "unblock_all s m0 = foldl (\<lambda>m i. if sigismember s i \<noteq> 0 then snd (sigdelset m i) else m) m0 [1..NSIG]"

definition signal_sigprocmask ::
  "'k sysfn \<Rightarrow> u64 \<Rightarrow> 'k cpu_state \<Rightarrow> int \<Rightarrow> u64 \<Rightarrow> u64 \<Rightarrow> int \<times> 'k cpu_state" where
  "signal_sigprocmask sys loc cs how sp old =
     (let w = cs_world cs;
          w1 = (if old \<noteq> 0 then w\<lparr>mem := store64 (mem w) old (cs_sigmask cs)\<rparr> else w);
          cs1 = set_world w1 cs
      in
      if sp = 0 then (0, cs1)
      else
        let s = load64 (mem w1) sp;
            changed = (if how = SIG_BLOCK then Some (block_all s (cs_sigmask cs))
                       else if how = SIG_UNBLOCK then Some (unblock_all s (cs_sigmask cs))
                       else if how = SIG_SETMASK then Some s
                       else None)
        in
        case changed of
          None \<Rightarrow> (- EINVAL, cs1)
        | Some m1 \<Rightarrow>
            let m2 = snd (sigdelset (snd (sigdelset m1 SIGKILL)) SIGSTOP);
                cs2 = cs1\<lparr>cs_sigmask := m2\<rparr>
            in if sigpending cs2 = 0 then signal_update_hostmask sys loc cs2 else (0, cs2))"

definition load_stack_t :: "memory \<Rightarrow> u64 \<Rightarrow> stack_t" where
  "load_stack_t m p = \<lparr>ss_sp = load64 m p, ss_flags = load32 m (p + 8), ss_size = load64 m (p + 16)\<rparr>"

definition store_stack_t :: "memory \<Rightarrow> u64 \<Rightarrow> stack_t \<Rightarrow> memory" where
  "store_stack_t m p ss = store64 (store32 (store64 m p (ss_sp ss)) (p + 8) (ss_flags ss)) (p + 16) (ss_size ss)"

definition signal_sigaltstack :: "'k cpu_state \<Rightarrow> u64 \<Rightarrow> u64 \<Rightarrow> int \<times> 'k cpu_state" where
  "signal_sigaltstack cs ss old =
     (let w = cs_world cs;
          w1 = (if old \<noteq> 0 then w\<lparr>mem := store_stack_t (mem w) old (cs_sigaltstack cs)\<rparr> else w);
          cs1 = set_world w1 cs
      in if ss = 0 then (0, cs1) else (0, cs1\<lparr>cs_sigaltstack := load_stack_t (mem w1) ss\<rparr>))"

definition signal_init :: "'k sysfn \<Rightarrow> sigenv \<Rightarrow> u64 \<Rightarrow> 'k world \<Rightarrow> 'k world" where
  "signal_init sys se loc w =
     (let act = \<lparr>sa_handler = handler_addr se, sa_flags = SA_SIGINFO, sa_restorer = 0, sa_mask = snd sigfillset\<rparr>;
          (_, w1) = sigaction sys loc (restore_addr se) SIGSEGV (Some act) 0 w;
          (_, w2) = sigaction sys loc (restore_addr se) SIGBUS (Some act) 0 w1
      in w2)"

subsection \<open>Masks as sets\<close>

lemma sigs_range: "i \<in> sigs s \<Longrightarrow> i \<in> {1..64}"
  by (simp add: sigs_def)

lemma member_nonzero: "i \<in> {1..64} \<Longrightarrow> sigismember s i \<noteq> 0 \<longleftrightarrow> i \<in> sigs s"
  by (simp add: sigismember_def sigsetmsk_member)

lemma sigs_sigdelset: "i \<in> {1..64} \<Longrightarrow> sigs (snd (sigdelset s i)) = sigs s - {i}"
  by (simp add: sigdelset_def sigs_delete)

lemma sigs_sigaddset: "i \<in> {1..64} \<Longrightarrow> sigs (snd (sigaddset s i)) = insert i (sigs s)"
  by (simp add: sigaddset_def sigs_insert)

lemma sigs_block_all: "sigs (block_all s m0) = sigs m0 \<union> sigs s"
proof -
  have "set L \<subseteq> {1..64} \<Longrightarrow>
      sigs (foldl (\<lambda>m i. if sigismember s i \<noteq> 0 then snd (sigaddset m i) else m) m0 L) =
      sigs m0 \<union> (sigs s \<inter> set L)" for L m0
  proof (induction L arbitrary: m0)
    case (Cons i L)
    then show ?case by (auto simp: member_nonzero sigs_sigaddset)
  qed simp
  from this[of "[1..64]" m0] show ?thesis using sigs_range by (auto simp: block_all_def)
qed

lemma sigs_unblock_all: "sigs (unblock_all s m0) = sigs m0 - sigs s"
proof -
  have "set L \<subseteq> {1..64} \<Longrightarrow>
      sigs (foldl (\<lambda>m i. if sigismember s i \<noteq> 0 then snd (sigdelset m i) else m) m0 L) =
      sigs m0 - (sigs s \<inter> set L)" for L m0
  proof (induction L arbitrary: m0)
    case (Cons i L)
    then show ?case by (auto simp: member_nonzero sigs_sigdelset)
  qed simp
  from this[of "[1..64]" m0] show ?thesis using sigs_range by (auto simp: unblock_all_def)
qed

lemma sigs_host_mask: "sigs (host_mask s) = sigs s - {SIGSEGV, SIGBUS}"
  by (auto simp: host_mask_def sigs_sigdelset)

lemma set_world_more [simp]:
  "sigpending (set_world w cs) = sigpending cs" "cs_sigmask (set_world w cs) = cs_sigmask cs"
  "cs_sigaltstack (set_world w cs) = cs_sigaltstack cs" "cs_siginfo (set_world w cs) = cs_siginfo cs"
  "cs_world (set_world w cs) = w" "sigact_tab (cs_state (set_world w cs)) = sigact_tab (cs_state cs)"
  by (simp_all add: set_world_def on_st_world_def)

text \<open>The mask a request describes, as POSIX states it: uncatchable signals are never blocked.\<close>

definition requested_mask :: "int \<Rightarrow> int set \<Rightarrow> int set \<Rightarrow> int set" where
  "requested_mask how old new =
     (if how = SIG_BLOCK then old \<union> new else if how = SIG_UNBLOCK then old - new else new) - {SIGKILL, SIGSTOP}"

lemma update_hostmask_mask [simp]:
  "cs_sigmask (snd (signal_update_hostmask sys loc cs)) = cs_sigmask cs"
  "sigpending (snd (signal_update_hostmask sys loc cs)) = sigpending cs"
  by (simp_all add: signal_update_hostmask_def Let_def case_prod_beta)

text \<open>The state after the old mask has been stored for the caller.\<close>

definition old_mask_stored :: "u64 \<Rightarrow> 'k cpu_state \<Rightarrow> 'k cpu_state" where
  "old_mask_stored old cs =
     (if old = 0 then cs
      else set_world ((cs_world cs)\<lparr>mem := store64 (mem (cs_world cs)) old (cs_sigmask cs)\<rparr>) cs)"

lemma old_mask_stored_simps [simp]:
  "sigpending (old_mask_stored old cs) = sigpending cs" "cs_sigmask (old_mask_stored old cs) = cs_sigmask cs"
  by (simp_all add: old_mask_stored_def)

lemma old_mask_stored_eq:
  "(if old \<noteq> 0 then (cs_world cs)\<lparr>mem := store64 (mem (cs_world cs)) old (cs_sigmask cs)\<rparr> else cs_world cs) =
     cs_world (old_mask_stored old cs)"
  "set_world (cs_world (old_mask_stored old cs)) cs = old_mask_stored old cs"
  by (simp_all add: old_mask_stored_def)

text \<open>
  C8: Changing the guest's signal mask does what POSIX says, up to one point. The old mask is stored
  where the caller asks for it. Without a set nothing else happens and the result is 0. For a valid request the new mask is the
  union, the difference or the given set, without SIGKILL and SIGSTOP; the result is 0 when
  a signal is pending, and that of passing the new mask on to the host otherwise. An unknown
  request gives -EINVAL and changes nothing else; it comes after the old mask has been stored.
\<close>

theorem sigprocmask_refines:
  "let cs1 = old_mask_stored old cs; (r, cs') = signal_sigprocmask sys loc cs how sp old in
   (old \<noteq> 0 \<longrightarrow> load64 (mem (cs_world cs1)) old = cs_sigmask cs) \<and>
   (if sp = 0 then r = 0 \<and> cs' = cs1
    else if how \<notin> {0, 1, 2} then r = - 22 \<and> cs' = cs1
    else \<exists>mask.
      sigs mask = requested_mask how (sigs (cs_sigmask cs)) (sigs (load64 (mem (cs_world cs1)) sp)) \<and>
      (if sigpending cs \<noteq> 0 then r = 0 \<and> cs' = cs1\<lparr>cs_sigmask := mask\<rparr>
       else (r, cs') = signal_update_hostmask sys loc (cs1\<lparr>cs_sigmask := mask\<rparr>)))"
proof -
  define cs1 where "cs1 = old_mask_stored old cs"
  let ?s = "load64 (mem (cs_world cs1)) sp"
  let ?new = "if how = SIG_BLOCK then block_all ?s (cs_sigmask cs)
    else if how = SIG_UNBLOCK then unblock_all ?s (cs_sigmask cs) else ?s"
  let ?mask = "snd (sigdelset (snd (sigdelset ?new SIGKILL)) SIGSTOP)"
  have e: "signal_sigprocmask sys loc cs how sp old =
      (if sp = 0 then (0, cs1) else if how \<notin> {0, 1, 2} then (- EINVAL, cs1)
       else if sigpending cs = 0 then signal_update_hostmask sys loc (cs1\<lparr>cs_sigmask := ?mask\<rparr>)
       else (0, cs1\<lparr>cs_sigmask := ?mask\<rparr>))"
    unfolding signal_sigprocmask_def Let_def old_mask_stored_eq cs1_def by simp
  have "sigs ?mask = requested_mask how (sigs (cs_sigmask cs)) (sigs ?s)"
    by (auto simp: requested_mask_def sigs_sigdelset sigs_block_all sigs_unblock_all)
  moreover have "old \<noteq> 0 \<longrightarrow> load64 (mem (cs_world cs1)) old = cs_sigmask cs"
    by (simp add: cs1_def old_mask_stored_def mem_simps)
  ultimately show ?thesis unfolding e Let_def cs1_def[symmetric] by (auto simp: case_prod_beta)
qed

theorem sigprocmask_refines_witness:
  "fst (signal_sigprocmask grant_sys 0x1000 (demo_cpu 0) 7 0x2000 0x3000) = - 22 \<and>
   cs_sigmask (snd (signal_sigprocmask grant_sys 0x1000 (demo_cpu 0) 7 0x2000 0x3000)) = 0 \<and>
   load64 (mem (cs_world (snd (signal_sigprocmask grant_sys 0x1000 (demo_cpu 0) 7 0x2000 0x3000)))) 0x3000 = 0"
proof -
  have m: "cs_sigmask (demo_cpu 0) = 0" by (simp add: demo_cpu_def)
  show ?thesis
    using sigprocmask_refines[of "0x3000" "demo_cpu 0" grant_sys "0x1000" 7 "0x2000"]
    by (auto simp: Let_def case_prod_beta m)
qed

text \<open>
  C31: While no signal is pending, the host's mask follows the guest's: the kernel is asked to set
  the mask to a set in memory that holds the guest's blocked signals except SIGSEGV and SIGBUS, and
  its answer is the result.
\<close>

theorem hostmask_follows:
  assumes "sp \<noteq> 0" and "how \<in> {0, 1, 2}" and "sigpending cs = 0"
  shows "\<exists>w. signal_sigprocmask sys loc cs how sp old =
      (case sigprocmask sys 2 loc 0 w of (r, w') \<Rightarrow>
         (r, set_world w' (cs\<lparr>cs_sigmask := cs_sigmask (snd (signal_sigprocmask sys loc cs how sp old))\<rparr>))) \<and>
    sigs (load64 (mem w) loc) =
      sigs (cs_sigmask (snd (signal_sigprocmask sys loc cs how sp old))) - {11, 7}"
proof -
  let ?w1 = "if old \<noteq> 0 then (cs_world cs)\<lparr>mem := store64 (mem (cs_world cs)) old (cs_sigmask cs)\<rparr> else cs_world cs"
  obtain m2 where m2: "signal_sigprocmask sys loc cs how sp old =
      signal_update_hostmask sys loc ((set_world ?w1 cs)\<lparr>cs_sigmask := m2\<rparr>)"
    using assms by (auto simp: signal_sigprocmask_def Let_def)
  let ?w = "?w1\<lparr>mem := store64 (mem ?w1) loc (host_mask m2)\<rparr>"
  have "cs_world ((set_world ?w1 cs)\<lparr>cs_sigmask := m2\<rparr>) = ?w1" by (simp add: set_world_def on_st_world_def)
  then have e: "signal_sigprocmask sys loc cs how sp old = (case sigprocmask sys 2 loc 0 ?w of (r, w') \<Rightarrow>
      (r, set_world w' (cs\<lparr>cs_sigmask := m2\<rparr>)))"
    unfolding m2 signal_update_hostmask_def Let_def
    by (simp add: set_world_def on_st_world_def case_prod_beta)
  then have "cs_sigmask (snd (signal_sigprocmask sys loc cs how sp old)) = m2"
    by (simp add: case_prod_beta)
  with e show ?thesis by (auto intro!: exI[of _ ?w] simp: mem_simps sigs_host_mask)
qed
theorem hostmask_follows_witness:
  "sigs (cs_sigmask (snd (signal_sigprocmask grant_sys 0x1000 (demo_cpu 0) 0 0x2000 0))) =
     requested_mask 0 {} (sigs (load64 (mem (cs_world (demo_cpu 0))) 0x2000)) \<and>
   (\<exists>w :: unit world. sigs (load64 (mem w) 0x1000) =
     sigs (cs_sigmask (snd (signal_sigprocmask grant_sys 0x1000 (demo_cpu 0) 0 0x2000 0))) - {11, 7})"
proof -
  have p: "sigpending (demo_cpu 0) = 0" and m: "sigs (cs_sigmask (demo_cpu 0)) = {}"
    by (simp_all add: demo_cpu_def sigs_def)
  have "sigs (cs_sigmask (snd (signal_sigprocmask grant_sys 0x1000 (demo_cpu 0) 0 0x2000 0))) =
     requested_mask 0 {} (sigs (load64 (mem (cs_world (demo_cpu 0))) 0x2000))"
    by (auto simp: m[symmetric] signal_sigprocmask_def requested_mask_def Let_def p case_prod_beta
        sigs_sigdelset sigs_block_all)
  moreover have "\<exists>w :: unit world. sigs (load64 (mem w) 0x1000) =
     sigs (cs_sigmask (snd (signal_sigprocmask grant_sys 0x1000 (demo_cpu 0) 0 0x2000 0))) - {11, 7}"
    using hostmask_follows[of "0x2000" 0 "demo_cpu 0" grant_sys "0x1000" 0] p by auto
  ultimately show ?thesis by blast
qed

subsection \<open>Steps of the signal state\<close>

text \<open>
  What changes the signal state: a host signal, the four system calls, and the handling of a pending
  signal at the end of a system call. A step exists where the process goes on.
\<close>

inductive signal_step :: "'k sysfn \<Rightarrow> sigenv \<Rightarrow> u64 \<Rightarrow> 'k cpu_state \<Rightarrow> 'k cpu_state \<Rightarrow> bool"
  for sys se loc where
  deliver: "sig \<in> {1..64} \<Longrightarrow> signal_handler sys se loc sig info ucp cs = Inr cs' \<Longrightarrow> signal_step sys se loc cs cs'"
| handle: "sigpending cs \<noteq> 0 \<Longrightarrow> signal_handle sys se loc cs = Inr cs' \<Longrightarrow> signal_step sys se loc cs cs'"
| action: "signal_step sys se loc cs (snd (signal_sigaction sys se loc cs sig nact oact))"
| procmask: "signal_step sys se loc cs (snd (signal_sigprocmask sys loc cs how sp old))"
| altstack: "signal_step sys se loc cs (snd (signal_sigaltstack cs ss old))"

inductive_cases signal_stepE: "signal_step sys se loc cs cs'"

definition signal_inv :: "'k cpu_state \<Rightarrow> bool" where
  "signal_inv cs \<longleftrightarrow> SIGKILL \<notin> sigs (cs_sigmask cs) \<and> SIGSTOP \<notin> sigs (cs_sigmask cs) \<and>
     sigpending cs \<in> {0..64}"

lemma signal_sigaction_keeps:
  "cs_sigmask (snd (signal_sigaction sys se loc cs sig nact oact)) = cs_sigmask cs"
  "sigpending (snd (signal_sigaction sys se loc cs sig nact oact)) = sigpending cs"
  by (simp_all add: signal_sigaction_def Let_def case_prod_beta)

lemma signal_sigaltstack_keeps:
  "cs_sigmask (snd (signal_sigaltstack cs ss old)) = cs_sigmask cs"
  "sigpending (snd (signal_sigaltstack cs ss old)) = sigpending cs"
  by (simp_all add: signal_sigaltstack_def Let_def)

lemma signal_handler_effect:
  "signal_handler sys se loc sig info ucp cs = Inr cs' \<Longrightarrow>
   cs_sigmask cs' = cs_sigmask cs \<and>
   sigpending cs' = (if sigismember (cs_sigmask cs) sig \<noteq> 0 then sigpending cs else sig)"
  by (auto simp: signal_handler_def Let_def split: if_splits)

lemma signal_handle_effect:
  "signal_handle sys se loc cs = Inr cs' \<Longrightarrow> cs' = cs\<lparr>sigpending := 0\<rparr>"
  by (auto simp: signal_handle_def Let_def split: if_splits)

lemma signal_sigprocmask_effect:
  "sigpending (snd (signal_sigprocmask sys loc cs how sp old)) = sigpending cs"
  "signal_inv cs \<Longrightarrow> signal_inv (snd (signal_sigprocmask sys loc cs how sp old))"
  by (auto simp: signal_inv_def signal_sigprocmask_def Let_def case_prod_beta sigs_sigdelset split: option.splits)

lemma signal_step_inv:
  assumes "signal_step sys se loc cs cs'" and "signal_inv cs"
  shows "signal_inv cs'"
  using assms
proof cases
  case (deliver sig info ucp)
  with signal_handler_effect[OF deliver(2)] assms(2) show ?thesis
    by (auto simp: signal_inv_def)
next
  case handle
  with signal_handle_effect[OF handle(2)] assms(2) show ?thesis by (simp add: signal_inv_def)
qed (use assms(2) in \<open>simp_all add: signal_inv_def signal_sigaction_keeps signal_sigaltstack_keeps
      signal_sigprocmask_effect[unfolded signal_inv_def]\<close>)

text \<open>
  C17: Whatever signals arrive and whatever signal system calls the guest makes, SIGKILL and SIGSTOP
  are never blocked, the pending signal is a signal number or zero, so that the action looked up
  for it is inside the table, and a signal the guest has blocked never becomes pending.
\<close>

theorem signal_state_invariant:
  assumes "(signal_step sys se loc)\<^sup>*\<^sup>* cs cs'" and "signal_inv cs"
  shows "signal_inv cs' \<and> (sigpending cs' \<noteq> 0 \<longrightarrow> nat (sigpending cs' - 1) < 64) \<and>
    (\<forall>sig info ucp cs''. sig \<in> sigs (cs_sigmask cs') \<longrightarrow>
       signal_handler sys se loc sig info ucp cs' = Inr cs'' \<longrightarrow> sigpending cs'' = sigpending cs')"
proof -
  have inv: "signal_inv cs'" using assms by (induction rule: rtranclp_induct) (auto intro: signal_step_inv)
  have "sigpending cs'' = sigpending cs'"
    if "sig \<in> sigs (cs_sigmask cs')" "signal_handler sys se loc sig info ucp cs' = Inr cs''" for sig info ucp cs''
    using signal_handler_effect[OF that(2)] member_nonzero[of sig "cs_sigmask cs'"] sigs_range[OF that(1)] that(1)
    by auto
  moreover have "sigpending cs' \<noteq> 0 \<longrightarrow> nat (sigpending cs' - 1) < 64" using inv by (auto simp: signal_inv_def)
  ultimately show ?thesis using inv by blast
qed

theorem signal_state_invariant_witness:
  "signal_inv (snd (signal_sigprocmask grant_sys 0x1000 (demo_cpu 0) 2 0x2000 0))"
proof -
  let ?se = "\<lparr>restore_addr = 0x5000, handler_addr = 0x6000\<rparr>"
  have i: "signal_inv (demo_cpu 0)" by (simp add: signal_inv_def demo_cpu_def sigs_def)
  have "(signal_step grant_sys ?se 0x1000)\<^sup>*\<^sup>* (demo_cpu 0) (snd (signal_sigprocmask grant_sys 0x1000 (demo_cpu 0) 2 0x2000 0))"
    by (intro r_into_rtranclp signal_step.procmask)
  from signal_state_invariant[OF this i] show ?thesis by blast
qed

text \<open>
  A pending signal that the guest has come to ignore is dropped without any change to the host's
  mask, which the handler has set to block everything but SIGSEGV and SIGBUS.
\<close>

lemma ignored_signal_keeps_host_mask:
  "signal_handle sys se loc cs = Inr cs' \<Longrightarrow> cs_world cs' = cs_world cs"
  by (drule signal_handle_effect) simp

end
