(* ===== verification/Emulate.thy ===== *)
theory Emulate
  imports Signals
begin

text \<open>
  The emulation of guest system calls and of the cpuid instruction, the second part of
  \<^verbatim>\<open>client/emulate.c\<close>: x86-64 guests, and RISC-V and aarch64 guests through the generic system call
  numbers. The host is x86-64; the translation of open flags for an aarch64 host is given as well.
\<close>

unbundle bit_operations_syntax

subsection \<open>Open flags\<close>

abbreviation (input) onlyif :: "bool \<Rightarrow> 'a::len word \<Rightarrow> 'a word" where
  "onlyif c v \<equiv> (if c then v else 0)"

text \<open>
  The octal constants of the code are 0x3c000 for 00740000, and 0x4000, 0x8000, 0x10000 and 0x20000
  for the four single flags; on aarch64 \<^verbatim>\<open>O_DIRECTORY\<close>, \<^verbatim>\<open>O_NOFOLLOW\<close>, \<^verbatim>\<open>O_DIRECT\<close> and \<^verbatim>\<open>O_LARGEFILE\<close> are
  these four in this order.
\<close>

definition emulate_openat_flags :: "u32 \<Rightarrow> u32" where
  "emulate_openat_flags f =
     (f AND NOT 0x3c000) OR onlyif (f AND 0x4000 \<noteq> 0) 0x10000 OR onlyif (f AND 0x8000 \<noteq> 0) 0x20000
       OR onlyif (f AND 0x10000 \<noteq> 0) 0x4000 OR onlyif (f AND 0x20000 \<noteq> 0) 0x8000"

definition openat_flags_aarch64 :: "u64 \<Rightarrow> u64" where
  "openat_flags_aarch64 a2 =
     (a2 AND NOT 0x3c000) OR onlyif (a2 AND 0x4000 \<noteq> 0) 0x10000 OR onlyif (a2 AND 0x8000 \<noteq> 0) 0x20000
       OR onlyif (a2 AND 0x10000 \<noteq> 0) 0x4000 OR onlyif (a2 AND 0x20000 \<noteq> 0) 0x8000"

subsection \<open>cpuid\<close>

text \<open>The result registers in the order of the code: eax, ecx, edx, ebx.\<close>

definition emulate_cpuid :: "u32 \<Rightarrow> u32 \<Rightarrow> u32 list" where
  "emulate_cpuid rax rcx =
     (if rax = 0 then [7, 0x6c65746e, 0x49656e69, 0x756e6547]
      else if rax = 1 then [0, 0x00400000, 0x07808141, 0]
      else if rax = 2 then [0x80000001, 0x000000ec, 0x80000000, 0x80000000]
      else if rax = 3 then [0, 0, 0, 0]
      else if rax = 4 then [0, 0, 0, 0]
      else if rax = 5 then [0, 0, 0, 0]
      else if rax = 6 then [0, 0, 0, 0]
      else if rcx = 0 then [0, 0, 0, 0x00002200]
      else [0, 0, 0, 0])"

subsection \<open>Unhandled system calls\<close>

text \<open>The state of the emulator: the CPU state and the static map of warnings already given.\<close>

record 'k emu =
  e_cpu :: "'k cpu_state"
  warnmap :: "nat \<Rightarrow> u64"

abbreviation e_world :: "'k emu \<Rightarrow> 'k world" where "e_world e \<equiv> cs_world (e_cpu e)"

definition set_e_world :: "'k world \<Rightarrow> 'k emu \<Rightarrow> 'k emu" where
  "set_e_world w e = e\<lparr>e_cpu := set_world w (e_cpu e)\<rparr>"

definition unhandled_msg :: string where
  "unhandled_msg = ''unhandled syscall %u (%lx %lx %lx %lx %lx %lx) = -ENOSYS'' @
     '' -- please file a bug with these numbers and the architecture'' @ [CHR 0x0A]"

text \<open>
  The bit \<^verbatim>\<open>1 << nr % 64\<close> is a shift of an \<^verbatim>\<open>int\<close>: the machine takes the count modulo 32 and the result
  is sign-extended when it meets the 64-bit map.
\<close>

definition warn_bit :: "u64 \<Rightarrow> u64" where
  "warn_bit nr = scast (push_bit (unat nr mod 64 mod 32) (1 :: u32))"

definition unhandled_syscall :: "'k sysfn \<Rightarrow> u64 \<Rightarrow> u64 \<Rightarrow> u64 list \<Rightarrow> 'k emu \<Rightarrow> int \<times> 'k emu" where
  "unhandled_syscall sys loc nr args e =
     (let i = unat nr div 64 in
      if nr < 1024 \<and> warnmap e i AND warn_bit nr \<noteq> 0 then (- ENOSYS, e)
      else
        let e1 = (if nr < 1024 then e\<lparr>warnmap := (warnmap e)(i := warnmap e i OR warn_bit nr)\<rparr> else e)
        in (- ENOSYS, set_e_world (dprintf_w sys loc 2 unhandled_msg (map VInt (nr # args)) (e_world e1)) e1))"

subsection \<open>Helpers of the system calls\<close>

definition emu_call :: "'k sysfn \<Rightarrow> u64 \<Rightarrow> u64 list \<Rightarrow> 'k emu \<Rightarrow> int \<times> 'k emu" where
  "emu_call sys nr a e =
     (case c_syscall sys nr (a ! 0) (a ! 1) (a ! 2) (a ! 3) (a ! 4) (a ! 5) (e_world e) of
        (r, w) \<Rightarrow> (r, set_e_world w e))"

text \<open>
  The copy of a \<^verbatim>\<open>struct stat\<close>, field by field: the offset in the host's structure, the offset in the
  guest's and the number of bytes, in the order of the assignments.
\<close>

definition copy_fields :: "(nat \<times> nat \<times> nat) list \<Rightarrow> u64 \<Rightarrow> u64 \<Rightarrow> memory \<Rightarrow> memory" where
  "copy_fields fs src dst m =
     foldl (\<lambda>m (i, j, n). write_bytes m (dst + of_nat j) (read_bytes m (src + of_nat i) n)) m fs"

text \<open>
  The members of \<^verbatim>\<open>struct stat\<close>. The two guest structures are declared in the code, packed: a
  declaration is the list of its members with their sizes, \<open>None\<close> for padding, and a member lies behind
  those before it. The host's structure is that of the kernel's interface on x86-64.
\<close>

datatype stat_member = St_dev | St_ino | St_nlink | St_mode | St_uid | St_gid | St_rdev | St_size | St_blksize
  | St_blocks | St_atime | St_atime_nsec | St_mtime | St_mtime_nsec | St_ctime | St_ctime_nsec

type_synonym struct_decl = "(stat_member option \<times> nat) list"

fun member_at :: "nat \<Rightarrow> struct_decl \<Rightarrow> stat_member \<Rightarrow> nat \<times> nat" where
  "member_at off [] f = (off, 0)"
| "member_at off ((g, n) # ms) f = (if g = Some f then (off, n) else member_at (off + n) ms f)"

definition stat_decl_x86 :: struct_decl where
  "stat_decl_x86 = [(Some St_dev, 8), (Some St_ino, 8), (Some St_nlink, 8),
     (Some St_mode, 4), (Some St_uid, 4), (Some St_gid, 4), (None, 4), (Some St_rdev, 8), (Some St_size, 8),
     (Some St_blksize, 8), (Some St_blocks, 8), (Some St_atime, 8), (Some St_atime_nsec, 8), (Some St_mtime, 8),
     (Some St_mtime_nsec, 8), (Some St_ctime, 8), (Some St_ctime_nsec, 8), (None, 24)]"

definition stat_decl_generic :: struct_decl where
  "stat_decl_generic = [(Some St_dev, 8), (Some St_ino, 8), (Some St_mode, 4), (Some St_nlink, 4),
     (Some St_uid, 4), (Some St_gid, 4), (Some St_rdev, 8), (None, 8), (Some St_size, 8), (Some St_blksize, 4),
     (None, 4), (Some St_blocks, 8), (Some St_atime, 8), (Some St_atime_nsec, 8), (Some St_mtime, 8),
     (Some St_mtime_nsec, 8), (Some St_ctime, 8), (Some St_ctime_nsec, 8), (None, 8)]"

text \<open>Offset and size of every member as Linux documents them: on x86-64, and in the generic interface.\<close>

fun x86_64_abi :: "stat_member \<Rightarrow> nat \<times> nat" where
  "x86_64_abi St_dev = (0, 8)" | "x86_64_abi St_ino = (8, 8)" | "x86_64_abi St_nlink = (16, 8)"
| "x86_64_abi St_mode = (24, 4)" | "x86_64_abi St_uid = (28, 4)" | "x86_64_abi St_gid = (32, 4)"
| "x86_64_abi St_rdev = (40, 8)" | "x86_64_abi St_size = (48, 8)" | "x86_64_abi St_blksize = (56, 8)"
| "x86_64_abi St_blocks = (64, 8)" | "x86_64_abi St_atime = (72, 8)" | "x86_64_abi St_atime_nsec = (80, 8)"
| "x86_64_abi St_mtime = (88, 8)" | "x86_64_abi St_mtime_nsec = (96, 8)" | "x86_64_abi St_ctime = (104, 8)"
| "x86_64_abi St_ctime_nsec = (112, 8)"

fun generic_abi :: "stat_member \<Rightarrow> nat \<times> nat" where
  "generic_abi St_mode = (16, 4)" | "generic_abi St_nlink = (20, 4)" | "generic_abi St_uid = (24, 4)"
| "generic_abi St_gid = (28, 4)" | "generic_abi St_rdev = (32, 8)" | "generic_abi St_blksize = (56, 4)"
| "generic_abi f = x86_64_abi f"

text \<open>
  The assignments, target and source, in the order of the code. An assignment stores as many bytes as the
  target has; none of the targets is wider than its source.
\<close>

definition stat_assigns_x86 :: "(stat_member \<times> stat_member) list" where
  "stat_assigns_x86 = [(St_dev, St_dev), (St_ino, St_ino), (St_nlink, St_nlink), (St_mode, St_mode),
     (St_uid, St_uid), (St_gid, St_gid), (St_rdev, St_rdev), (St_size, St_size), (St_blksize, St_blksize),
     (St_blocks, St_blocks), (St_atime, St_atime), (St_atime_nsec, St_atime_nsec), (St_mtime, St_mtime),
     (St_mtime_nsec, St_mtime_nsec), (St_ctime, St_ctime), (St_ctime_nsec, St_ctime_nsec)]"

definition stat_assigns_generic :: "(stat_member \<times> stat_member) list" where
  "stat_assigns_generic = [(St_dev, St_dev), (St_ino, St_ino), (St_nlink, St_nlink), (St_mode, St_mode),
     (St_uid, St_uid), (St_gid, St_gid), (St_rdev, St_rdev), (St_size, St_size), (St_blksize, St_blksize),
     (St_blocks, St_blocks), (St_atime, St_atime), (St_atime_nsec, St_atime_nsec), (St_mtime, St_mtime),
     (St_mtime_nsec, St_mtime_nsec), (St_ctime, St_ctime), (St_ctime_nsec, St_ctime_nsec)]"

definition stat_fields_of :: "struct_decl \<Rightarrow> (stat_member \<times> stat_member) list \<Rightarrow> (nat \<times> nat \<times> nat) list" where
  "stat_fields_of decl = map (\<lambda>(t, s). (fst (x86_64_abi s), fst (member_at 0 decl t), snd (member_at 0 decl t)))"

definition stat_fields_x86 :: "(nat \<times> nat \<times> nat) list" where
  "stat_fields_x86 = stat_fields_of stat_decl_x86 stat_assigns_x86"

definition stat_fields_generic :: "(nat \<times> nat \<times> nat) list" where
  "stat_fields_generic = stat_fields_of stat_decl_generic stat_assigns_generic"

definition stat_common ::
  "(nat \<times> nat \<times> nat) list \<Rightarrow> u64 \<Rightarrow> u64 \<Rightarrow> int \<times> 'k emu \<Rightarrow> int \<times> 'k emu" where
  "stat_common fs tmp tgt re =
     (case re of (r, e) \<Rightarrow>
        if r = 0 then (r, set_e_world ((e_world e)\<lparr>mem := copy_fields fs tmp tgt (mem (e_world e))\<rparr>) e)
        else (r, e))"

text \<open>The signal system calls, shared by the two switches.\<close>

definition do_sigaction :: "'k sysfn \<Rightarrow> sigenv \<Rightarrow> u64 \<Rightarrow> u64 list \<Rightarrow> 'k emu \<Rightarrow> int \<times> 'k emu" where
  "do_sigaction sys se loc a e =
     (if a ! 3 \<noteq> 8 then (- EINVAL, e)
      else case signal_sigaction sys se loc (e_cpu e) (c_int (a ! 0)) (a ! 1) (a ! 2) of
        (r, c) \<Rightarrow> (r, e\<lparr>e_cpu := c\<rparr>))"

definition do_sigprocmask :: "'k sysfn \<Rightarrow> u64 \<Rightarrow> u64 list \<Rightarrow> 'k emu \<Rightarrow> int \<times> 'k emu" where
  "do_sigprocmask sys loc a e =
     (if a ! 3 \<noteq> 8 then (- EINVAL, e)
      else case signal_sigprocmask sys loc (e_cpu e) (c_int (a ! 0)) (a ! 1) (a ! 2) of
        (r, c) \<Rightarrow> (r, e\<lparr>e_cpu := c\<rparr>))"

definition do_sized_call :: "'k sysfn \<Rightarrow> u64 \<Rightarrow> u64 list \<Rightarrow> 'k emu \<Rightarrow> int \<times> 'k emu" where
  "do_sized_call sys nr a e =
     (if a ! 1 \<noteq> 8 then (- EINVAL, e) else emu_call sys nr [a ! 0, a ! 1, 0, 0, 0, 0] e)"

definition do_sigaltstack :: "u64 list \<Rightarrow> 'k emu \<Rightarrow> int \<times> 'k emu" where
  "do_sigaltstack a e =
     (case signal_sigaltstack (e_cpu e) (a ! 0) (a ! 1) of (r, c) \<Rightarrow> (r, e\<lparr>e_cpu := c\<rparr>))"

text \<open>\<^verbatim>\<open>F_DUPFD\<close> to \<^verbatim>\<open>F_SETOWN\<close> are 0 to 8, \<^verbatim>\<open>F_DUPFD_CLOEXEC\<close> is 1030; the switch is on the first argument.\<close>

definition do_fcntl :: "'k sysfn \<Rightarrow> u64 \<Rightarrow> u64 \<Rightarrow> u64 list \<Rightarrow> 'k emu \<Rightarrow> int \<times> 'k emu" where
  "do_fcntl sys loc nr a e =
     (if a ! 0 \<in> {0, 1, 2, 3, 4, 5, 6, 7, 8, 1030} then emu_call sys 72 a e
      else unhandled_syscall sys loc nr a e)"

abbreviation (input) FDCWD :: u64 where "FDCWD \<equiv> word_of_int AT_FDCWD"
abbreviation (input) AT_REMOVEDIR :: u64 where "AT_REMOVEDIR \<equiv> 0x200"
abbreviation (input) AT_SYMLINK_NOFOLLOW :: u64 where "AT_SYMLINK_NOFOLLOW \<equiv> 0x100"

subsection \<open>x86-64 guests\<close>

text \<open>The numbers passed on unchanged in their arguments: the guest's and the host's.\<close>

definition x86_native :: "(u64 \<times> u64) list" where
  "x86_native =
     [(0, 0), (1, 1), (3, 3), (8, 8), (9, 9), (10, 10), (11, 11), (12, 12), (16, 16), (17, 17), (18, 18),
      (19, 19), (20, 20), (23, 23), (24, 24), (25, 25), (28, 28), (32, 32), (39, 39), (41, 41), (42, 42),
      (63, 63), (76, 76), (77, 77), (79, 79), (80, 80), (81, 81), (91, 91), (96, 96), (97, 97), (99, 99),
      (102, 102), (104, 104), (107, 107), (108, 108), (115, 115), (116, 116), (137, 137), (161, 161),
      (186, 186), (191, 191), (192, 192), (193, 193), (202, 202), (217, 217), (218, 218), (221, 221),
      (228, 228), (229, 229), (230, 230), (257, 257), (260, 260), (268, 268), (270, 270), (271, 271),
      (273, 273), (274, 274), (292, 292), (293, 293), (302, 302), (318, 318)]"

text \<open>The old calls with replacements.\<close>

definition x86_replaced :: "u64 \<Rightarrow> u64 list \<Rightarrow> (u64 \<times> u64 list) option" where
  "x86_replaced nr a =
     (if nr = 2 then Some (257, [FDCWD, a ! 0, a ! 1, a ! 2, a ! 4, a ! 5])
      else if nr = 21 then Some (269, [FDCWD, a ! 0, a ! 1, 0, 0, 0])
      else if nr = 22 then Some (293, [a ! 0, 0, 0, 0, 0, 0])
      else if nr = 82 then Some (264, [FDCWD, a ! 0, FDCWD, a ! 1, 0, 0])
      else if nr = 83 then Some (258, [FDCWD, a ! 0, a ! 1, 0, 0, 0])
      else if nr = 84 then Some (263, [FDCWD, a ! 0, AT_REMOVEDIR, 0, 0, 0])
      else if nr = 87 then Some (263, [FDCWD, a ! 0, 0, 0, 0, 0])
      else if nr = 89 then Some (267, [FDCWD, a ! 0, a ! 1, a ! 2, 0, 0])
      else if nr = 90 then Some (268, [FDCWD, a ! 0, a ! 1, 0, 0, 0])
      else if nr = 92 then Some (260, [FDCWD, a ! 0, a ! 1, a ! 2, 0, 0])
      else if nr = 94 then Some (260, [FDCWD, a ! 0, a ! 1, a ! 2, AT_SYMLINK_NOFOLLOW, 0])
      else None)"

text \<open>The stat family; \<open>tmp\<close> is the address of the local structure.\<close>

definition x86_stat :: "'k sysfn \<Rightarrow> u64 \<Rightarrow> u64 \<Rightarrow> u64 list \<Rightarrow> 'k emu \<Rightarrow> int \<times> 'k emu" where
  "x86_stat sys tmp nr a e =
     (if nr = 262 then stat_common stat_fields_x86 tmp (a ! 2) (emu_call sys 262 [a ! 0, a ! 1, tmp, a ! 3, 0, 0] e)
      else
        stat_common stat_fields_x86 tmp (a ! 1)
          (if nr = 4 then emu_call sys 262 [FDCWD, a ! 0, tmp, 0, 0, 0] e
           else if nr = 5 then emu_call sys 5 [a ! 0, tmp, 0, 0, 0, 0] e
           else emu_call sys 262 [FDCWD, a ! 0, tmp, AT_SYMLINK_NOFOLLOW, 0, 0] e))"

definition x86_poll :: "'k sysfn \<Rightarrow> u64 \<Rightarrow> u64 list \<Rightarrow> 'k emu \<Rightarrow> int \<times> 'k emu" where
  "x86_poll sys loc a e =
     (if sint (a ! 2) \<ge> 0 then
        let w = e_world e;
            m = store64 (store64 (mem w) loc (a ! 2 div 1000)) (loc + 8) (a ! 2 mod 1000 * 1000000)
        in emu_call sys 271 [a ! 0, a ! 1, loc, 0, 8, 0] (set_e_world (w\<lparr>mem := m\<rparr>) e)
      else emu_call sys 271 [a ! 0, a ! 1, 0, 0, 8, 0] e)"

definition x86_dup2 :: "'k sysfn \<Rightarrow> u64 list \<Rightarrow> 'k emu \<Rightarrow> int \<times> 'k emu" where
  "x86_dup2 sys a e =
     (if a ! 0 = a ! 1 then
        (case emu_call sys 72 [a ! 0, F_GETFL, 0, 0, 0, 0] e of
           (r, e1) \<Rightarrow> (if r \<ge> 0 then sint (a ! 1) else r, e1))
      else emu_call sys 292 [a ! 0, a ! 1, 0, 0, 0, 0] e)"

definition set_reg :: "nat \<Rightarrow> u64 \<Rightarrow> 'k emu \<Rightarrow> 'k emu" where
  "set_reg i v e = e\<lparr>e_cpu := (e_cpu e)\<lparr>regdata := (regdata (e_cpu e))(i := v)\<rparr>\<rparr>"

definition x86_arch_prctl :: "u64 list \<Rightarrow> 'k emu \<Rightarrow> int \<times> 'k emu" where
  "x86_arch_prctl a e =
     (if a ! 0 = 0x1001 then (0, set_reg 19 (a ! 1) e)
      else if a ! 0 = 0x1002 then (0, set_reg 18 (a ! 1) e)
      else (- EINVAL, e))"

abbreviation (input) CLOCK_REALTIME_COARSE :: int where "CLOCK_REALTIME_COARSE \<equiv> 5"

definition x86_time :: "'k sysfn \<Rightarrow> u64 \<Rightarrow> u64 list \<Rightarrow> 'k emu \<Rightarrow> int \<times> 'k emu" where
  "x86_time sys loc a e =
     (let w1 = snd (clock_gettime sys CLOCK_REALTIME_COARSE loc (e_world e));
          sec = load64 (mem w1) loc;
          w2 = (if a ! 0 \<noteq> 0 then w1\<lparr>mem := store64 (mem w1) (a ! 0) sec\<rparr> else w1)
      in (sint sec, set_e_world w2 e))"

definition profile_msg :: string where
  "profile_msg = ''Rewriting %u bytes took %u ms'' @ [CHR 0x0A]"

definition x86_exit_group :: "'k sysfn \<Rightarrow> u64 \<Rightarrow> u64 list \<Rightarrow> 'k emu \<Rightarrow> int \<times> 'k emu" where
  "x86_exit_group sys loc a e =
     (let st = cs_state (e_cpu e);
          e1 = (if tc_profile (st_tc st) \<noteq> 0 then
                  set_e_world (dprintf_w sys loc 2 profile_msg
                    [VInt (ucast (ucast (written_bytes (st_translator st)) :: u32)),
                     VInt (ucast (ucast (rew_time st div 1000000) :: u32))] (e_world e)) e
                else e)
      in emu_call sys 231 a e1)"

text \<open>
  The switch of \<^verbatim>\<open>emulate_syscall\<close> without \<^verbatim>\<open>rt_sigreturn\<close>; locals are at \<open>loc\<close>, with the temporary \<^verbatim>\<open>struct stat\<close> of
  144 bytes behind 16 bytes for a time.
\<close>

definition x86_syscall ::
  "'k sysfn \<Rightarrow> sigenv \<Rightarrow> u64 \<Rightarrow> u64 \<Rightarrow> u64 list \<Rightarrow> 'k emu \<Rightarrow> int \<times> 'k emu" where
  "x86_syscall sys se loc nr a e =
     (case map_of x86_native nr of
        Some host \<Rightarrow> emu_call sys host a e
      | None \<Rightarrow>
      case x86_replaced nr a of
        Some (host, b) \<Rightarrow> emu_call sys host b e
      | None \<Rightarrow>
      if nr \<in> {262, 4, 5, 6} then x86_stat sys (loc + 16) nr a e
      else if nr = 7 then x86_poll sys loc a e
      else if nr = 33 then x86_dup2 sys a e
      else if nr = 34 then emu_call sys 271 [0, 0, 0, 0, 0, 0] e
      else if nr = 72 then do_fcntl sys loc nr a e
      else if nr = 157 then (- EINVAL, e)
      else if nr = 158 then x86_arch_prctl a e
      else if nr = 201 then x86_time sys loc a e
      else if nr = 231 then x86_exit_group sys loc a e
      else if nr \<in> {203, 204, 334} then (- ENOSYS, e)
      else if nr = 13 then do_sigaction sys se loc a e
      else if nr = 14 then do_sigprocmask sys loc a e
      else if nr = 127 then do_sized_call sys 127 a e
      else if nr = 130 then do_sized_call sys 130 a e
      else if nr = 131 then do_sigaltstack a e
      else unhandled_syscall sys loc nr a e)"

text \<open>
  The end of a system call: the result goes to register \<open>r\<close>, and a pending signal is handled. \<open>Inl\<close>
  is an aborted process.
\<close>

definition finish_syscall ::
  "'k sysfn \<Rightarrow> sigenv \<Rightarrow> u64 \<Rightarrow> 'k emu \<Rightarrow> 'k world + 'k emu" where
  "finish_syscall sys se loc e =
     (if sigpending (e_cpu e) \<noteq> 0 then
        (case signal_handle sys se loc (e_cpu e) of Inl w \<Rightarrow> Inl w | Inr c \<Rightarrow> Inr (e\<lparr>e_cpu := c\<rparr>))
      else Inr e)"

definition emulate_syscall :: "'k sysfn \<Rightarrow> sigenv \<Rightarrow> u64 \<Rightarrow> 'k emu \<Rightarrow> 'k world + 'k emu" where
  "emulate_syscall sys se loc e =
     (let r = regdata (e_cpu e); nr = r 1; a = [r 8, r 7, r 3, r 11, r 9, r 10] in
      if nr = 15 then Inl (signal_sigreturn sys se loc (e_cpu e))
      else case x86_syscall sys se loc nr a e of
        (res, e1) \<Rightarrow> finish_syscall sys se loc (set_reg 1 (word_of_int res) e1))"

subsection \<open>Guests with the generic numbers\<close>

definition generic_native :: "(u64 \<times> u64) list" where
  "generic_native =
     [(17, 79), (23, 32), (24, 292), (29, 16), (35, 263), (38, 264), (46, 77), (48, 269), (49, 80), (50, 81),
      (51, 161), (52, 91), (53, 268), (54, 260), (55, 93), (56, 257), (57, 3), (59, 293), (61, 217), (62, 8),
      (63, 0), (64, 1), (65, 19), (66, 20), (67, 17), (68, 18), (73, 271), (78, 267), (93, 60), (94, 231),
      (96, 218), (99, 273), (100, 274), (113, 228), (114, 229), (115, 230), (124, 24), (131, 234), (169, 96),
      (172, 39), (173, 110), (174, 102), (175, 107), (176, 104), (177, 108), (178, 186), (179, 99), (214, 12),
      (215, 11), (216, 25), (222, 9), (223, 221), (226, 10), (233, 28), (260, 61), (261, 302), (276, 316),
      (278, 318)]"

definition generic_stat :: "'k sysfn \<Rightarrow> u64 \<Rightarrow> u64 \<Rightarrow> u64 list \<Rightarrow> 'k emu \<Rightarrow> int \<times> 'k emu" where
  "generic_stat sys tmp nr a e =
     (if nr = 80 then stat_common stat_fields_generic tmp (a ! 1) (emu_call sys 5 [a ! 0, tmp, 0, 0, 0, 0] e)
      else stat_common stat_fields_generic tmp (a ! 2) (emu_call sys 262 [a ! 0, a ! 1, tmp, a ! 3, 0, 0] e))"

text \<open>The release string is at offset 130 of \<^verbatim>\<open>struct new_utsname\<close>.\<close>

definition generic_uname :: "'k sysfn \<Rightarrow> u64 list \<Rightarrow> 'k emu \<Rightarrow> int \<times> 'k emu" where
  "generic_uname sys a e =
     (case emu_call sys 63 [a ! 0, 0, 0, 0, 0, 0] e of
        (r, e1) \<Rightarrow>
          let m = mem (e_world e1); rel = a ! 0 + 130 in
          if r = 0 \<and> sint (load8 m rel) \<le> 52 \<and> load8 m (rel + 1) = 46 then
            (r, set_e_world ((e_world e1)\<lparr>mem := write_bytes m rel (text_bytes ''5.0.0'' @ [0])\<rparr>) e1)
          else (r, e1))"

text \<open>\<open>Inl\<close> is the branch of \<^verbatim>\<open>rt_sigreturn\<close>, which aborts.\<close>

definition emulate_syscall_generic ::
  "'k sysfn \<Rightarrow> sigenv \<Rightarrow> u64 \<Rightarrow> u64 \<Rightarrow> u64 list \<Rightarrow> 'k emu \<Rightarrow> 'k world + (int \<times> 'k emu)" where
  "emulate_syscall_generic sys se loc nr a e =
     (if nr = 139 then Inl (signal_sigreturn sys se loc (e_cpu e))
      else Inr
       (case map_of generic_native nr of
          Some host \<Rightarrow> emu_call sys host a e
        | None \<Rightarrow>
        if nr = 25 then do_fcntl sys loc nr a e
        else if nr = 79 \<or> nr = 80 then generic_stat sys (loc + 16) nr a e
        else if nr = 160 then generic_uname sys a e
        else if nr \<in> {122, 123, 293} then (- ENOSYS, e)
        else if nr = 134 then do_sigaction sys se loc a e
        else if nr = 135 then do_sigprocmask sys loc a e
        else if nr = 136 then do_sized_call sys 127 a e
        else if nr = 133 then do_sized_call sys 130 a e
        else if nr = 132 then do_sigaltstack a e
        else unhandled_syscall sys loc nr a e))"

definition emulate_rv64_syscall :: "'k sysfn \<Rightarrow> sigenv \<Rightarrow> u64 \<Rightarrow> 'k emu \<Rightarrow> 'k world + 'k emu" where
  "emulate_rv64_syscall sys se loc e =
     (let r = regdata (e_cpu e) in
      case emulate_syscall_generic sys se loc (r 18) [r 11, r 12, r 13, r 14, r 15, r 16] e of
        Inl w \<Rightarrow> Inl w
      | Inr (res, e1) \<Rightarrow> finish_syscall sys se loc (set_reg 11 (word_of_int res) e1))"

definition emulate_aarch64_syscall :: "'k sysfn \<Rightarrow> sigenv \<Rightarrow> u64 \<Rightarrow> 'k emu \<Rightarrow> 'k world + 'k emu" where
  "emulate_aarch64_syscall sys se loc e =
     (let r = regdata (e_cpu e); a2 = (if r 10 = 56 then openat_flags_aarch64 (r 4) else r 4) in
      case emulate_syscall_generic sys se loc (r 10) [r 2, r 3, a2, r 5, r 6, r 7] e of
        Inl w \<Rightarrow> Inl w
      | Inr (res, e1) \<Rightarrow> finish_syscall sys se loc (set_reg 2 (word_of_int res) e1))"
subsection \<open>Open flags are translated back and forth\<close>

lemma and_exp_bit: "x AND 2 ^ k \<noteq> 0 \<longleftrightarrow> bit (x :: 'a::len word) k"
  by (simp add: and_exp_eq_0_iff_not_bit)

lemma flag_bits:
  fixes f :: "'a::len word"
  assumes "17 < LENGTH('a)"
  shows "bit ((f AND NOT 0x3c000) OR onlyif (f AND 0x4000 \<noteq> 0) 0x10000 OR onlyif (f AND 0x8000 \<noteq> 0) 0x20000
       OR onlyif (f AND 0x10000 \<noteq> 0) 0x4000 OR onlyif (f AND 0x20000 \<noteq> 0) 0x8000) k \<longleftrightarrow>
    bit f (if k = 14 then 16 else if k = 15 then 17 else if k = 16 then 14 else if k = 17 then 15 else k)"
proof -
  have c: "(0x3c000 :: 'a word) = 2 ^ 14 OR 2 ^ 15 OR 2 ^ 16 OR 2 ^ 17" by simp
  have e: "(0x4000 :: 'a word) = 2 ^ 14" "(0x8000 :: 'a word) = 2 ^ 15" "(0x10000 :: 'a word) = 2 ^ 16"
    "(0x20000 :: 'a word) = 2 ^ 17" by simp_all
  have b: "bit (2 ^ n :: 'a word) j \<longleftrightarrow> j = n \<and> n < LENGTH('a)" for n j by (auto simp: bit_simps)
  have v: "bit (0x4000 :: 'a word) k \<longleftrightarrow> k = 14" "bit (0x8000 :: 'a word) k \<longleftrightarrow> k = 15"
    "bit (0x10000 :: 'a word) k \<longleftrightarrow> k = 16" "bit (0x20000 :: 'a word) k \<longleftrightarrow> k = 17"
    unfolding e b using assms by auto
  have m: "bit (NOT 0x3c000 :: 'a word) k \<longleftrightarrow> k < LENGTH('a) \<and> k \<notin> {14, 15, 16, 17}"
    unfolding c bit_not_iff bit_or_iff b using assms by auto
  have t: "f AND 0x4000 \<noteq> 0 \<longleftrightarrow> bit f 14" "f AND 0x8000 \<noteq> 0 \<longleftrightarrow> bit f 15"
    "f AND 0x10000 \<noteq> 0 \<longleftrightarrow> bit f 16" "f AND 0x20000 \<noteq> 0 \<longleftrightarrow> bit f 17"
    unfolding e and_exp_bit by simp_all
  have l: "bit f k \<Longrightarrow> k < LENGTH('a)" by (rule bit_imp_le_length)
  have w: "bit (onlyif p (x :: 'a word)) k \<longleftrightarrow> p \<and> bit x k" for p x by simp
  show ?thesis
    unfolding bit_or_iff bit_and_iff m w v t using l by auto
qed

text \<open>
  For an aarch64 guest on an aarch64 host the open flags arrive unchanged: what the two
  translations do to the lower 32 bits cancels, for every flag word.
\<close>

theorem openat_flags_roundtrip: "emulate_openat_flags (ucast (openat_flags_aarch64 a2)) = ucast a2"
proof (rule bit_word_eqI)
  fix k assume k: "k < LENGTH(32)"
  have i: "bit (emulate_openat_flags f) k \<longleftrightarrow>
      bit f (if k = 14 then 16 else if k = 15 then 17 else if k = 16 then 14 else if k = 17 then 15 else k)" for f
    unfolding emulate_openat_flags_def by (rule flag_bits) simp
  have o: "bit (openat_flags_aarch64 a2) n \<longleftrightarrow>
      bit a2 (if n = 14 then 16 else if n = 15 then 17 else if n = 16 then 14 else if n = 17 then 15 else n)" for n
    unfolding openat_flags_aarch64_def by (rule flag_bits) simp
  show "bit (emulate_openat_flags (ucast (openat_flags_aarch64 a2))) k = bit (ucast a2 :: u32) k"
    using k by (simp add: i bit_ucast_iff o)
qed

subsection \<open>Copying structures\<close>

lemma in_range_sub: "i + n \<le> N \<Longrightarrow> N \<le> 2 ^ 63 \<Longrightarrow> range_at (p + of_nat i) n \<subseteq> range_at p N"
proof
  fix x assume a: "i + n \<le> N" "N \<le> 2 ^ 63" and "x \<in> range_at (p + of_nat i) n"
  then have x: "unat (x - (p + of_nat i)) < n" by (simp add: range_at_def)
  have "x - p = (x - (p + of_nat i)) + of_nat i" by simp
  then have "unat (x - p) = (unat (x - (p + of_nat i)) + unat (of_nat i :: u64)) mod 2 ^ 64"
    using unat_word_ariths(1)[of "x - (p + of_nat i)" "of_nat i"] by simp
  also have "unat (of_nat i :: u64) = i" using a by (intro unat_of_nat_64) simp
  finally have "unat (x - p) \<le> unat (x - (p + of_nat i)) + i" by simp
  with x a(1) show "x \<in> range_at p N" by (simp add: range_at_def)
qed

lemma slots_disjoint:
  assumes "j + n \<le> k \<or> k + l \<le> j" and "j + n \<le> 2 ^ 63" and "k + l \<le> 2 ^ 63"
  shows "range_at (p + of_nat j) n \<inter> range_at (p + of_nat k) l = {}"
proof -
  have d: "range_at (p + of_nat a) x \<inter> range_at (p + of_nat b) y = {}"
    if "a + x \<le> b" "b + y \<le> 2 ^ 63" for a b x y
  proof -
    have "p + of_nat b - (p + of_nat a) = of_nat (b - a)" using that by (simp add: of_nat_diff)
    moreover have "unat (of_nat (b - a) :: u64) = b - a" using that by (intro unat_of_nat_64) simp
    ultimately show ?thesis using that by (intro range_at_disjoint) simp_all
  qed
  from assms d[of j n k l] d[of k l j n] show ?thesis by blast
qed

definition fields_ok :: "nat \<Rightarrow> (nat \<times> nat \<times> nat) list \<Rightarrow> bool" where
  "fields_ok N fs \<longleftrightarrow> (\<forall>(i, j, n) \<in> set fs. i + n \<le> N \<and> j + n \<le> N) \<and>
     sorted_wrt (\<lambda>(i, j, n) (i', j', n'). j + n \<le> j' \<or> j' + n' \<le> j) fs"

lemma copy_fields_Cons:
  "copy_fields ((i, j, n) # fs) src dst m =
    copy_fields fs src dst (write_bytes m (dst + of_nat j) (read_bytes m (src + of_nat i) n))"
  by (simp add: copy_fields_def)

lemma copy_fields_outside:
  assumes "\<And>i j n. (i, j, n) \<in> set fs \<Longrightarrow> x \<notin> range_at (dst + of_nat j) n \<and> n \<le> 2 ^ 63"
  shows "copy_fields fs src dst m x = m x"
  using assms
proof (induction fs arbitrary: m)
  case (Cons f fs)
  obtain i j n where f: "f = (i, j, n)" by (cases f)
  have "write_bytes m (dst + of_nat j) (read_bytes m (src + of_nat i) n) x = m x"
    using Cons.prems[of i j n] by (intro write_bytes_outside) (auto simp: f)
  moreover have "copy_fields fs src dst m' x = m' x" for m'
    by (rule Cons.IH) (use Cons.prems in auto)
  ultimately show ?case by (simp add: f copy_fields_Cons)
qed (simp add: copy_fields_def)

lemma read_bytes_outside:
  assumes "range_at p n \<inter> range_at q (length bs) = {}" and "n \<le> 2 ^ 63" and "length bs \<le> 2 ^ 63"
  shows "read_bytes (write_bytes m q bs) p n = read_bytes m p n"
proof (rule read_bytes_cong)
  fix i assume "i < n"
  with assms(2) have "p + of_nat i \<in> range_at p n" by (intro range_at_offset) auto
  with assms show "write_bytes m q bs (p + of_nat i) = m (p + of_nat i)"
    by (intro write_bytes_outside) auto
qed

lemma copy_fields_read:
  assumes "fields_ok N fs" and "N \<le> 2 ^ 62" and "range_at src N \<inter> range_at dst N = {}"
    and "(i, j, n) \<in> set fs"
  shows "read_bytes (copy_fields fs src dst m) (dst + of_nat j) n = read_bytes m (src + of_nat i) n"
  using assms
proof (induction fs arbitrary: m)
  case (Cons f fs)
  obtain i' j' n' where f: "f = (i', j', n')" by (cases f)
  let ?m = "write_bytes m (dst + of_nat j') (read_bytes m (src + of_nat i') n')"
  have b: "i' + n' \<le> N" "j' + n' \<le> N" using Cons.prems(1) by (auto simp: fields_ok_def f)
  have ok: "fields_ok N fs" using Cons.prems(1) by (auto simp: fields_ok_def)
  show ?case
  proof (cases "(i, j, n) \<in> set fs")
    case True
    then have bn: "i + n \<le> N" using ok by (auto simp: fields_ok_def)
    have "range_at (src + of_nat i) n \<inter> range_at (dst + of_nat j') n' = {}"
      using in_range_sub[of i n N src] in_range_sub[of j' n' N dst] bn b Cons.prems(2,3) by auto
    then have "read_bytes ?m (src + of_nat i) n = read_bytes m (src + of_nat i) n"
      using bn b Cons.prems(2) by (intro read_bytes_outside) auto
    with Cons.IH[OF ok Cons.prems(2,3) True, of ?m] show ?thesis by (simp add: f copy_fields_Cons)
  next
    case False
    with Cons.prems(4) have e: "i' = i" "j' = j" "n' = n" by (auto simp: f)
    have "read_bytes (copy_fields fs src dst ?m) (dst + of_nat j) n = read_bytes ?m (dst + of_nat j) n"
    proof (rule read_bytes_cong, rule copy_fields_outside)
      fix k a c l assume k: "k < n" and acl: "(a, c, l) \<in> set fs"
      have s: "j + n \<le> c \<or> c + l \<le> j" "c + l \<le> N"
        using Cons.prems(1) acl by (auto simp: fields_ok_def f e)
      have "range_at (dst + of_nat j) n \<inter> range_at (dst + of_nat c) l = {}"
        using s b e Cons.prems(2) by (intro slots_disjoint) auto
      moreover have "dst + of_nat j + of_nat k \<in> range_at (dst + of_nat j) n"
        using k b e Cons.prems(2) by (intro range_at_offset) auto
      ultimately show "dst + of_nat j + of_nat k \<notin> range_at (dst + of_nat c) l \<and> l \<le> 2 ^ 63"
        using s Cons.prems(2) by auto
    qed
    also have "\<dots> = read_bytes m (src + of_nat i) n"
      using read_write_bytes[of "read_bytes m (src + of_nat i) n" m "dst + of_nat j"] b e Cons.prems(2) by simp
    finally show ?thesis by (simp add: f e copy_fields_Cons)
  qed
qed simp

lemmas stat_tables = stat_fields_x86_def stat_fields_generic_def stat_fields_of_def stat_decl_x86_def stat_decl_generic_def
  stat_assigns_x86_def stat_assigns_generic_def

lemma stat_fields_ok: "fields_ok 120 stat_fields_x86" "fields_ok 120 stat_fields_generic"
  by (simp_all add: fields_ok_def stat_tables)

lemma take_read_bytes: "k \<le> n \<Longrightarrow> take k (read_bytes m a n) = read_bytes m a k"
proof (induction m a n arbitrary: k rule: read_bytes.induct)
  case (2 m a n)
  then show ?case by (cases k) auto
qed simp

lemma stat_fields_abi_x86: "(fst (x86_64_abi f), fst (x86_64_abi f), snd (x86_64_abi f)) \<in> set stat_fields_x86"
  by (cases f) (simp_all add: stat_tables)

lemma stat_fields_abi_generic: "(fst (x86_64_abi f), fst (generic_abi f), snd (generic_abi f)) \<in> set stat_fields_generic"
  by (cases f) (simp_all add: stat_tables)

text \<open>
  C21: After a successful stat call every member of the guest's structure has the value of the same member
  of the host's: at the offset and with the size that the guest's kernel interface documents (that of
  x86-64, or the generic one of RISC-V and AArch64) are the bytes of the member of that name in the host's
  structure, the low ones where the guest's is narrower; and memory outside the 120 bytes of the guest's
  members is as the kernel left it.
\<close>

theorem stat_translated:
  assumes "(fs, abi) \<in> {(stat_fields_x86, x86_64_abi), (stat_fields_generic, generic_abi)}"
    and "range_at tmp 120 \<inter> range_at tgt 120 = {}"
  shows "let m = mem (e_world e); (r, e') = stat_common fs tmp tgt (0, e); m' = mem (e_world e') in
    r = 0 \<and>
    (\<forall>f. case (abi f, x86_64_abi f) of ((off, n), (host_off, host_n)) \<Rightarrow> n \<le> host_n \<and>
       read_bytes m' (tgt + of_nat off) n = take n (read_bytes m (tmp + of_nat host_off) host_n)) \<and>
    (\<forall>x. x \<notin> range_at tgt 120 \<longrightarrow> m' x = m x)"
proof -
  have ok: "fields_ok 120 fs" using assms(1) stat_fields_ok by blast
  have w: "mem (e_world (snd (stat_common fs tmp tgt (0, e)))) = copy_fields fs tmp tgt (mem (e_world e))"
    by (simp add: stat_common_def set_e_world_def)
  have "copy_fields fs tmp tgt m x = m x" if "x \<notin> range_at tgt 120" for m x
  proof (rule copy_fields_outside)
    fix i j n assume "(i, j, n) \<in> set fs"
    then have "j + n \<le> 120" using ok by (auto simp: fields_ok_def)
    with in_range_sub[of j n 120 tgt] that show "x \<notin> range_at (tgt + of_nat j) n \<and> n \<le> 2 ^ 63" by auto
  qed
  moreover have "snd (abi f) \<le> snd (x86_64_abi f) \<and> (fst (x86_64_abi f), fst (abi f), snd (abi f)) \<in> set fs" for f
    using assms(1) stat_fields_abi_x86[of f] stat_fields_abi_generic[of f] by (cases f) auto
  ultimately show ?thesis
    using copy_fields_read[OF ok _ assms(2)] w
    by (simp add: Let_def case_prod_beta stat_common_def take_read_bytes)
qed

text \<open>A file of user 1000 and group 100: the numbers are found where a RISC-V guest looks for them.\<close>

theorem stat_translated_witness:
  "let e = \<lparr>e_cpu = demo_cpu 0, warnmap = (\<lambda>_. 0)\<rparr>;
       e1 = set_e_world ((e_world e)\<lparr>mem := write_bytes (mem (e_world e)) 0x101c [0xe8, 3, 0, 0, 100, 0, 0, 0]\<rparr>) e;
       m' = mem (e_world (snd (stat_common stat_fields_generic 0x1000 0x2000 (0, e1)))) in
   read_bytes m' 0x2018 4 = [0xe8, 3, 0, 0] \<and> read_bytes m' 0x201c 4 = [100, 0, 0, 0]"
proof -
  define e :: "unit emu" where "e = \<lparr>e_cpu = demo_cpu 0, warnmap = (\<lambda>_. 0)\<rparr>"
  define e1 where "e1 = set_e_world ((e_world e)\<lparr>mem := write_bytes (mem (e_world e)) 0x101c [0xe8, 3, 0, 0, 100, 0, 0, 0]\<rparr>) e"
  have d: "range_at (0x1000 :: u64) 120 \<inter> range_at 0x2000 120 = {}" by (rule range_at_disjoint) simp_all
  have all: "\<forall>f. read_bytes (mem (e_world (snd (stat_common stat_fields_generic 0x1000 0x2000 (0, e1)))))
      (0x2000 + of_nat (fst (generic_abi f))) (snd (generic_abi f)) =
      take (snd (generic_abi f)) (read_bytes (mem (e_world e1)) (0x1000 + of_nat (fst (x86_64_abi f))) (snd (x86_64_abi f)))"
    using stat_translated[OF _ d, of stat_fields_generic generic_abi e1] by (simp add: Let_def case_prod_beta)
  have "read_bytes (mem (e_world e1)) 0x101c 4 = [0xe8, 3, 0, 0]" "read_bytes (mem (e_world e1)) 0x1020 4 = [100, 0, 0, 0]"
    by (simp_all add: e1_def set_e_world_def read_bytes_numeral)
  with all[rule_format, of St_uid] all[rule_format, of St_gid] show ?thesis
    unfolding Let_def e_def[symmetric] e1_def[symmetric] by simp
qed

subsection \<open>What a system call assigns\<close>

text \<open>
  The state outside the memory: the function table, the quick table, the configuration and,
  outside a set of registers, the guest registers.
\<close>

definition kept :: "nat set \<Rightarrow> 'k emu \<Rightarrow> 'k emu \<Rightarrow> bool" where
  "kept R e e' \<longleftrightarrow> cs_objects (e_cpu e') = cs_objects (e_cpu e) \<and> quick_tlb (e_cpu e') = quick_tlb (e_cpu e) \<and>
     st_tc (cs_state (e_cpu e')) = st_tc (cs_state (e_cpu e)) \<and>
     (\<forall>i. i \<notin> R \<longrightarrow> regdata (e_cpu e') i = regdata (e_cpu e) i)"

named_theorems kept_intros

lemma kept_refl [kept_intros]: "kept R e e"
  by (simp add: kept_def)

lemma kept_trans: "kept R e e1 \<Longrightarrow> kept S e1 e2 \<Longrightarrow> kept (R \<union> S) e e2"
  by (simp add: kept_def)

lemma kept_set_e_world [simp]: "kept R e (set_e_world w e') = kept R e e'"
  by (simp add: kept_def set_e_world_def)

lemma kept_emu_call [kept_intros]: "kept R e (snd (emu_call sys nr a e))"
  by (simp add: emu_call_def case_prod_beta kept_refl)

lemma kept_warnmap [simp]: "kept R e (e'\<lparr>warnmap := f\<rparr>) = kept R e e'"
  by (simp add: kept_def)

lemma kept_unhandled [kept_intros]: "kept R e (snd (unhandled_syscall sys loc nr a e))"
  by (simp add: unhandled_syscall_def Let_def kept_refl)

lemma kept_stat_common [kept_intros]: "kept R e (snd re) \<Longrightarrow> kept R e (snd (stat_common fs tmp tgt re))"
  by (simp add: stat_common_def case_prod_beta)

lemma update_hostmask_keeps [simp]:
  "cs_objects (snd (signal_update_hostmask sys loc cs)) = cs_objects cs"
  "quick_tlb (snd (signal_update_hostmask sys loc cs)) = quick_tlb cs"
  "regdata (snd (signal_update_hostmask sys loc cs)) = regdata cs"
  "st_tc (cs_state (snd (signal_update_hostmask sys loc cs))) = st_tc (cs_state cs)"
  by (simp_all add: signal_update_hostmask_def Let_def case_prod_beta)

lemma kept_signals [kept_intros]:
  "kept R e (snd (do_sigaction sys se loc a e))"
  "kept R e (snd (do_sigprocmask sys loc a e))"
  "kept R e (snd (do_sigaltstack a e))"
  by (simp_all add: kept_def do_sigaction_def do_sigprocmask_def do_sigaltstack_def case_prod_beta
      signal_sigaction_def signal_sigprocmask_def signal_sigaltstack_def Let_def split: option.splits)

lemma kept_x86_parts [kept_intros]:
  "kept R e (snd (x86_stat sys tmp nr a e))"
  "kept R e (snd (x86_poll sys loc a e))"
  "kept R e (snd (x86_dup2 sys a e))"
  "kept R e (snd (do_fcntl sys loc nr a e))"
  "kept {18, 19} e (snd (x86_arch_prctl a e))"
  "kept R e (snd (x86_time sys loc a e))"
  "kept R e (snd (x86_exit_group sys loc a e))"
  "kept R e (snd (do_sized_call sys nr a e))"
proof -
  show "kept R e (snd (x86_poll sys loc a e))"
    using kept_emu_call[of R "set_e_world w e" for w] kept_emu_call[of R e]
    by (auto simp: x86_poll_def Let_def emu_call_def case_prod_beta kept_refl)
  show "kept R e (snd (x86_exit_group sys loc a e))"
    by (simp add: x86_exit_group_def Let_def emu_call_def case_prod_beta kept_refl)
  show "kept {18, 19} e (snd (x86_arch_prctl a e))"
    by (simp add: x86_arch_prctl_def set_reg_def kept_def)
qed (auto simp: x86_stat_def x86_dup2_def do_fcntl_def x86_time_def do_sized_call_def Let_def case_prod_beta
      intro!: kept_intros)

lemma kept_if: "kept R e (snd x) \<Longrightarrow> kept R e (snd y) \<Longrightarrow> kept R e (snd (if c then x else y))"
  by simp

lemma kept_pair: "kept R e (snd (v, e))"
  by (simp add: kept_refl)

lemma kept_x86_syscall: "kept {18, 19} e (snd (x86_syscall sys se loc nr a e))"
  unfolding x86_syscall_def
  by (cases "map_of x86_native nr"; cases "x86_replaced nr a"; simp only: option.case case_prod_beta)
    (intro kept_if kept_pair kept_intros)+

lemma kept_set_reg: "kept R e e' \<Longrightarrow> kept (insert r R) e (set_reg r v e')"
  by (simp add: kept_def set_reg_def)

lemma kept_finish: "kept R e e1 \<Longrightarrow> finish_syscall sys se loc e1 = Inr e' \<Longrightarrow> kept R e e'"
  by (auto simp: finish_syscall_def kept_def dest!: signal_handle_effect split: if_splits sum.splits)

text \<open>
  The assignments of the emulator itself: of the registers it sets rax (1) and, for arch_prctl, the segment
  bases (18 and 19), and it touches neither the function table nor the quick table. The CPU state is not
  part of the modelled memory, so what the kernel may do to it through a pointer or a mapping of the guest
  is not covered.
\<close>

lemma emulate_syscall_assigns:
  assumes "emulate_syscall sys se loc e = Inr e'"
  shows "kept {1, 18, 19} e e'"
proof -
  let ?r = "regdata (e_cpu e)"
  obtain res e1 where x: "x86_syscall sys se loc (?r 1) [?r 8, ?r 7, ?r 3, ?r 11, ?r 9, ?r 10] e = (res, e1)"
    by (rule prod.exhaust)
  with assms have f: "finish_syscall sys se loc (set_reg 1 (word_of_int res) e1) = Inr e'"
    by (simp add: emulate_syscall_def Let_def split: if_splits)
  have "kept {18, 19} e e1"
    using kept_x86_syscall[of e sys se loc "?r 1" "[?r 8, ?r 7, ?r 3, ?r 11, ?r 9, ?r 10]"]
    by (simp only: x snd_conv)
  from kept_finish[OF kept_set_reg[OF this] f] show ?thesis by simp
qed

text \<open>
  C32: A system call with a native counterpart is passed on as it is: for every number of the table the
  kernel receives the same number and the guest's six arguments, and its result is returned in
  rax with nothing else of the state changed but what the kernel did.
\<close>

theorem native_passed_on:
  assumes "(regdata (e_cpu e) 1, host) \<in> set x86_native" and "sigpending (e_cpu e) = 0"
  shows "let r = regdata (e_cpu e);
             (v, w) = do_syscall sys (r 1) [r 8, r 7, r 3, r 11, r 9, r 10] (e_world e) in
    host = r 1 \<and> emulate_syscall sys se loc e = Inr (set_reg 1 v (set_e_world w e))"
proof -
  let ?r = "regdata (e_cpu e)"
  have d: "distinct (map fst x86_native)" and n: "15 \<notin> fst ` set x86_native"
    and i: "\<forall>(g, h) \<in> set x86_native. g = h \<and> word_of_int (c_int g) = g"
    by (simp_all add: x86_native_def c_int_def)
  have "map_of x86_native (?r 1) = Some host" by (rule map_of_is_SomeI[OF d assms(1)])
  moreover have "?r 1 \<noteq> 15" using n assms(1) by force
  moreover have "host = ?r 1" "word_of_int (c_int (?r 1)) = ?r 1" using i assms(1) by auto
  ultimately show ?thesis using assms(2)
    by (simp add: emulate_syscall_def x86_syscall_def emu_call_def c_syscall_def syscall6_def ret_ssize_def
        finish_syscall_def set_reg_def set_e_world_def case_prod_beta Let_def)
qed
text \<open>A guest about to make system call \<open>nr\<close>.\<close>

definition demo_emu :: "u64 \<Rightarrow> u64 \<Rightarrow> unit emu" where
  "demo_emu nr arg0 = \<lparr>e_cpu = (demo_cpu 0x401000)\<lparr>regdata := (\<lambda>_. 0)(1 := nr, 8 := arg0)\<rparr>, warnmap = (\<lambda>_. 0)\<rparr>"

definition demo_sigenv :: sigenv where
  "demo_sigenv = \<lparr>restore_addr = 0x5000, handler_addr = 0x6000\<rparr>"

lemma demo_emu_simps:
  "regdata (e_cpu (demo_emu nr a)) = (\<lambda>_. 0)(1 := nr, 8 := a)" "sigpending (e_cpu (demo_emu nr a)) = 0"
  "tlb_inv (e_cpu (demo_emu nr a))"
  using demo_cpu_inv[of "0x401000"] by (simp_all add: demo_emu_def demo_cpu_def tlb_inv_def)

theorem native_passed_on_witness:
  "\<exists>v w. do_syscall grant_sys 39 [0, 0, 0, 0, 0, 0] (e_world (demo_emu 39 0)) = (v, w) \<and>
     emulate_syscall grant_sys demo_sigenv 0x1000 (demo_emu 39 0) = Inr (set_reg 1 v (set_e_world w (demo_emu 39 0)))"
proof -
  have "(regdata (e_cpu (demo_emu 39 0)) 1, 39) \<in> set x86_native"
    by (simp add: demo_emu_simps x86_native_def)
  from native_passed_on[OF this demo_emu_simps(2), of grant_sys demo_sigenv "0x1000"] show ?thesis
    by (auto simp: demo_emu_simps Let_def split: prod.splits)
qed

subsection \<open>Two oddities\<close>

text \<open>
  \<^verbatim>\<open>fcntl\<close> is switched on the descriptor, not on the command: no command reaches the kernel for
  descriptor 9, and every command does for descriptor 3.
\<close>

lemma fcntl_by_descriptor:
  "fst (do_fcntl sys loc 72 [9, cmd, arg, 0, 0, 0] e) = - ENOSYS"
  "do_fcntl sys loc 72 [3, cmd, arg, 0, 0, 0] e = emu_call sys 72 [3, cmd, arg, 0, 0, 0] e"
  by (simp_all add: do_fcntl_def unhandled_syscall_def Let_def)

text \<open>Two unhandled system calls whose numbers differ by 32 share a bit: only the first one is reported.\<close>

lemma warning_shared:
  assumes "n < 32" and "e' = snd (unhandled_syscall sys loc (of_nat n) a e)"
  shows "unhandled_syscall sys loc (of_nat (n + 32)) b e' = (- ENOSYS, e')"
proof -
  have u: "unat (of_nat n :: u64) = n" "unat (of_nat (n + 32) :: u64) = n + 32"
    using assms(1) by (intro unat_of_nat_64; simp)+
  have w: "warn_bit (of_nat (n + 32)) = warn_bit (of_nat n)"
    using assms(1) unfolding warn_bit_def u by simp
  have nz: "warn_bit (of_nat n) \<noteq> 0"
  proof -
    have "bit (warn_bit (of_nat n)) n"
      using assms(1) unfolding warn_bit_def u by (simp add: bit_signed_iff bit_simps min_def)
    then show ?thesis by auto
  qed
  have lt: "(of_nat n :: u64) < 1024" "(of_nat (n + 32) :: u64) < 1024"
    using u assms(1) by (simp_all only: word_less_nat_alt) simp_all
  have "warnmap e' 0 AND warn_bit (of_nat n) \<noteq> 0"
    using assms(1) nz lt(1) unfolding assms(2) unhandled_syscall_def Let_def u
    by (auto simp: set_e_world_def bit.conj_disj_distrib2)
  then show ?thesis
    using assms(1) lt(2) unfolding unhandled_syscall_def Let_def u w by simp
qed

end
