(* ===== verification/Elf_Loader.thy ===== *)
theory Elf_Loader
  imports Translator Rtld_Elf Libc_Signal
begin

text \<open>
  The loader of the guest executable and its interpreter, \<^verbatim>\<open>client/elf-loader.c\<close>. The headers are
  read from memory, where the code has them; files are behind the kernel parameter.
\<close>

unbundle bit_operations_syntax

subsection \<open>Headers\<close>

definition e_entry :: "memory \<Rightarrow> u64 \<Rightarrow> u64" where "e_entry m eh = load64 m (eh + 24)"
definition e_phoff :: "memory \<Rightarrow> u64 \<Rightarrow> u64" where "e_phoff m eh = load64 m (eh + 32)"
definition e_phentsize :: "memory \<Rightarrow> u64 \<Rightarrow> u16" where "e_phentsize m eh = load16 m (eh + 54)"
definition e_phnum :: "memory \<Rightarrow> u64 \<Rightarrow> u16" where "e_phnum m eh = load16 m (eh + 56)"

definition p_type :: "memory \<Rightarrow> u64 \<Rightarrow> u32" where "p_type m ph = load32 m ph"
definition p_flags :: "memory \<Rightarrow> u64 \<Rightarrow> u32" where "p_flags m ph = load32 m (ph + 4)"
definition p_offset :: "memory \<Rightarrow> u64 \<Rightarrow> u64" where "p_offset m ph = load64 m (ph + 8)"
definition p_vaddr :: "memory \<Rightarrow> u64 \<Rightarrow> u64" where "p_vaddr m ph = load64 m (ph + 16)"
definition p_filesz :: "memory \<Rightarrow> u64 \<Rightarrow> u64" where "p_filesz m ph = load64 m (ph + 32)"
definition p_memsz :: "memory \<Rightarrow> u64 \<Rightarrow> u64" where "p_memsz m ph = load64 m (ph + 40)"

abbreviation (input) PT_LOAD :: u32 where "PT_LOAD \<equiv> 1"
abbreviation (input) PT_INTERP :: u32 where "PT_INTERP \<equiv> 3"
abbreviation (input) ET_EXEC :: u16 where "ET_EXEC \<equiv> 2"
abbreviation (input) ET_DYN :: u16 where "ET_DYN \<equiv> 3"
abbreviation (input) PATH_MAX :: u64 where "PATH_MAX \<equiv> 4096"
abbreviation (input) private_anon :: int where "private_anon \<equiv> 0x22"
abbreviation (input) private_fixed :: int where "private_fixed \<equiv> 0x12"
abbreviation (input) private_fixed_anon :: int where "private_fixed_anon \<equiv> 0x32"
abbreviation (input) private_noreserve_anon :: int where "private_noreserve_anon \<equiv> 0x4022"

definition phdr_at :: "u64 \<Rightarrow> nat \<Rightarrow> u64" where
  "phdr_at phdata i = phdata + of_nat (56 * i)"

record binary_info =
  exec_entry :: u64
  elf_entry :: u64
  machine :: u16
  bi_phdr :: u64
  bi_phnum :: u64
  bi_phent :: u64

definition puts_w :: "'k sysfn \<Rightarrow> u64 \<Rightarrow> string \<Rightarrow> 'k world \<Rightarrow> 'k world" where
  "puts_w sys loc s w = do_writes sys loc (snd (puts s)) w"

subsection \<open>Reading\<close>

definition elf_read ::
  "'k sysfn \<Rightarrow> int \<Rightarrow> u64 \<Rightarrow> u64 \<Rightarrow> u64 \<Rightarrow> 'k world \<Rightarrow> (int \<times> 'k world) option" where
  "elf_read sys fd off buf nbytes w =
     (case lseek sys fd off 0 w of
        (r, w1) \<Rightarrow>
          if r = - 1 then Some (- 1, w1)
          else
            case read_full sys fd buf nbytes w1 of
              None \<Rightarrow> None
            | Some (r2, w2) \<Rightarrow> if r2 = - 1 then Some (- 1, w2) else Some (0, w2))"

text \<open>The program headers, at a fresh page; the null pointer is zero.\<close>

definition load_elf_phdrs :: "'k sysfn \<Rightarrow> u64 \<Rightarrow> int \<Rightarrow> 'k world \<Rightarrow> (u64 \<times> 'k world) option" where
  "load_elf_phdrs sys eh fd w =
     (let m = mem w; phnum = unat (e_phnum m eh); sz = 56 * phnum in
      if e_phentsize m eh \<noteq> 56 then Some (0, w)
      else if phnum < 1 \<or> phnum > 65536 div 56 then Some (0, w)
      else if sz > 0x1000 then Some (0, w)
      else
        case mmap sys 0 0x1000 (or PROT_READ PROT_WRITE) private_anon (- 1) 0 w of
          (phdata, w1) \<Rightarrow>
            if BAD_ADDR phdata then Some (0, w1)
            else
              case elf_read sys fd (e_phoff (mem w1) eh) phdata (of_nat sz) w1 of
                None \<Rightarrow> None
              | Some (r, w2) \<Rightarrow>
                  if r = - 1 then
                    if phdata \<noteq> 0 then Some (0, snd (munmap sys phdata 0x1000 w2)) else Some (0, w2)
                  else Some (phdata, w2))"

subsection \<open>Placement\<close>

text \<open>The scan for the extent of the image: whether a segment was seen, its start and the end.\<close>

fun bias_scan :: "memory \<Rightarrow> u64 \<Rightarrow> u64 \<Rightarrow> nat \<Rightarrow> bool \<times> u64 \<times> u64 \<Rightarrow> bool \<times> u64 \<times> u64" where
  "bias_scan m pagesz ph 0 s = s"
| "bias_scan m pagesz ph (Suc n) (has_first, start, end') =
     (if p_type m ph \<noteq> PT_LOAD then bias_scan m pagesz (ph + 56) n (has_first, start, end')
      else bias_scan m pagesz (ph + 56) n
        (True, if has_first then start else ALIGN_DOWN (p_vaddr m ph) pagesz, p_vaddr m ph + p_memsz m ph))"

definition elf_determine_load_bias :: "'k sysfn \<Rightarrow> nat \<Rightarrow> u64 \<Rightarrow> 'k world \<Rightarrow> u64 \<times> 'k world" where
  "elf_determine_load_bias sys num_ph phdata w =
     (case bias_scan (mem w) (getpagesize w) phdata num_ph (False, 0, 0) of
        (_, start, end') \<Rightarrow>
          if start \<ge> end' then (err_ptr (- ENOEXEC), w)
          else
            case mmap sys 0 (end' - start) 0 private_noreserve_anon (- 1) 0 w of
              (p, w1) \<Rightarrow> if BAD_ADDR p then (p, w1) else (p - start, snd (munmap sys p (end' - start) w1)))"

subsection \<open>Mapping a segment\<close>

text \<open>The protection is never executable, since the host cannot execute the guest's code.\<close>

definition segment_prot :: "u32 \<Rightarrow> int" where
  "segment_prot fl = or (if fl AND 4 \<noteq> 0 then PROT_READ else 0) (if fl AND 2 \<noteq> 0 then PROT_WRITE else 0)"

record geometry =
  mapstart :: u64
  mapend :: u64
  dataend :: u64
  allocend :: u64
  mapoff :: u64
  zeropage :: u64

definition elf_map_geometry :: "u64 \<Rightarrow> u64 \<Rightarrow> u64 \<Rightarrow> u64 \<Rightarrow> u64 \<Rightarrow> bool \<Rightarrow> geometry" where
  "elf_map_geometry pagesz addr off filesz memsz writable =
     (let de = addr + filesz;
          ae = (if writable then ALIGN_UP (addr + memsz) pagesz else addr + memsz);
          zp = ALIGN_UP de pagesz
      in \<lparr>mapstart = ALIGN_DOWN addr pagesz, mapend = ALIGN_UP (addr + filesz) pagesz, dataend = de,
          allocend = ae, mapoff = ALIGN_DOWN off pagesz, zeropage = (if ae < zp then ae else zp)\<rparr>)"

text \<open>The zeroing of the rest of the last page; \<open>Inl\<close> is the jump to the end with an error.\<close>

definition zero_page_end ::
  "'k sysfn \<Rightarrow> u64 \<Rightarrow> int \<Rightarrow> geometry \<Rightarrow> 'k world \<Rightarrow> (int \<times> 'k world) + 'k world" where
  "zero_page_end sys loc prot g w =
     (if zeropage g > dataend g then
        let n = unat (zeropage g - dataend g); page = ALIGN_DOWN (dataend g) (getpagesize w) in
        if and prot PROT_WRITE = 0 then
          let w1 = puts_w sys loc ''zero (page end)'' w in
          case mprotect sys page (getpagesize w1) (or prot PROT_WRITE) w1 of
            (ret, w2) \<Rightarrow>
              if ret < 0 then Inl (ret, w2)
              else
                let w3 = w2\<lparr>mem := memset (mem w2) (dataend g) 0 n\<rparr> in
                Inr (snd (mprotect sys page (getpagesize w3) prot w3))
        else Inr (w\<lparr>mem := memset (mem w) (dataend g) 0 n\<rparr>)
      else Inr w)"

definition zero_pages ::
  "'k sysfn \<Rightarrow> u64 \<Rightarrow> int \<Rightarrow> geometry \<Rightarrow> 'k world \<Rightarrow> int \<times> 'k world" where
  "zero_pages sys loc prot g w =
     (if allocend g > zeropage g then
        case mmap sys (zeropage g) (allocend g - zeropage g) prot private_fixed_anon (- 1) 0 w of
          (r, w1) \<Rightarrow> if BAD_ADDR r then (c_int r, puts_w sys loc ''map (zero)'' w1) else (0, w1)
      else (0, w))"

definition mapoff_msg :: string where
  "mapoff_msg = ''mapoff (%lx %lx pgsz=%lx)'' @ [CHR 0x0A]"

definition elf_map :: "'k sysfn \<Rightarrow> u64 \<Rightarrow> u64 \<Rightarrow> u64 \<Rightarrow> int \<Rightarrow> 'k world \<Rightarrow> int \<times> 'k world" where
  "elf_map sys loc addr ph fd w =
     (let m = mem w; pagesz = getpagesize w; prot = segment_prot (p_flags m ph);
          g = elf_map_geometry pagesz addr (p_offset m ph) (p_filesz m ph) (p_memsz m ph)
                (and prot PROT_WRITE \<noteq> 0)
      in
      if p_vaddr m ph AND (pagesz - 1) \<noteq> p_offset m ph AND (pagesz - 1) then
        (- ENOEXEC, case c_printf mapoff_msg [VInt (p_vaddr m ph), VInt (p_offset m ph), VInt pagesz] of
            None \<Rightarrow> w | Some (_, ws) \<Rightarrow> do_writes sys loc ws w)
      else
        case (if mapend g > mapstart g then
                mmap sys (mapstart g) (mapend g - mapstart g) prot private_fixed fd (mapoff g) w
              else (0, w)) of
          (r, w1) \<Rightarrow>
            if BAD_ADDR r then (c_int r, puts_w sys loc ''map (file)'' w1)
            else if allocend g > dataend g then
              (case zero_page_end sys loc prot g w1 of
                 Inl e \<Rightarrow> e
               | Inr w2 \<Rightarrow> zero_pages sys loc prot g w2)
            else (0, w1))"

text \<open>All loadable segments; the segments of the executable also determine its load address.\<close>

fun map_segments ::
  "'k sysfn \<Rightarrow> u64 \<Rightarrow> u64 \<Rightarrow> u64 \<Rightarrow> nat \<Rightarrow> int \<Rightarrow> u64 option \<Rightarrow> 'k world \<Rightarrow> int \<times> u64 option \<times> 'k world" where
  "map_segments sys loc bias ph 0 fd la w = (0, la, w)"
| "map_segments sys loc bias ph (Suc n) fd la w =
     (let m = mem w in
      if p_type m ph \<noteq> PT_LOAD then map_segments sys loc bias (ph + 56) n fd la w
      else
        let la1 = (case la of Some a \<Rightarrow> Some a | None \<Rightarrow> Some (p_vaddr m ph - p_offset m ph + bias)) in
        case elf_map sys loc (bias + p_vaddr m ph) ph fd w of
          (ret, w1) \<Rightarrow>
            if ret < 0 then (ret, la1, w1) else map_segments sys loc bias (ph + 56) n fd la1 w1)"

definition load_elf_interp :: "'k sysfn \<Rightarrow> u64 \<Rightarrow> u64 \<Rightarrow> u64 \<Rightarrow> int \<Rightarrow> 'k world \<Rightarrow> u64 \<times> 'k world" where
  "load_elf_interp sys loc eh phdata fd w =
     (let phnum = unat (e_phnum (mem w) eh);
          (bias, w1) = (if e_type (mem w) eh = ET_DYN then elf_determine_load_bias sys phnum phdata w else (0, w))
      in
      if e_type (mem w) eh = ET_DYN \<and> BAD_ADDR bias then (bias, w1)
      else
        case map_segments sys loc bias phdata phnum fd None w1 of
          (ret, _, w2) \<Rightarrow> if ret < 0 then (word_of_int ret, w2) else (bias, w2))"

subsection \<open>Loading the executable\<close>

definition has_elf_magic :: "memory \<Rightarrow> u64 \<Rightarrow> bool" where
  "has_elf_magic m eh \<longleftrightarrow> read_bytes m eh 4 = [0x7f, 0x45, 0x4c, 0x46]"

text \<open>
  The locals: the executable's header at \<open>loc\<close>, the interpreter's at \<open>loc + 64\<close>, its name at \<open>loc + 128\<close>,
  and the callees' locals at \<open>loc + 0x1100\<close>. The interpreter as the loop leaves it: whether to go
  on, the value of \<^verbatim>\<open>retval\<close>, the descriptor and the program headers.
\<close>

type_synonym 'k interp_result = "bool \<times> int \<times> int \<times> u64 \<times> 'k world"

definition open_interp ::
  "'k sysfn \<Rightarrow> u64 \<Rightarrow> int \<Rightarrow> u64 \<Rightarrow> 'k world \<Rightarrow> 'k interp_result option" where
  "open_interp sys loc fd ph w =
     (let sz = p_filesz (mem w) ph; name = loc + 128; ih = loc + 64 in
      if sz > PATH_MAX \<or> sz < 2 then Some (False, - ENOEXEC, - 1, 0, w)
      else
        Option.bind (elf_read sys fd (p_offset (mem w) ph) name sz w) (\<lambda>(r, w1).
          if r < 0 then Some (False, r, - 1, 0, w1)
          else if load8 (mem w1) (name + sz) \<noteq> 0 then Some (False, - ENOEXEC, - 1, 0, w1)
          else
            case c_open sys name 0x80000 0 w1 of
              (ifd, w2) \<Rightarrow>
                if ifd < 0 then Some (False, ifd, ifd, 0, w2)
                else
                  Option.bind (elf_read sys ifd 0 ih 64 w2) (\<lambda>(r3, w3).
                    let m = mem w3 in
                    if r3 < 0 then Some (False, r3, ifd, 0, w3)
                    else if \<not> has_elf_magic m ih \<or> load8 m (ih + 4) \<noteq> 2 \<or>
                            (e_type m ih \<noteq> ET_EXEC \<and> e_type m ih \<noteq> ET_DYN) \<or>
                            e_machine m ih \<noteq> e_machine m loc
                      then Some (False, - ELIBBAD, ifd, 0, w3)
                    else
                      Option.bind (load_elf_phdrs sys ih ifd w3) (\<lambda>(iph, w4).
                        if iph = 0 then
                          Some (False, - ELIBBAD, ifd, 0, puts_w sys (loc + 0x1100) ''Could not load interp phdata'' w4)
                        else Some (True, - ELIBBAD, ifd, iph, w4)))))"

fun find_interp ::
  "'k sysfn \<Rightarrow> u64 \<Rightarrow> int \<Rightarrow> u64 \<Rightarrow> nat \<Rightarrow> 'k world \<Rightarrow> 'k interp_result option" where
  "find_interp sys loc fd ph 0 w = Some (True, - ENOEXEC, - 1, 0, w)"
| "find_interp sys loc fd ph (Suc n) w =
     (if p_type (mem w) ph \<noteq> PT_INTERP then find_interp sys loc fd (ph + 56) n w
      else open_interp sys loc fd ph w)"

text \<open>The image and, if there is one, the interpreter; the information is the second component.\<close>

definition load_image ::
  "'k sysfn \<Rightarrow> u64 \<Rightarrow> int \<Rightarrow> u64 \<Rightarrow> int \<Rightarrow> u64 \<Rightarrow> 'k world \<Rightarrow> int \<times> binary_info option \<times> 'k world" where
  "load_image sys loc fd phdata ifd iph w =
     (let phnum = unat (e_phnum (mem w) loc); dyn = (e_type (mem w) loc = ET_DYN);
          (bias, w1) = (if dyn then elf_determine_load_bias sys phnum phdata w else (0, w))
      in
      if dyn \<and> BAD_ADDR bias then (c_int bias, None, w1)
      else
        case map_segments sys (loc + 0x1100) bias phdata phnum fd None w1 of
          (ret, la, w2) \<Rightarrow>
            if ret < 0 then (ret, None, w2)
            else
              let entry0 = bias + e_entry (mem w2) loc;
                  load_addr = (case la of None \<Rightarrow> 0 | Some a \<Rightarrow> a);
                  (ibias, w3) = (if ifd \<ge> 0 then load_elf_interp sys (loc + 0x1100) (loc + 64) iph ifd w2 else (0, w2))
              in
              if ifd \<ge> 0 \<and> BAD_ADDR ibias then (c_int ibias, None, w3)
              else
                (0, Some \<lparr>exec_entry = (if ifd \<ge> 0 then ibias + e_entry (mem w3) (loc + 64) else entry0),
                          elf_entry = entry0, machine = e_machine (mem w3) loc,
                          bi_phdr = load_addr + e_phoff (mem w3) loc,
                          bi_phnum = ucast (e_phnum (mem w3) loc), bi_phent = ucast (e_phentsize (mem w3) loc)\<rparr>, w3))"

definition close_files :: "'k sysfn \<Rightarrow> int \<Rightarrow> int \<Rightarrow> 'k world \<Rightarrow> 'k world" where
  "close_files sys fd ifd w =
     (let w1 = snd (c_close sys fd w) in if ifd \<ge> 0 then snd (c_close sys ifd w1) else w1)"

definition load_elf_binary ::
  "'k sysfn \<Rightarrow> u64 \<Rightarrow> u64 \<Rightarrow> 'k world \<Rightarrow> (int \<times> binary_info option \<times> 'k world) option" where
  "load_elf_binary sys loc filename w =
     (case c_open sys filename 0 0 w of
        (fd, w1) \<Rightarrow>
          if fd < 0 then Some (fd, None, w1)
          else
            Option.bind (read_full sys fd loc 64 w1) (\<lambda>(r, w2).
              let m = mem w2 in
              if int32 r < 0 then Some (int32 r, None, close_files sys fd (- 1) w2)
              else if \<not> has_elf_magic m loc \<or> load8 m (loc + 4) \<noteq> 2 \<or>
                      (e_type m loc \<noteq> ET_EXEC \<and> e_type m loc \<noteq> ET_DYN)
                then Some (- ENOEXEC, None, close_files sys fd (- 1) w2)
              else
                Option.bind (load_elf_phdrs sys loc fd w2) (\<lambda>(phdata, w3).
                  if phdata = 0 then
                    Some (- ENOEXEC, None,
                      close_files sys fd (- 1) (puts_w sys (loc + 0x1100) ''Could not load phdata'' w3))
                  else
                    Option.bind (find_interp sys loc fd phdata (unat (e_phnum (mem w3) loc)) w3)
                      (\<lambda>(ok, ret, ifd, iph, w4).
                        let (ret5, info, w5) = (if ok then load_image sys loc fd phdata ifd iph w4 else (ret, None, w4));
                            w6 = snd (munmap sys phdata 0x1000 w5);
                            w7 = (if iph \<noteq> 0 then snd (munmap sys iph 0x1000 w6) else w6)
                        in Some (ret5, info, close_files sys fd ifd w7)))))"

subsection \<open>The geometry of a segment\<close>

lemma interval_64:
  fixes x b :: u64
  assumes "unat b + n \<le> 2 ^ 64"
  shows "unat (x - b) < n \<longleftrightarrow> unat b \<le> unat x \<and> unat x < unat b + n"
proof -
  have "unat (x - b) = (if unat b \<le> unat x then unat x - unat b else unat x + 2 ^ 64 - unat b)"
    by (simp add: unat_sub_if_size word_size)
  with assms show ?thesis by (simp split: if_splits) linarith
qed

lemma in_range_64:
  "unat b + n \<le> 2 ^ 64 \<Longrightarrow> x \<in> range_at b n \<longleftrightarrow> unat b \<le> unat x \<and> unat x < unat b + n"
  unfolding range_at_def by (simp add: interval_64)

text \<open>
  A segment that fits in the address space: page size \<open>2 ^ k\<close>, and no wrap-around up to the end of its
  last page.
\<close>

definition segment_fits :: "nat \<Rightarrow> u64 \<Rightarrow> u64 \<Rightarrow> u64 \<Rightarrow> u64 \<Rightarrow> bool" where
  "segment_fits k addr off filesz memsz \<longleftrightarrow> k < 32 \<and> unat filesz \<le> unat memsz \<and>
     unat addr + unat memsz + 2 ^ k < 2 ^ 64 \<and> addr AND (2 ^ k - 1) = off AND (2 ^ k - 1)"

lemma unat_and_page: "unat (v AND (2 ^ k - 1) :: u64) = unat v mod 2 ^ k"
proof -
  have "v AND (2 ^ k - 1) = take_bit k v" by (simp add: take_bit_eq_mask mask_eq_exp_minus_1)
  then show ?thesis by (simp only: unsigned_take_bit_eq) (simp add: take_bit_eq_mod)
qed

lemma geometry_nat:
  fixes addr off filesz memsz :: u64 and writable :: bool
  assumes fit: "segment_fits k addr off filesz memsz"
  defines "g \<equiv> elf_map_geometry (2 ^ k) addr off filesz memsz writable"
    and "A \<equiv> unat addr" and "F \<equiv> unat filesz" and "M \<equiv> unat memsz"
  shows "unat (mapstart g) = A - A mod 2 ^ k" and "unat (dataend g) = A + F"
    and "A + F \<le> unat (mapend g)" and "unat (mapend g) < A + F + 2 ^ k" and "2 ^ k dvd unat (mapend g)"
    and "unat (mapoff g) = unat off - unat off mod 2 ^ k" and "A mod 2 ^ k = unat off mod 2 ^ k"
    and "A + M \<le> unat (allocend g)" and "unat (allocend g) < A + M + 2 ^ k"
    and "unat (zeropage g) = min (unat (allocend g)) (unat (mapend g))"
proof -
  have k: "k < 32" "F \<le> M" "A + M + 2 ^ k < 2 ^ 64" and c: "addr AND (2 ^ k - 1) = off AND (2 ^ k - 1)"
    using fit by (auto simp: segment_fits_def A_def F_def M_def)
  have k64: "k < LENGTH(64)" using k by simp
  have f: "unat (addr + filesz) = A + F" and mz: "unat (addr + memsz) = A + M"
    using k by (simp_all add: unat_word_ariths A_def F_def M_def)
  have "unat (addr + filesz) + (2 ^ k - 1) < 2 ^ LENGTH(64)" "unat (addr + memsz) + (2 ^ k - 1) < 2 ^ LENGTH(64)"
    using f mz k by simp_all
  note up = ALIGN_UP_bounds[OF k64 this(1)] ALIGN_UP_bounds[OF k64 this(2)]
  show "unat (mapstart g) = A - A mod 2 ^ k" "unat (dataend g) = A + F"
    "A + F \<le> unat (mapend g)" "unat (mapend g) < A + F + 2 ^ k" "2 ^ k dvd unat (mapend g)"
    "unat (mapoff g) = unat off - unat off mod 2 ^ k"
    using up f by (simp_all add: g_def elf_map_geometry_def Let_def unat_ALIGN_DOWN A_def)
  show "A mod 2 ^ k = unat off mod 2 ^ k" using c unat_and_page by (metis A_def)
  show "A + M \<le> unat (allocend g)" "unat (allocend g) < A + M + 2 ^ k"
    using up mz by (simp_all add: g_def elf_map_geometry_def Let_def)
  show "unat (zeropage g) = min (unat (allocend g)) (unat (mapend g))"
    by (simp add: g_def elf_map_geometry_def Let_def min_def word_less_nat_alt)
qed

subsection \<open>The contents of a segment\<close>

text \<open>
  What the kernel does to memory: a fixed private mapping of the file shows the file from the offset
  on, an anonymous one is zero, and the other calls leave memory alone. \<open>file\<close> gives the bytes of the
  file, zero behind its end.
\<close>

definition maps_file :: "'k sysfn \<Rightarrow> int \<Rightarrow> (nat \<Rightarrow> u8) \<Rightarrow> bool" where
  "maps_file sys fd file \<longleftrightarrow>
     (\<forall>addr len prot off m k r m' k'. sys NR_mmap [addr, len, prot, 0x12, word_of_int fd, off] m k = (r, m', k') \<longrightarrow>
        \<not> BAD_ADDR r \<longrightarrow> m' = (\<lambda>x. if unat (x - addr) < unat len then file (unat off + unat (x - addr)) else m x)) \<and>
     (\<forall>addr len prot m k r m' k'. sys NR_mmap [addr, len, prot, 0x32, - 1, 0] m k = (r, m', k') \<longrightarrow>
        \<not> BAD_ADDR r \<longrightarrow> m' = (\<lambda>x. if unat (x - addr) < unat len then 0 else m x)) \<and>
     (\<forall>nr args m k. nr \<in> {NR_mprotect, NR_write} \<longrightarrow> fst (snd (sys nr args m k)) = m)"

lemma maps_fileD:
  assumes "maps_file sys fd file"
  shows "sys NR_mmap [addr, len, prot, 0x12, word_of_int fd, off] m k = (r, m', k') \<Longrightarrow> \<not> BAD_ADDR r \<Longrightarrow>
      m' = (\<lambda>x. if unat (x - addr) < unat len then file (unat off + unat (x - addr)) else m x)"
    and "sys NR_mmap [addr, len, prot, 0x32, - 1, 0] m k = (r, m', k') \<Longrightarrow> \<not> BAD_ADDR r \<Longrightarrow>
      m' = (\<lambda>x. if unat (x - addr) < unat len then 0 else m x)"
    and "nr \<in> {NR_mprotect, NR_write} \<Longrightarrow> fst (snd (sys nr args m k)) = m"
  using assms[unfolded maps_file_def, THEN conjunct1, rule_format]
    assms[unfolded maps_file_def, THEN conjunct2, THEN conjunct1, rule_format]
    assms[unfolded maps_file_def, THEN conjunct2, THEN conjunct2, rule_format]
  by - assumption+

lemma mmap_file_mem:
  assumes "maps_file sys fd file" and "mmap sys addr len prot private_fixed fd off w = (r, w')" and "\<not> BAD_ADDR r"
  shows "mem w' = (\<lambda>x. if unat (x - addr) < unat len then file (unat off + unat (x - addr)) else mem w x)"
    and "pagesize w' = pagesize w"
proof -
  obtain m' k' where s: "sys NR_mmap [addr, len, word_of_int prot, 0x12, word_of_int fd, off] (mem w) (kern w) = (r, m', k')"
    "w' = w\<lparr>mem := m', kern := k'\<rparr>"
    using assms(2) by (auto simp: mmap_def syscall6_def do_syscall_def split: prod.splits)
  from maps_fileD(1)[OF assms(1) s(1) assms(3)] s(2)
  show "mem w' = (\<lambda>x. if unat (x - addr) < unat len then file (unat off + unat (x - addr)) else mem w x)"
    "pagesize w' = pagesize w" by simp_all
qed

lemma mmap_anon_mem:
  assumes "maps_file sys fd file" and "mmap sys addr len prot private_fixed_anon (- 1) 0 w = (r, w')" and "\<not> BAD_ADDR r"
  shows "mem w' = (\<lambda>x. if unat (x - addr) < unat len then 0 else mem w x)"
proof -
  obtain m' k' where s: "sys NR_mmap [addr, len, word_of_int prot, 0x32, - 1, 0] (mem w) (kern w) = (r, m', k')"
    "w' = w\<lparr>mem := m', kern := k'\<rparr>"
    using assms(2) by (auto simp: mmap_def syscall6_def do_syscall_def split: prod.splits)
  from maps_fileD(2)[OF assms(1) s(1) assms(3)] s(2) show ?thesis by simp
qed

lemma mprotect_mem:
  assumes "maps_file sys fd file"
  shows "mem (snd (mprotect sys a n p w)) = mem w" and "pagesize (snd (mprotect sys a n p w)) = pagesize w"
  using maps_fileD(3)[OF assms] by (auto simp: mprotect_def ret_int_def syscall3_def do_syscall_def case_prod_beta)

lemma write_mem:
  assumes "maps_file sys fd file"
  shows "mem (snd (c_write sys d a n w)) = mem w" and "pagesize (snd (c_write sys d a n w)) = pagesize w"
  using maps_fileD(3)[OF assms] by (auto simp: c_write_def ret_ssize_def syscall3_def do_syscall_def case_prod_beta)

lemma do_writes_mem:
  assumes "maps_file sys fd file" and "\<forall>(d, s) \<in> set ws. length s \<le> n" and "n < 2 ^ 63" and "x \<notin> range_at loc n"
  shows "mem (do_writes sys loc ws w) x = mem w x"
  using assms(2)
proof (induction ws arbitrary: w)
  case (Cons p ws)
  obtain d s where p: "p = (d, s)" by (cases p)
  have "x \<notin> range_at loc (length (text_bytes s))"
    using Cons.prems assms(4) by (auto simp: p range_at_def text_bytes_def)
  then have "write_bytes (mem w) loc (text_bytes s) x = mem w x"
    using Cons.prems assms(3) by (intro write_bytes_outside) (auto simp: p text_bytes_def)
  with Cons show ?case by (simp add: p write_mem[OF assms(1)])
qed simp

lemma puts_mem:
  assumes "maps_file sys fd file" and "length s < 64" and "x \<notin> range_at loc 64"
  shows "mem (puts_w sys loc s w) x = mem w x"
  unfolding puts_w_def using assms(2)
  by (intro do_writes_mem[OF assms(1) _ _ assms(3)]) (auto simp: puts_def)

lemma zero_page_end_mem:
  assumes law: "maps_file sys fd file" and run: "zero_page_end sys loc prot g w = Inr w'"
    and out: "x \<notin> range_at loc 64"
    and le: "unat (dataend g) \<le> unat (zeropage g)"
  shows "mem w' x = (if unat (dataend g) \<le> unat x \<and> unat x < unat (zeropage g) then 0 else mem w x)"
proof -
  have n: "unat (zeropage g - dataend g) = unat (zeropage g) - unat (dataend g)"
    using le by (intro unat_sub) (simp add: word_le_nat_alt)
  have b: "unat (dataend g) + (unat (zeropage g) - unat (dataend g)) \<le> 2 ^ 64"
    using le unsigned_less[of "zeropage g", where 'a = nat] by simp
  have ms: "memset m (dataend g) 0 (unat (zeropage g - dataend g)) x =
      (if unat (dataend g) \<le> unat x \<and> unat x < unat (zeropage g) then 0 else m x)" for m
    using b le interval_64[OF b, of x] unfolding n memset_write_bytes
    by (auto simp: write_bytes_apply)
  show ?thesis
  proof (cases "zeropage g > dataend g")
    case False
    with run have "w' = w" by (simp add: zero_page_end_def)
    with False show ?thesis by (auto simp: word_less_nat_alt)
  next
    case True
    have pm: "mem (puts_w sys loc ''zero (page end)'' w) x = mem w x"
      by (rule puts_mem[OF law _ out]) simp
    show ?thesis
    proof (cases "and prot PROT_WRITE = 0")
      case w0: True
      let ?w1 = "puts_w sys loc ''zero (page end)'' w"
      obtain ret w2 where m2: "mprotect sys (ALIGN_DOWN (dataend g) (getpagesize w)) (getpagesize ?w1)
          (or prot PROT_WRITE) ?w1 = (ret, w2)" by (rule prod.exhaust)
      then have "mem w2 x = mem w x" using mprotect_mem(1)[OF law] pm by (metis snd_conv)
      moreover have "mem w' = memset (mem w2) (dataend g) 0 (unat (zeropage g - dataend g))"
        using run True w0 m2 mprotect_mem(1)[OF law]
        by (auto simp: zero_page_end_def Let_def split: if_splits)
      ultimately show ?thesis using ms by simp
    next
      case False
      with run True have "w' = w\<lparr>mem := memset (mem w) (dataend g) 0 (unat (zeropage g - dataend g))\<rparr>"
        by (simp add: zero_page_end_def)
      then show ?thesis using ms by simp
    qed
  qed
qed

lemma zero_pages_mem:
  assumes law: "maps_file sys fd file" and run: "zero_pages sys loc prot g w = (0, w')"
    and le: "unat (zeropage g) \<le> unat (allocend g)"
  shows "mem w' x = (if unat (zeropage g) \<le> unat x \<and> unat x < unat (allocend g) then 0 else mem w x)"
proof (cases "allocend g > zeropage g")
  case False
  with run have "w' = w" by (simp add: zero_pages_def)
  with False show ?thesis by (auto simp: word_less_nat_alt)
next
  case True
  obtain r w1 where r: "mmap sys (zeropage g) (allocend g - zeropage g) prot private_fixed_anon (- 1) 0 w = (r, w1)"
    by (rule prod.exhaust)
  have ok: "\<not> BAD_ADDR r" "w' = w1" using run True r c_int_bad[of r] by (auto simp: zero_pages_def split: if_splits)
  have n: "unat (allocend g - zeropage g) = unat (allocend g) - unat (zeropage g)"
    using le by (intro unat_sub) (simp add: word_le_nat_alt)
  have b: "unat (zeropage g) + (unat (allocend g) - unat (zeropage g)) \<le> 2 ^ 64"
    using le unsigned_less[of "allocend g", where 'a = nat] by simp
  show ?thesis using mmap_anon_mem[OF law r ok(1)] ok(2) interval_64[OF b, of x] le n by simp
qed

lemma file_map_mem:
  assumes law: "maps_file sys fd file"
    and r: "(if mapend g > mapstart g
       then mmap sys (mapstart g) (mapend g - mapstart g) prot private_fixed fd (mapoff g) w else (0, w)) = (r, w1)"
    and ok: "\<not> BAD_ADDR r"
  shows "unat (mapstart g) \<le> unat x \<Longrightarrow> unat x < unat (mapend g) \<Longrightarrow>
    mem w1 x = file (unat (mapoff g) + (unat x - unat (mapstart g)))"
proof -
  assume x: "unat (mapstart g) \<le> unat x" "unat x < unat (mapend g)"
  then have lt: "mapend g > mapstart g" by (simp add: word_less_nat_alt)
  have n: "unat (mapend g - mapstart g) = unat (mapend g) - unat (mapstart g)"
    "unat (x - mapstart g) = unat x - unat (mapstart g)"
    using lt x by (auto intro!: unat_sub simp: word_le_nat_alt)
  from lt r have m: "mmap sys (mapstart g) (mapend g - mapstart g) prot private_fixed fd (mapoff g) w = (r, w1)" by simp
  have "unat x - unat (mapstart g) < unat (mapend g) - unat (mapstart g)" using x by linarith
  then show ?thesis using mmap_file_mem(1)[OF law m ok] n by simp
qed

text \<open>The composition of the three steps on a well-placed geometry.\<close>

lemma elf_map_steps:
  assumes law: "maps_file sys fd file" and run: "elf_map sys loc addr ph fd w = (0, w')"
    and g: "g = elf_map_geometry (getpagesize w) addr (p_offset (mem w) ph) (p_filesz (mem w) ph) (p_memsz (mem w) ph)
      (and (segment_prot (p_flags (mem w) ph)) PROT_WRITE \<noteq> 0)"
    and le: "unat (dataend g) \<le> unat (zeropage g)" "unat (zeropage g) \<le> unat (allocend g)"
      "unat (dataend g) \<le> unat (mapend g)"
    and out: "x \<notin> range_at loc 64"
  shows "unat (mapstart g) \<le> unat x \<Longrightarrow> unat x < unat (dataend g) \<Longrightarrow>
      mem w' x = file (unat (mapoff g) + (unat x - unat (mapstart g)))"
    and "unat (dataend g) \<le> unat x \<Longrightarrow> unat x < unat (allocend g) \<Longrightarrow> mem w' x = 0"
proof -
  define prot where "prot = segment_prot (p_flags (mem w) ph)"
  obtain r w1 where r: "(if mapend g > mapstart g
       then mmap sys (mapstart g) (mapend g - mapstart g) prot private_fixed fd (mapoff g) w else (0, w)) = (r, w1)"
    by (rule prod.exhaust)
  have run1: "(if BAD_ADDR r then (c_int r, puts_w sys loc ''map (file)'' w1)
      else if allocend g > dataend g then
        (case zero_page_end sys loc prot g w1 of Inl e \<Rightarrow> e | Inr w2 \<Rightarrow> zero_pages sys loc prot g w2)
      else (0, w1)) = (0, w')"
    using run unfolding elf_map_def Let_def prot_def[symmetric] g[folded prot_def, symmetric] r
    by (simp split: if_splits)
  have ok: "\<not> BAD_ADDR r" using run1 c_int_bad[of r] by auto
  have z: "mem w' x = (if unat (dataend g) \<le> unat x \<and> unat x < unat (allocend g) then 0 else mem w1 x)"
  proof (cases "allocend g > dataend g")
    case True
    then obtain w2 where z: "zero_page_end sys loc prot g w1 = Inr w2" "zero_pages sys loc prot g w2 = (0, w')"
      using run1 ok by (auto split: sum.splits simp: zero_page_end_def Let_def split: if_splits prod.splits)
    show ?thesis
      using zero_page_end_mem[OF law z(1) out le(1)] zero_pages_mem[OF law z(2) le(2), of x] le by auto
  next
    case False
    then show ?thesis using run1 ok by (auto simp: word_less_nat_alt)
  qed
  show "unat (mapstart g) \<le> unat x \<Longrightarrow> unat x < unat (dataend g) \<Longrightarrow>
      mem w' x = file (unat (mapoff g) + (unat x - unat (mapstart g)))"
    using z file_map_mem[OF law r ok, of x] le(3) by simp
  show "unat (dataend g) \<le> unat x \<Longrightarrow> unat x < unat (allocend g) \<Longrightarrow> mem w' x = 0"
    using z by simp
qed

text \<open>
  C6: Mapping a segment puts the program's image into memory: when \<^verbatim>\<open>elf_map\<close> succeeds on a segment that fits
  in the address space, its first \<open>p_filesz\<close> bytes are those of the file from \<open>p_offset\<close> on, and the rest up to
  \<open>p_memsz\<close> is zero, both in the last page of the file's data and in the pages behind it, whether the segment
  is writable or not.
\<close>

theorem elf_map_contents:
  assumes law: "maps_file sys fd file" and page: "pagesize w = 2 ^ k"
    and fit: "segment_fits k addr (p_offset (mem w) ph) (p_filesz (mem w) ph) (p_memsz (mem w) ph)"
    and run: "elf_map sys loc addr ph fd w = (0, w')"
    and apart: "range_at loc 64 \<inter> range_at addr (unat (p_memsz (mem w) ph)) = {}"
    and i: "i < unat (p_memsz (mem w) ph)"
  shows "mem w' (addr + of_nat i) =
    (if i < unat (p_filesz (mem w) ph) then file (unat (p_offset (mem w) ph) + i) else 0)"
proof -
  define x where "x = addr + of_nat i"
  define g where "g = elf_map_geometry (2 ^ k) addr (p_offset (mem w) ph) (p_filesz (mem w) ph) (p_memsz (mem w) ph)
      (and (segment_prot (p_flags (mem w) ph)) PROT_WRITE \<noteq> 0)"
  note n = geometry_nat(1-6,8-10)[OF fit, of "and (segment_prot (p_flags (mem w) ph)) PROT_WRITE \<noteq> 0", folded g_def]
    geometry_nat(7)[OF fit]
  have b: "unat addr + unat (p_memsz (mem w) ph) + 2 ^ k < 2 ^ 64"
    and fm: "unat (p_filesz (mem w) ph) \<le> unat (p_memsz (mem w) ph)"
    using fit by (simp_all add: segment_fits_def)
  have x: "unat x = unat addr + i" unfolding x_def using b i by (simp add: unat_word_ariths unat_of_nat)
  have "x \<in> range_at addr (unat (p_memsz (mem w) ph))" using b i x by (subst in_range_64) auto
  then have out: "x \<notin> range_at loc 64" using apart by auto
  have le: "unat (dataend g) \<le> unat (zeropage g)" "unat (zeropage g) \<le> unat (allocend g)"
    "unat (dataend g) \<le> unat (mapend g)" using n fm by auto
  have g': "g = elf_map_geometry (getpagesize w) addr (p_offset (mem w) ph) (p_filesz (mem w) ph) (p_memsz (mem w) ph)
      (and (segment_prot (p_flags (mem w) ph)) PROT_WRITE \<noteq> 0)" by (simp add: g_def page getpagesize_def)
  note st = elf_map_steps[OF law run g' le out]
  have ms: "unat addr mod 2 ^ k \<le> unat addr" "unat (p_offset (mem w) ph) mod 2 ^ k \<le> unat (p_offset (mem w) ph)"
    by simp_all
  show ?thesis
  proof (cases "i < unat (p_filesz (mem w) ph)")
    case True
    have e: "unat (mapoff g) + (unat x - unat (mapstart g)) = unat (p_offset (mem w) ph) + i"
      using n(1,6,10) ms x by linarith
    have "mem w' x = file (unat (mapoff g) + (unat x - unat (mapstart g)))" by (rule st(1)) (use n(1,2) x True in simp_all)
    with e True show ?thesis by (simp only: x_def if_True)
  next
    case False
    with st(2) n(2,7) x i show ?thesis by (simp add: x_def)
  qed
qed

text \<open>A kernel that maps, and a program header of a writable segment with 16 of 32 bytes in the file.\<close>

definition loader_sys :: "(nat \<Rightarrow> u8) \<Rightarrow> unit sysfn" where
  "loader_sys file nr args m k =
     (if nr = NR_mmap \<and> length args = 6 then
        (args ! 0, (\<lambda>x. if unat (x - args ! 0) < unat (args ! 1)
           then if args ! 3 = 0x12 then file (unat (args ! 5) + unat (x - args ! 0)) else 0 else m x), k)
      else (0, m, k))"

definition demo_segment :: memory where
  "demo_segment x =
     (if x = 0x5004 then 6 else if x = 0x5009 then 0x10 else if x = 0x5011 then 0x10 else if x = 0x5012 then 0x40
      else if x = 0x5020 then 0x10 else if x = 0x5028 then 0x20 else 0)"

lemma loader_sys_maps: "maps_file (loader_sys file) fd file"
  by (auto simp: maps_file_def loader_sys_def)

theorem elf_map_contents_witness:
  "let w = (boot_world ())\<lparr>mem := demo_segment\<rparr>;
       w' = snd (elf_map (loader_sys of_nat) 0x9000 0x401000 0x5000 3 w) in
   mem w' 0x401003 = 3 \<and> mem w' 0x401018 = 0"
proof -
  let ?w = "(boot_world ())\<lparr>mem := demo_segment\<rparr>"
  have p: "p_offset demo_segment 0x5000 = 0x1000" "p_filesz demo_segment 0x5000 = 0x10"
    "p_memsz demo_segment 0x5000 = 0x20" "p_vaddr demo_segment 0x5000 = 0x401000" "p_flags demo_segment 0x5000 = 6"
    by code_simp+
  let ?w' = "snd (elf_map (loader_sys of_nat) 0x9000 0x401000 0x5000 3 ?w)"
  have "fst (elf_map (loader_sys of_nat) 0x9000 0x401000 0x5000 3 ?w) = 0"
    by (simp add: elf_map_def Let_def p segment_prot_def elf_map_geometry_def getpagesize_def boot_world_def
        ALIGN_UP_def ALIGN_DOWN_def zero_page_end_def zero_pages_def mmap_def syscall6_def do_syscall_def
        loader_sys_def BAD_ADDR_def)
  then have run: "elf_map (loader_sys of_nat) 0x9000 0x401000 0x5000 3 ?w = (0, ?w')" by (simp add: prod_eq_iff)
  have fit: "segment_fits 12 0x401000 (p_offset (mem ?w) 0x5000) (p_filesz (mem ?w) 0x5000) (p_memsz (mem ?w) 0x5000)"
    by (simp add: p segment_fits_def)
  have apart: "range_at 0x9000 64 \<inter> range_at 0x401000 (unat (p_memsz (mem ?w) 0x5000)) = {}"
    by (auto simp: in_range_64 p)
  have page: "pagesize ?w = 2 ^ 12" by (simp add: boot_world_def)
  note c = elf_map_contents[OF loader_sys_maps page fit run apart]
  show ?thesis using c[of 3] c[of 24] by (simp add: Let_def p)
qed

text \<open>Only the value \<open>- 1\<close> is an error; the wrappers return the negated error number.\<close>

lemma elf_read_swallows:
  assumes "lseek sys fd off 0 w = (r, w1)" and "read_full sys fd buf n w1 = Some (r', w2)"
    and "r \<noteq> - 1" and "r' \<noteq> - 1"
  shows "elf_read sys fd off buf n w = Some (0, w2)"
  using assms by (simp add: elf_read_def)

end
