(* ===== verification/Client_Main.thy ===== *)
theory Client_Main
  imports Dispatch_Asm Emulate Elf_Loader
begin

text \<open>
  The client's \<^verbatim>\<open>main\<close> (\<^verbatim>\<open>client/main.c\<close>): it prepares the heap, loads the guest's executable, connects to the
  server, builds the guest's stack, initialises the run-time linker and enters the dispatcher.
\<close>

unbundle bit_operations_syntax

subsection \<open>The guest's stack\<close>

text \<open>\<^verbatim>\<open>*(--stack_top) = v\<close>, on the memory and the pointer.\<close>

definition push_word :: "u64 \<Rightarrow> memory \<times> u64 \<Rightarrow> memory \<times> u64" where
  "push_word v s = (store64 (fst s) (snd s - 8) v, snd s - 8)"

fun copy_words :: "memory \<Rightarrow> u64 \<Rightarrow> u64 \<Rightarrow> nat \<Rightarrow> memory" where
  "copy_words m dst src 0 = m"
| "copy_words m dst src (Suc n) = copy_words (store64 m dst (load64 m src)) (dst + 8) (src + 8) n"

partial_function (option) count_env :: "memory \<Rightarrow> u64 \<Rightarrow> nat \<Rightarrow> nat option" where
  "count_env m envp n =
     (if load64 m (envp + of_nat (8 * n)) = 0 then Some n else count_env m envp (n + 1))"

abbreviation (input) AT_ENTRY :: u64 where "AT_ENTRY \<equiv> 9"
abbreviation (input) AT_UID :: u64 where "AT_UID \<equiv> 11"
abbreviation (input) AT_EUID :: u64 where "AT_EUID \<equiv> 12"
abbreviation (input) AT_GID :: u64 where "AT_GID \<equiv> 13"
abbreviation (input) AT_EGID :: u64 where "AT_EGID \<equiv> 14"
abbreviation (input) AT_PLATFORM :: u64 where "AT_PLATFORM \<equiv> 15"
abbreviation (input) AT_HWCAP :: u64 where "AT_HWCAP \<equiv> 16"
abbreviation (input) AT_CLKTCK :: u64 where "AT_CLKTCK \<equiv> 17"
abbreviation (input) AT_SECURE :: u64 where "AT_SECURE \<equiv> 23"
abbreviation (input) AT_RANDOM :: u64 where "AT_RANDOM \<equiv> 25"
abbreviation (input) AT_HWCAP2 :: u64 where "AT_HWCAP2 \<equiv> 26"

text \<open>
  The entries of the auxiliary vector in the order they are pushed, the value as a function of the
  memory at that moment: constants, and what the client's own vector \<open>auxv\<close> holds. \<open>platform\<close> is the address
  of the string constant.
\<close>

definition aux_entries :: "binary_info \<Rightarrow> u64 \<Rightarrow> u64 \<Rightarrow> (u64 \<times> (memory \<Rightarrow> u64 option)) list" where
  "aux_entries info auxv platform =
     (let const = (\<lambda>v m. Some v); host = (\<lambda>t m. getauxval m auxv t) in
      [(AT_ENTRY, const (elf_entry info)), (AT_PHDR, const (bi_phdr info)), (AT_PHENT, const (bi_phent info)),
       (AT_PHNUM, const (bi_phnum info)), (AT_PLATFORM, const platform), (AT_RANDOM, host AT_RANDOM),
       (AT_UID, host AT_UID), (AT_EUID, host AT_EUID), (AT_GID, host AT_GID), (AT_EGID, host AT_EGID),
       (AT_CLKTCK, host AT_CLKTCK), (AT_PAGESZ, host AT_PAGESZ), (AT_HWCAP, const 0x8001), (AT_HWCAP2, const 0),
       (AT_SECURE, const 0)])"

fun push_aux :: "(u64 \<times> (memory \<Rightarrow> u64 option)) list \<Rightarrow> memory \<times> u64 \<Rightarrow> (memory \<times> u64) option" where
  "push_aux [] s = Some s"
| "push_aux ((t, f) # es) s = Option.bind (f (fst s)) (\<lambda>v. push_aux es (push_word t (push_word v s)))"

text \<open>\<open>copy_down\<close> moves the pointer down by \<open>n\<close> words and fills them.\<close>

definition copy_down :: "u64 \<Rightarrow> nat \<Rightarrow> memory \<times> u64 \<Rightarrow> memory \<times> u64" where
  "copy_down src n s = (let p = snd s - of_nat (8 * n) in (copy_words (fst s) p src n, p))"

definition setup_stack ::
  "binary_info \<Rightarrow> u64 \<Rightarrow> u64 \<Rightarrow> nat \<Rightarrow> u64 \<Rightarrow> u64 \<Rightarrow> memory \<Rightarrow> u64 \<Rightarrow> (memory \<times> u64) option" where
  "setup_stack info auxv platform argc argv envp m stack_top =
     Option.bind (count_env m envp 0) (\<lambda>envc.
       let p0 = stack_top - of_nat (8 * ((argc + envc) mod 2)) in
       Option.bind (push_aux (aux_entries info auxv platform) (push_word 0 (m, p0))) (\<lambda>s1.
         let s2 = push_word 0 (copy_down envp envc (push_word 0 s1)) in
         Some (push_word (of_nat argc) (copy_down argv argc s2))))"

subsection \<open>main\<close>

text \<open>
  The outcome: \<^verbatim>\<open>main\<close> returns, calls the dispatcher's loop function at an address with the state of the guest,
  or faults. The loop functions do not return, so the code behind the call is dead. \<^verbatim>\<open>None\<close> is a run
  that does not end.
\<close>

datatype 'k outcome = Returned int "'k world" | Entered u64 "'k cpu_state" | Faulted "'k world"

text \<open>
  The steps of \<^verbatim>\<open>main\<close> and what they hand on. \<open>Inl\<close> is the end of \<^verbatim>\<open>main\<close>; \<open>and_then\<close> composes the steps.
\<close>

record 'k boot =
  bt_argc :: int
  bt_argv :: u64
  bt_config :: u64
  bt_info :: binary_info
  bt_state :: "'k state"
  bt_disp :: dispatcher_info
  bt_sp :: u64

definition fail :: "'k sysfn \<Rightarrow> u64 \<Rightarrow> string \<Rightarrow> int \<Rightarrow> 'k world \<Rightarrow> ('k outcome + 'b) option" where
  "fail sys loc msg ret w = Some (Inl (Returned ret (puts_w sys loc msg w)))"

definition no_info :: binary_info where
  "no_info = \<lparr>exec_entry = 0, elf_entry = 0, machine = 0, bi_phdr = 0, bi_phnum = 0, bi_phent = 0\<rparr>"

definition zero_arena :: arena where
  "zero_arena = \<lparr>arena_start = 0, arena_end = 0, arena_brk = 0, arena_brkp = 0\<rparr>"

text \<open>The zero-initialised state, with the arenas and the process it runs in.\<close>

definition zero_state :: "rtld_objects \<Rightarrow> arenas \<Rightarrow> 'k world \<Rightarrow> 'k state" where
  "zero_state obs g w =
     \<lparr>st_rs = \<lparr>rs_rtld = \<lparr>perfmap_fd = 0, perfdump_fd = 0, disp_info = no_dispatcher, objects = obs, plt = 0\<rparr>,
        rs_arenas = g, rs_world = w\<rparr>,
      st_translator = \<lparr>rd_fd = 0, wr_fd = 0, written_bytes = 0, last_hdr = no_hdr, recvbuf = 0, recvbuf_sz = 0\<rparr>,
      rew_time = 0, sigact_tab = (\<lambda>_. \<lparr>sa_handler = 0, sa_flags = 0, sa_restorer = 0, sa_mask = 0\<rparr>),
      st_tsc = \<lparr>tsc_guest_arch = 0, tsc_host_arch = 0, tsc_host_cpu_features = 0, tsc_server_mode = 0, tsc_stack_alignment = 0\<rparr>,
      st_tc = \<lparr>tc_callconv = 0, tc_profile = 0, tc_perf = 0, tc_print_trace = 0, tc_print_regs = 0\<rparr>\<rparr>"

text \<open>
  Arguments, heap and executable. The function table \<open>obs\<close> is what the memory of the table holds when it
  is allocated. The locals of the callees are at \<open>loc\<close>.
\<close>

definition main_load ::
  "'k sysfn \<Rightarrow> u64 \<Rightarrow> sigenv \<Rightarrow> rtld_objects \<Rightarrow> 'k startup \<Rightarrow> ('k outcome + 'k boot) option" where
  "main_load sys loc se obs su =
     (let w = su_world su in
      if su_argc su < 3 then fail sys loc ''usage: CONFSTR EXECUTABLE [ARGS...]'' 1 w
      else
        let argv = su_argv su + 16; config = load64 (mem w) (su_argv su + 8); w1 = signal_init sys se loc w in
        case mem_init sys \<lparr>main_arena_code = zero_arena, main_arena_data = zero_arena\<rparr> w1 of
          (ret, g, w2) \<Rightarrow>
            if ret < 0 then fail sys loc ''error: failed to initialize heap'' ret w2
            else
              Option.bind (load_elf_binary sys loc (load64 (mem w2) argv) w2) (\<lambda>(ret3, info, w3).
                if ret3 \<noteq> 0 then fail sys loc ''error: could not load file'' ret3 w3
                else Some (Inr \<lparr>bt_argc = su_argc su - 2, bt_argv = argv, bt_config = config,
                  bt_info = (case info of None \<Rightarrow> no_info | Some i \<Rightarrow> i), bt_state = zero_state obs g w3,
                  bt_disp = no_dispatcher, bt_sp = 0\<rparr>)))"

abbreviation (input) EM_X86_64 :: u32 where "EM_X86_64 \<equiv> 62"
abbreviation (input) EM_AARCH64 :: u32 where "EM_AARCH64 \<equiv> 183"
abbreviation (input) EM_RISCV :: u32 where "EM_RISCV \<equiv> 243"

text \<open>The server: its configuration is fetched to the address \<open>loc\<close>, that of \<^verbatim>\<open>state.tc\<close>. The host is x86-64.\<close>

definition main_connect ::
  "'k sysfn \<Rightarrow> u64 \<Rightarrow> (string \<Rightarrow> u64) \<Rightarrow> 'k boot \<Rightarrow> ('k outcome + 'k boot) option" where
  "main_connect sys loc f b =
     (let st = bt_state b;
          tsc = (st_tsc st)\<lparr>tsc_guest_arch := ucast (machine (bt_info b)), tsc_host_arch := EM_X86_64,
            tsc_stack_alignment := 8\<rparr>
      in
      Option.bind (cstr_at (mem (st_world st)) (bt_config b)) (\<lambda>config.
      Option.bind (translator_init sys (loc + 0x40) config tsc (st_world st)) (\<lambda>(ret, t, w1).
        if ret \<noteq> 0 then fail sys loc ''error: could not spawn rewriting server'' ret w1
        else
          Option.bind (translator_config_fetch sys (loc + 0x40) t loc w1) (\<lambda>(ret2, t2, w2).
            if ret2 \<noteq> 0 then fail sys loc ''error: could not fetch client configuration'' 1 w2
            else
              let st2 = on_st_world (\<lambda>_. w2) (st\<lparr>st_tsc := tsc, st_translator := t2, st_tc := load_tc (mem w2) loc\<rparr>) in
              case dispatch_get False f st2 of
                None \<Rightarrow> fail sys loc ''error: unsupported calling convention'' (- EOPNOTSUPP) w2
              | Some d \<Rightarrow>
                  if loop_func d = 0 then fail sys loc ''error: unsupported calling convention'' (- EOPNOTSUPP) w2
                  else Some (Inr (b\<lparr>bt_state := st2, bt_disp := d\<rparr>))))))"

abbreviation (input) STACK_SIZE :: u64 where "STACK_SIZE \<equiv> 0x1000000"
abbreviation (input) stack_flags :: int where "stack_flags \<equiv> 0x20122"

definition main_stack ::
  "'k sysfn \<Rightarrow> u64 \<Rightarrow> u64 \<Rightarrow> 'k startup \<Rightarrow> 'k boot \<Rightarrow> ('k outcome + 'k boot) option" where
  "main_stack sys loc platform su b =
     (case mmap sys 0 STACK_SIZE (or PROT_READ PROT_WRITE) stack_flags (- 1) 0 (st_world (bt_state b)) of
        (stack, w1) \<Rightarrow>
          if BAD_ADDR stack then fail sys loc ''error: failed to allocate stack'' (c_int stack) w1
          else
            let w2 = snd (mprotect sys stack 0x1000 PROT_NONE w1) in
            Option.bind (setup_stack (bt_info b) (su_auxv su) platform (nat (bt_argc b)) (bt_argv b) (su_environ su)
                (mem w2) (stack + STACK_SIZE)) (\<lambda>(m, sp).
              Some (Inr (b\<lparr>bt_state := on_st_world (\<lambda>_. w2\<lparr>mem := m\<rparr>) (bt_state b), bt_sp := sp\<rparr>))))"

text \<open>
  The first object of the server. When \<^verbatim>\<open>translator_get_object\<close> does not set the size, which is then not
  initialised, it counts as zero.
\<close>

definition main_object ::
  "'k sysfn \<Rightarrow> u64 \<Rightarrow> (string \<Rightarrow> u64) \<Rightarrow> 'k rstate \<Rightarrow> 'k boot \<Rightarrow> ('k outcome + 'k boot) option" where
  "main_object sys loc f rs b =
     Option.bind (translator_get_object sys loc (st_translator (bt_state b)) (rs_arenas rs) (rs_world rs))
       (\<lambda>(ret, obj, t, g, w).
         let rs1 = rs\<lparr>rs_arenas := g, rs_world := w\<rparr>; q = (case obj of None \<Rightarrow> (0, 0) | Some q \<Rightarrow> q);
             b1 = (\<lambda>rs. b\<lparr>bt_state := (bt_state b)\<lparr>st_rs := rs, st_translator := t\<rparr>\<rparr>)
         in
         if ret < 0 then fail sys loc ''error: could not get initial object'' ret w
         else if snd q > 0 then
           Option.bind (rtld_add_object sys loc f (fst q) (snd q) 0 rs1) (\<lambda>(ret2, rs2).
             if ret2 < 0 then fail sys loc ''error: could not get initial object'' ret2 (rs_world rs2)
             else Some (Inr (b1 rs2)))
         else Some (Inr (b1 rs1)))"

definition main_link ::
  "'k sysfn \<Rightarrow> u64 \<Rightarrow> (string \<Rightarrow> u64) \<Rightarrow> u64 list \<Rightarrow> rtld_objects \<Rightarrow> 'k boot \<Rightarrow> ('k outcome + 'k boot) option" where
  "main_link sys loc f plt0 obs b =
     (case rtld_init sys (bt_disp b) f plt0 obs (st_rs (bt_state b)) of
        (ret, rs1) \<Rightarrow>
          if ret < 0 then fail sys loc ''error: could not initialize runtime linker'' ret (rs_world rs1)
          else
            Option.bind (rtld_perf_init sys loc (rs_rtld rs1) (sint (tc_perf (st_tc (bt_state b)))) (rs_world rs1))
              (\<lambda>(ret2, r2, w2).
                let w3 = (if ret2 < 0 then puts_w sys loc ''warning: could not initialize perf support'' w2 else w2)
                in main_object sys loc f (rs1\<lparr>rs_rtld := r2, rs_world := w3\<rparr>) b))"

text \<open>
  The state of the guest: 0x4500 bytes, cleared, with the pointers to itself and to the \<^verbatim>\<open>State\<close> at \<open>state_addr\<close>
  in its first words. The code does not check the allocation; a failed one faults.
\<close>

definition sp_index :: "u32 \<Rightarrow> nat option" where
  "sp_index arch =
     (if arch = EM_X86_64 then Some 5 else if arch = EM_RISCV then Some 3
      else if arch = EM_AARCH64 then Some 33 else None)"

text \<open>
  The guest's state as the structure \<^verbatim>\<open>CpuState\<close> at \<open>p\<close> holds it: 128 registers at 0x40, 1024 pairs of the quick table at
  0x440 and the signal state behind them.
\<close>

definition cpu_at :: "'k state \<Rightarrow> memory \<Rightarrow> u64 \<Rightarrow> 'k cpu_state" where
  "cpu_at st m p = \<lparr>cs_state = st,
     regdata = (\<lambda>i. if i < 128 then load64 m (p + of_nat (0x40 + 8 * i)) else 0),
     quick_tlb = (\<lambda>h. if h < 1024 then (load64 m (p + of_nat (0x440 + 16 * h)), load64 m (p + of_nat (0x448 + 16 * h))) else (0, 0)),
     sigpending = sint (load32 m (p + 0x4440)), cs_sigmask = load64 m (p + 0x4448),
     cs_sigaltstack = \<lparr>ss_sp = load64 m (p + 0x4450), ss_flags = load32 m (p + 0x4458), ss_size = load64 m (p + 0x4460)\<rparr>,
     cs_siginfo = read_bytes m (p + 0x4468) 128\<rparr>"

definition main_enter :: "'k sysfn \<Rightarrow> u64 \<Rightarrow> u64 \<Rightarrow> 'k boot \<Rightarrow> 'k outcome option" where
  "main_enter sys loc state_addr b =
     (let st = bt_state b in
      case mem_alloc_data sys (rs_arenas (st_rs st)) 0x4500 64 (st_world st) of
        (p, g, w1) \<Rightarrow>
          if BAD_ADDR p then Some (Faulted w1)
          else
            let w2 = w1\<lparr>mem := store64 (store64 (memset (mem w1) p 0 0x4500) p p) (p + 8) state_addr\<rparr> in
            case set_thread_area sys p w2 of
              (ret, w3) \<Rightarrow>
                if ret \<noteq> 0 then Some (Returned ret (puts_w sys loc ''error: could not set thread area'' w3))
                else
                  let st3 = st\<lparr>st_rs := (st_rs st)\<lparr>rs_arenas := g, rs_world := w3\<rparr>\<rparr>; cs = cpu_at st3 (mem w3) p in
                  case sp_index (tsc_guest_arch (st_tsc st)) of
                    None \<Rightarrow> Some (Returned (- ENOEXEC) (puts_w sys loc ''error: unsupported architecture'' w3))
                  | Some i \<Rightarrow>
                      Some (Entered (loop_func (bt_disp b))
                        (cs\<lparr>regdata := (regdata cs)(0 := exec_entry (bt_info b), i := bt_sp b)\<rparr>)))"

definition main ::
  "'k sysfn \<Rightarrow> u64 \<Rightarrow> u64 \<Rightarrow> sigenv \<Rightarrow> (string \<Rightarrow> u64) \<Rightarrow> u64 \<Rightarrow> u64 list \<Rightarrow> rtld_objects \<Rightarrow> 'k startup \<Rightarrow>
   'k outcome option" where
  "main sys loc state_addr se f platform plt0 obs su =
     Option.bind
       (and_then (main_load sys loc se obs su) (\<lambda>b.
        and_then (main_connect sys loc f b) (\<lambda>b.
        and_then (main_stack sys loc platform su b) (main_link sys loc f plt0 obs))))
       (\<lambda>r. case r of Inl out \<Rightarrow> Some out | Inr b \<Rightarrow> main_enter sys loc state_addr b)"

subsection \<open>What is on the stack\<close>

fun words_at :: "memory \<Rightarrow> u64 \<Rightarrow> u64 list \<Rightarrow> bool" where
  "words_at m p [] = True"
| "words_at m p (v # vs) \<longleftrightarrow> load64 m p = v \<and> words_at m (p + 8) vs"

lemma words_at_append:
  "words_at m p (us @ vs) \<longleftrightarrow> words_at m p us \<and> words_at m (p + of_nat (8 * length us)) vs"
  by (induction us arbitrary: p) (simp_all add: algebra_simps)

lemma words_at_cong:
  assumes "words_at m p vs" and "\<And>x. x \<in> range_at p (8 * length vs) \<Longrightarrow> m' x = m x" and "8 * length vs \<le> 2 ^ 64"
  shows "words_at m' p vs"
  using assms
proof (induction vs arbitrary: p)
  case (Cons v vs)
  have sub: "range_at (p + 8) (8 * length vs) \<subseteq> range_at p (8 * length (v # vs))"
    using Cons.prems(3) by (intro range_at_sub) auto
  have "words_at m' (p + 8) vs" using Cons.prems sub by (intro Cons.IH) auto
  moreover have "load64 m' p = load64 m p"
    using Cons.prems(2,3) by (intro load64_cong) (auto intro!: Cons.prems(2) simp: range_at_def)
  ultimately show ?case using Cons.prems(1) by simp
qed simp

lemma push_word_words:
  assumes "words_at m p vs" and "8 * length vs + 8 \<le> 2 ^ 64"
  shows "words_at (fst (push_word v (m, p))) (snd (push_word v (m, p))) (v # vs)"
proof -
  have "range_at (p - 8) 8 \<inter> range_at p (8 * length vs) = {}"
    using assms(2) by (intro range_at_disjoint) auto
  then have "words_at (store64 m (p - 8) v) p vs"
    using assms by (intro words_at_cong[OF assms(1)] store64_outside) auto
  then show ?thesis by (simp add: push_word_def load_store64)
qed

text \<open>
  The state of the construction: the words \<open>vs\<close> are on the stack that began at \<open>hi\<close>, and the memory is as
  it was (\<open>m\<close>) everywhere else.
\<close>

definition stacked :: "memory \<Rightarrow> u64 \<Rightarrow> u64 list \<Rightarrow> memory \<times> u64 \<Rightarrow> bool" where
  "stacked m hi vs s \<longleftrightarrow> snd s = hi - of_nat (8 * length vs) \<and> words_at (fst s) (snd s) vs \<and>
     (\<forall>x. x \<notin> range_at (snd s) (8 * length vs) \<longrightarrow> fst s x = m x)"

lemma stacked_start: "stacked m hi [] (m, hi)"
  by (simp add: stacked_def)

lemma stacked_push:
  assumes "stacked m hi vs s" and "8 * length vs + 8 \<le> 2 ^ 64"
  shows "stacked m hi (v # vs) (push_word v s)"
proof -
  obtain m1 p where s: "s = (m1, p)" by (cases s)
  have "range_at (p - 8) 8 \<subseteq> range_at (p - 8) (8 * length (v # vs))"
    and "range_at p (8 * length vs) \<subseteq> range_at (p - 8) (8 * length (v # vs))"
    using assms(2) by (intro range_at_sub; simp)+
  note sub = this[THEN subsetD]
  have p: "p = hi - of_nat (8 * length vs)" and w: "words_at m1 p vs"
    and o: "\<And>x. x \<notin> range_at p (8 * length vs) \<Longrightarrow> m1 x = m x"
    using assms(1) unfolding stacked_def s fst_conv snd_conv by blast+
  have "store64 m1 (p - 8) v x = m x" if "x \<notin> range_at (p - 8) (8 * length (v # vs))" for x
    using that sub[of x] o[of x] store64_outside[of x "p - 8"] by metis
  moreover have "p - 8 = hi - of_nat (8 * length (v # vs))" by (simp add: p algebra_simps)
  ultimately show ?thesis
    using push_word_words[OF w assms(2), of v] by (simp only: stacked_def s push_word_def fst_conv snd_conv) simp
qed

lemma copy_words_spec:
  assumes "words_at m src ws" and "range_at src (8 * length ws) \<inter> range_at dst (8 * length ws) = {}"
    and "8 * length ws \<le> 2 ^ 64"
  shows "words_at (copy_words m dst src (length ws)) dst ws \<and>
    (\<forall>x. x \<notin> range_at dst (8 * length ws) \<longrightarrow> copy_words m dst src (length ws) x = m x)"
  using assms
proof (induction ws arbitrary: m src dst)
  case (Cons v ws)
  let ?m = "store64 m dst (load64 m src)"
  have sub: "range_at (src + 8) (8 * length ws) \<subseteq> range_at src (8 * length (v # ws))"
    "range_at (dst + 8) (8 * length ws) \<subseteq> range_at dst (8 * length (v # ws))"
    "range_at dst 8 \<subseteq> range_at dst (8 * length (v # ws))"
    using Cons.prems(3) by (intro range_at_sub; simp)+
  have sep: "range_at dst 8 \<inter> range_at (dst + 8) (8 * length ws) = {}"
    using Cons.prems(3) by (intro range_at_disjoint) auto
  have "?m x = m x" if "x \<in> range_at (src + 8) (8 * length ws)" for x
    using that sub(1,3) Cons.prems(2) by (intro store64_outside) blast
  with Cons.prems(1,3) have "words_at ?m (src + 8) ws" by (intro words_at_cong[where m = m and m' = ?m]) simp_all
  moreover have "range_at (src + 8) (8 * length ws) \<inter> range_at (dst + 8) (8 * length ws) = {}"
    using Cons.prems(2) sub by blast
  ultimately have ih: "words_at (copy_words ?m (dst + 8) (src + 8) (length ws)) (dst + 8) ws"
    "x \<notin> range_at (dst + 8) (8 * length ws) \<Longrightarrow> copy_words ?m (dst + 8) (src + 8) (length ws) x = ?m x" for x
    using Cons.IH[of ?m "src + 8" "dst + 8"] Cons.prems(3) by auto
  have "load64 (copy_words ?m (dst + 8) (src + 8) (length ws)) dst = load64 ?m dst"
    using sep by (intro load64_cong ih(2)) auto
  moreover have "copy_words ?m (dst + 8) (src + 8) (length ws) x = m x" if "x \<notin> range_at dst (8 * length (v # ws))" for x
    using that sub(2,3)[THEN subsetD, of x] ih(2)[of x] store64_outside[of x dst] by metis
  ultimately show ?case using ih(1) Cons.prems(1) by (simp add: load_store64)
qed simp

lemma stacked_copy:
  assumes "stacked m hi vs s" and "words_at m src ws" and n: "8 * (length ws + length vs) < 2 ^ 64"
    and apart: "range_at src (8 * length ws) \<inter>
      range_at (hi - of_nat (8 * (length ws + length vs))) (8 * (length ws + length vs)) = {}"
  shows "stacked m hi (ws @ vs) (copy_down src (length ws) s)"
proof -
  obtain m1 p where s: "s = (m1, p)" by (cases s)
  define q where "q = p - of_nat (8 * length ws)"
  have p: "p = hi - of_nat (8 * length vs)" and w: "words_at m1 p vs"
    and o: "\<And>x. x \<notin> range_at p (8 * length vs) \<Longrightarrow> m1 x = m x"
    using assms(1) unfolding stacked_def s fst_conv snd_conv by blast+
  have q: "q = hi - of_nat (8 * (length ws + length vs))" "p = q + of_nat (8 * length ws)"
    by (simp_all add: q_def p algebra_simps)
  have u: "unat (p - q) = 8 * length ws" 
    using n unat_of_nat_64[of "8 * length ws"] by (simp add: q(2) del: of_nat_mult)
  have sub: "range_at q (8 * length ws) \<subseteq> range_at q (8 * length (ws @ vs))"
    "range_at p (8 * length vs) \<subseteq> range_at q (8 * length (ws @ vs))"
    using n u by (intro range_at_sub; simp)+
  have sep: "range_at q (8 * length ws) \<inter> range_at p (8 * length vs) = {}"
    using n u by (intro range_at_disjoint) auto
  have apart': "range_at src (8 * length ws) \<inter> range_at q (8 * length (ws @ vs)) = {}"
    using apart unfolding q(1) by simp
  have "m1 x = m x" if "x \<in> range_at src (8 * length ws)" for x
    using that apart' sub(2) by (intro o) blast
  from words_at_cong[OF assms(2) this] n have "words_at m1 src ws" by simp
  moreover have "range_at src (8 * length ws) \<inter> range_at q (8 * length ws) = {}"
    using apart' sub(1) by blast
  ultimately have c: "words_at (copy_words m1 q src (length ws)) q ws"
    "\<And>x. x \<notin> range_at q (8 * length ws) \<Longrightarrow> copy_words m1 q src (length ws) x = m1 x"
    using copy_words_spec[of m1 src ws q] n by auto
  have "words_at (copy_words m1 q src (length ws)) p vs"
    using sep n by (intro words_at_cong[OF w] c(2)) auto
  then have "words_at (copy_words m1 q src (length ws)) q (ws @ vs)"
    using c(1) by (simp only: words_at_append q(2)[symmetric])
  moreover have "copy_words m1 q src (length ws) x = m x" if "x \<notin> range_at q (8 * length (ws @ vs))" for x
    using that sub[THEN subsetD, of x] c(2)[of x] o[of x] by metis
  moreover have "q = hi - of_nat (8 * length (ws @ vs))" by (simp only: q(1) length_append)
  ultimately show ?thesis
    unfolding stacked_def copy_down_def s Let_def fst_conv snd_conv q_def[symmetric] by blast
qed

subsection \<open>The vectors\<close>

definition flat :: "(u64 \<times> u64) list \<Rightarrow> u64 list" where
  "flat aux = concat (map (\<lambda>(t, v). [t, v]) aux)"

lemma flat_simps [simp]:
  "flat [] = []" "flat ((t, v) # aux) = t # v # flat aux" "flat (us @ aux) = flat us @ flat aux"
  by (simp_all add: flat_def)

lemma length_flat [simp]: "length (flat aux) = 2 * length aux"
  by (induction aux) auto

definition aux_value :: "(u64 \<times> u64) list \<Rightarrow> u64 \<Rightarrow> u64" where
  "aux_value aux t = (case map_of aux t of None \<Rightarrow> 0 | Some v \<Rightarrow> v)"

lemma getauxval_words:
  "words_at m a (flat aux @ [0]) \<Longrightarrow> 0 \<notin> fst ` set aux \<Longrightarrow> getauxval m a t = Some (aux_value aux t)"
proof (induction aux arbitrary: a)
  case Nil
  then show ?case by (simp add: getauxval_def aux_value_def getauxval_loop.simps)
next
  case (Cons e aux)
  obtain t' v where e: "e = (t', v)" by (cases e)
  from Cons.prems have "load64 m a = t'" "load64 m (a + 8) = v" "t' \<noteq> 0" "words_at m (a + 16) (flat aux @ [0])"
    by (auto simp: e add.commute)
  with Cons.IH[of "a + 16"] Cons.prems(2) show ?case
    by (simp add: getauxval_def getauxval_loop.simps[of m a] e aux_value_def)
qed

lemma count_env_words:
  assumes "words_at m envp (env @ [0])" and "0 \<notin> set env"
  shows "count_env m envp 0 = Some (length env)"
proof -
  have "count_env m envp (length us) = Some (length env)" if "env = us @ vs" for us vs
    using that
  proof (induction vs arbitrary: us)
    case Nil
    then show ?case using assms by (subst count_env.simps) (simp add: words_at_append)
  next
    case (Cons v vs)
    then have "load64 m (envp + of_nat (8 * length us)) = v" "v \<noteq> 0"
      using assms by (auto simp: words_at_append)
    with Cons show ?case using Cons.IH[of "us @ [v]"] by (subst count_env.simps) simp
  qed
  from this[of "[]" env] show ?thesis by simp
qed

lemma env_end_words:
  "words_at m a (env @ [0]) \<Longrightarrow> 0 \<notin> set env \<Longrightarrow> env_end m a = Some (a + of_nat (8 * length env))"
proof (induction env arbitrary: a)
  case (Cons v env)
  then show ?case by (subst env_end.simps) (simp add: algebra_simps)
qed (simp add: env_end.simps)

text \<open>The entries pushed for the values \<open>vals\<close>, as long as the functions do not look at the new stack.\<close>

lemma stacked_aux:
  assumes "stacked m hi vs s" and "length vs + 2 * length es \<le> N" and "8 * N < 2 ^ 64"
    and "list_all2 (\<lambda>(t, f) (t', v). t = t' \<and>
      (\<forall>m'. (\<forall>x. x \<notin> range_at (hi - of_nat (8 * N)) (8 * N) \<longrightarrow> m' x = m x) \<longrightarrow> f m' = Some v)) es vals"
  shows "\<exists>s'. push_aux es s = Some s' \<and> stacked m hi (flat (rev vals) @ vs) s'"
  using assms
proof (induction es arbitrary: vs s vals)
  case (Cons e es)
  obtain t f where e: "e = (t, f)" by (cases e)
  from Cons.prems(4) obtain v vals' where vals: "vals = (t, v) # vals'"
    and f: "(\<forall>x. x \<notin> range_at (hi - of_nat (8 * N)) (8 * N) \<longrightarrow> m' x = m x) \<Longrightarrow> f m' = Some v" 
    and all: "list_all2 (\<lambda>(t, f) (t', v). t = t' \<and>
      (\<forall>m'. (\<forall>x. x \<notin> range_at (hi - of_nat (8 * N)) (8 * N) \<longrightarrow> m' x = m x) \<longrightarrow> f m' = Some v)) es vals'" for m'
    by (auto simp: e list_all2_Cons1)
  have u: "hi - of_nat (8 * length vs) - (hi - of_nat (8 * N)) = of_nat (8 * (N - length vs))"
    using Cons.prems(2) by (simp add: of_nat_diff algebra_simps)
  have "unat (hi - of_nat (8 * length vs) - (hi - of_nat (8 * N))) = 8 * (N - length vs)"
    unfolding u using Cons.prems(3) by (intro unat_of_nat_64) simp
  then have "range_at (snd s) (8 * length vs) \<subseteq> range_at (hi - of_nat (8 * N)) (8 * N)"
    using Cons.prems(1,2,3) unfolding stacked_def by (intro range_at_sub) auto
  then have "f (fst s) = Some v" using Cons.prems(1) unfolding stacked_def by (intro f) blast
  moreover have "stacked m hi (t # v # vs) (push_word t (push_word v s))"
    using Cons.prems by (intro stacked_push) auto
  from Cons.IH[OF this _ Cons.prems(3) all] Cons.prems(2)
  have "\<exists>s'. push_aux es (push_word t (push_word v s)) = Some s' \<and> stacked m hi (flat (rev vals') @ t # v # vs) s'"
    by simp
  ultimately show ?case by (auto simp: e vals)
qed simp

text \<open>The auxiliary vector the guest gets, \<open>haux\<close> being the client's own.\<close>

definition guest_aux :: "binary_info \<Rightarrow> (u64 \<times> u64) list \<Rightarrow> u64 \<Rightarrow> (u64 \<times> u64) list" where
  "guest_aux info haux platform =
     [(AT_SECURE, 0), (AT_HWCAP2, 0), (AT_HWCAP, 0x8001), (AT_PAGESZ, aux_value haux AT_PAGESZ),
      (AT_CLKTCK, aux_value haux AT_CLKTCK), (AT_EGID, aux_value haux AT_EGID), (AT_GID, aux_value haux AT_GID),
      (AT_EUID, aux_value haux AT_EUID), (AT_UID, aux_value haux AT_UID), (AT_RANDOM, aux_value haux AT_RANDOM),
      (AT_PLATFORM, platform), (AT_PHNUM, bi_phnum info), (AT_PHENT, bi_phent info), (AT_PHDR, bi_phdr info),
      (AT_ENTRY, elf_entry info)]"

text \<open>
  The tables \<^verbatim>\<open>main\<close> copies from are apart from the part of the stack it writes, which is the \<open>8 * N\<close> bytes
  below the top.
\<close>

definition sources_apart :: "u64 \<Rightarrow> nat \<Rightarrow> (u64 \<times> nat) list \<Rightarrow> bool" where
  "sources_apart hi n srcs \<longleftrightarrow>
     (\<forall>(a, k) \<in> set srcs. range_at a (8 * k) \<inter> range_at (hi - of_nat (8 * n)) (8 * n) = {})"

lemma stacked_range_mono:
  assumes "k \<le> n" and "8 * n < 2 ^ 64"
  shows "range_at (hi - of_nat (8 * k)) (8 * k) \<subseteq> range_at (hi - of_nat (8 * n) :: u64) (8 * n)"
proof -
  have u: "hi - of_nat (8 * k) - (hi - of_nat (8 * n)) = (of_nat (8 * (n - k)) :: u64)"
    using assms(1) by (simp add: of_nat_diff algebra_simps)
  have "unat (hi - of_nat (8 * k) - (hi - of_nat (8 * n))) = 8 * (n - k)"
    unfolding u using assms(2) by (intro unat_of_nat_64) simp
  then show ?thesis using assms by (intro range_at_sub) auto
qed

lemma aux_entries_values:
  assumes aux: "words_at m auxv (flat haux @ [0])" "0 \<notin> fst ` set haux"
    and apart: "range_at auxv (8 * (2 * length haux + 1)) \<inter> R = {}" and n: "8 * (2 * length haux + 1) < 2 ^ 64"
  shows "list_all2 (\<lambda>(t, f) (t', v). t = t' \<and> (\<forall>m'. (\<forall>x. x \<notin> R \<longrightarrow> m' x = m x) \<longrightarrow> f m' = Some v))
    (aux_entries info auxv platform) (rev (guest_aux info haux platform))"
proof -
  have "getauxval m' auxv t = Some (aux_value haux t)" if "\<forall>x. x \<notin> R \<longrightarrow> m' x = m x" for m' t
  proof (rule getauxval_words[OF _ aux(2)])
    show "words_at m' auxv (flat haux @ [0])"
      by (rule words_at_cong[OF aux(1)]) (use that apart n in auto)
  qed
  then show ?thesis by (simp add: aux_entries_def guest_aux_def Let_def)
qed

definition initial_words :: "u64 list \<Rightarrow> u64 list \<Rightarrow> (u64 \<times> u64) list \<Rightarrow> u64 list" where
  "initial_words args env aux = of_nat (length args) # args @ 0 # env @ 0 # flat aux @ [0]"

lemma length_initial_words:
  "length (initial_words args env (guest_aux info haux platform)) = 34 + length args + length env"
  by (simp add: initial_words_def guest_aux_def)

lemma stacked_copy_in:
  assumes "stacked m hi vs s" and "words_at m src ws" and "length ws + length vs \<le> n" and "8 * n < 2 ^ 64"
    and "range_at src (8 * length ws) \<inter> range_at (hi - of_nat (8 * n)) (8 * n) = {}"
  shows "stacked m hi (ws @ vs) (copy_down src (length ws) s)"
  using stacked_range_mono[OF assms(3,4), of hi] assms by (intro stacked_copy) (simp, simp, simp, blast)

lemma setup_stack_layout:
  assumes args: "words_at m argv args" and env: "words_at m envp (env @ [0])" "0 \<notin> set env"
    and aux: "words_at m auxv (flat haux @ [0])" "0 \<notin> fst ` set haux"
    and n: "n = 34 + length args + length env" "8 * n < 2 ^ 64" "8 * (2 * length haux + 1) < 2 ^ 64"
    and hi: "hi = stack_top - of_nat (8 * ((length args + length env) mod 2))"
    and apart: "sources_apart hi n [(argv, length args), (envp, length env + 1), (auxv, 2 * length haux + 1)]"
  shows "\<exists>s. setup_stack info auxv platform (length args) argv envp m stack_top = Some s \<and>
    stacked m hi (initial_words args env (guest_aux info haux platform)) s"
proof -
  let ?g = "guest_aux info haux platform"
  have l: "length ?g = 15" "length (aux_entries info auxv platform) = 15"
    by (simp_all add: guest_aux_def aux_entries_def Let_def)
  have s0: "stacked m hi [0] (push_word 0 (m, hi))" by (intro stacked_push stacked_start) simp
  have R: "range_at auxv (8 * (2 * length haux + 1)) \<inter> range_at (hi - of_nat (8 * n)) (8 * n) = {}"
    "range_at argv (8 * length args) \<inter> range_at (hi - of_nat (8 * n)) (8 * n) = {}"
    "range_at envp (8 * (length env + 1)) \<inter> range_at (hi - of_nat (8 * n)) (8 * n) = {}"
    using apart unfolding sources_apart_def by simp_all
  from stacked_aux[OF s0 _ n(2) aux_entries_values[OF aux R(1) n(3), of info platform]] l n(1)
  obtain s1 where s1: "push_aux (aux_entries info auxv platform) (push_word 0 (m, hi)) = Some s1"
    "stacked m hi (flat ?g @ [0]) s1" by auto
  from stacked_push[OF s1(2), of 0] have s2: "stacked m hi (0 # flat ?g @ [0]) (push_word 0 s1)" by (simp add: l)
  have "range_at envp (8 * length env) \<subseteq> range_at envp (8 * (length env + 1))" using n by (intro range_at_sub) auto
  with R(3) have R': "range_at envp (8 * length env) \<inter> range_at (hi - of_nat (8 * n)) (8 * n) = {}" by blast
  have s3: "stacked m hi (env @ 0 # flat ?g @ [0]) (copy_down envp (length env) (push_word 0 s1))"
    by (rule stacked_copy_in[OF s2 _ _ n(2) R']) (use env(1) n(1) l in \<open>simp_all add: words_at_append\<close>)
  from stacked_push[OF s3, of 0] n
  have s4: "stacked m hi (0 # env @ 0 # flat ?g @ [0]) (push_word 0 (copy_down envp (length env) (push_word 0 s1)))"
    by (simp add: l)
  have s5: "stacked m hi (args @ 0 # env @ 0 # flat ?g @ [0])
    (copy_down argv (length args) (push_word 0 (copy_down envp (length env) (push_word 0 s1))))"
    by (rule stacked_copy_in[OF s4 args _ n(2) R(2)]) (use n(1) l in simp)
  from stacked_push[OF s5, of "of_nat (length args)"] n
  show ?thesis
    using s1(1) count_env_words[OF env]
    by (simp add: setup_stack_def initial_words_def l Let_def hi[symmetric] del: of_nat_mult)
qed

lemma c_int_of_nat: "n < 2 ^ 31 \<Longrightarrow> c_int (of_nat n) = int n"
  by (simp add: c_int_def unsigned_of_nat signed_of_nat take_bit_nat_eq_self signed_take_bit_int_eq_self)

lemma guest_aux_value:
  "(t, v) \<in> set (guest_aux info haux platform) \<Longrightarrow> aux_value (guest_aux info haux platform) t = v"
  by (auto simp: guest_aux_def aux_value_def)

lemma initial_words_split:
  assumes "words_at m sp (initial_words args env aux)" and "0 \<notin> fst ` set aux" and "0 \<notin> set env"
  defines "e \<equiv> sp + of_nat (8 * (length args + 2))"
  defines "a \<equiv> e + of_nat (8 * length env) + 8"
  shows "load64 m sp = of_nat (length args)" and "words_at m (sp + 8) (args @ [0])" and "words_at m e (env @ [0])"
    and "env_end m e = Some (e + of_nat (8 * length env))" and "getauxval m a t = Some (aux_value aux t)"
proof -
  have "initial_words args env aux = [of_nat (length args)] @ (args @ [0]) @ (env @ [0]) @ (flat aux @ [0])"
    by (simp add: initial_words_def)
  note w = assms(1)[unfolded this]
  have e: "sp + 8 + of_nat (8 * length (args @ [0])) = e" and a: "e + of_nat (8 * length (env @ [0])) = a"
    by (simp_all add: e_def a_def algebra_simps)
  have w': "load64 m sp = of_nat (length args)" "words_at m (sp + 8) (args @ [0])" "words_at m e (env @ [0])"
    "words_at m a (flat aux @ [0])"
    using w by (simp_all only: words_at_append[of _ _ "[of_nat (length args)]"] words_at_append[of _ _ "args @ [0]"]
        words_at_append[of _ _ "env @ [0]"] words_at.simps list.size e[symmetric] a[symmetric]) simp_all
  then show "load64 m sp = of_nat (length args)" "words_at m (sp + 8) (args @ [0])" "words_at m e (env @ [0])" by simp_all
  show "env_end m e = Some (e + of_nat (8 * length env))" using w'(3) assms(3) by (rule env_end_words)
  show "getauxval m a t = Some (aux_value aux t)" using w'(4) assms(2) by (rule getauxval_words)
qed

lemma padded_range:
  fixes t :: u64
  assumes "p \<le> 1" and "8 * (k + 1) < 2 ^ 64"
  shows "range_at (t - of_nat (8 * p) - of_nat (8 * k)) (8 * k) \<subseteq> range_at (t - of_nat (8 * (k + 1))) (8 * (k + 1))"
proof -
  have d: "t - of_nat (8 * p) - of_nat (8 * k) - (t - of_nat (8 * (k + 1))) = (of_nat (8 * (1 - p)) :: u64)"
    using assms(1) by (simp add: of_nat_diff algebra_simps)
  have "unat (t - of_nat (8 * p) - of_nat (8 * k) - (t - of_nat (8 * (k + 1)))) = 8 * (1 - p)"
    unfolding d by (intro unat_of_nat_64) simp
  then show ?thesis using assms by (intro range_at_sub) auto
qed

lemma aligned_pointer:
  fixes t :: u64
  assumes "8 * (x + 35) \<le> unat t" and "16 dvd unat t"
  shows "16 dvd unat (t - of_nat (8 * (x mod 2)) - of_nat (8 * (34 + x)))"
proof -
  have lt: "8 * (34 + x + x mod 2) < 2 ^ 64"
    using assms(1) unsigned_less[of t, where 'a = nat] by (simp add: mod_2_eq_odd)
  have u: "unat (of_nat (8 * (34 + x + x mod 2)) :: u64) = 8 * (34 + x + x mod 2)"
    using lt by (rule unat_of_nat_64)
  have d: "t - of_nat (8 * (x mod 2)) - of_nat (8 * (34 + x)) = t - of_nat (8 * (34 + x + x mod 2))"
    by (simp add: algebra_simps)
  have "unat (t - of_nat (8 * (34 + x + x mod 2))) = unat t - 8 * (34 + x + x mod 2)"
    using assms(1) u by (subst unat_sub) (auto simp: word_le_nat_alt mod_2_eq_odd)
  moreover have "16 dvd 8 * (34 + x + x mod 2)"
    by (cases "even x") (auto simp: mod_2_eq_odd elim!: evenE oddE)
  ultimately show ?thesis unfolding d using assms(2) by (metis dvd_diff_nat)
qed

lemma start_main_static:
  assumes "load64 (mem w) sp = of_nat l" and "l < 2 ^ 31" and "e = sp + of_nat (8 * (l + 2))"
    and "env_end (mem w) e = Some e'" and "getauxval (mem w) (e' + 8) AT_PAGESZ = Some ps"
  shows "start_main sp 0 w = Some (Inr \<lparr>su_argc = int l, su_argv = sp + 8, su_environ = e, su_auxv = e' + 8,
    su_world = w\<lparr>pagesize := ps\<rparr>\<rparr>)"
proof -
  have c: "c_int (load64 (mem w) sp) = int l" using assms(1,2) by (simp add: c_int_of_nat)
  have e: "sp + word_of_int (8 * (int l + 2)) = e" by (simp add: assms(3))
  show ?thesis unfolding start_main_def Let_def c e by (simp add: assms(4,5))
qed

text \<open>
  C9: The initial stack is the one the system ABI prescribes: \<^verbatim>\<open>main\<close> leaves the stack pointer 16-byte
  aligned, writes nothing but the new stack, and the start-up code of a statically linked guest that reads
  the stack like \<^verbatim>\<open>__start_main\<close> finds the argument count, the argument and environment pointers in order, and
  behind them an auxiliary vector with the program headers and the entry point of the executable and the
  values of the client's own vector.
\<close>

theorem guest_stack_startup:
  assumes args: "words_at m argv args" and env: "words_at m envp (env @ [0])" "0 \<notin> set env"
    and aux: "words_at m auxv (flat haux @ [0])" "0 \<notin> fst ` set haux"
    and n: "n = 35 + length args + length env" "n < 2 ^ 28" "length haux < 2 ^ 28"
    and top: "8 * n \<le> unat stack_top" "16 dvd unat stack_top"
    and apart: "sources_apart stack_top n [(argv, length args), (envp, length env + 1), (auxv, 2 * length haux + 1)]"
  shows "\<exists>m' sp. setup_stack info auxv platform (length args) argv envp m stack_top = Some (m', sp) \<and>
    16 dvd unat sp \<and> (\<forall>x. x \<notin> range_at (stack_top - of_nat (8 * n)) (8 * n) \<longrightarrow> m' x = m x) \<and>
    (let e = sp + of_nat (8 * (length args + 2)); a = e + of_nat (8 * length env) + 8 in
     start_main sp 0 (w\<lparr>mem := m'\<rparr>) =
       Some (Inr \<lparr>su_argc = int (length args), su_argv = sp + 8, su_environ = e, su_auxv = a,
         su_world = w\<lparr>mem := m', pagesize := aux_value haux AT_PAGESZ\<rparr>\<rparr>) \<and>
     words_at m' (sp + 8) (args @ [0]) \<and> words_at m' e (env @ [0]) \<and>
     (\<forall>(t, v) \<in> set (guest_aux info haux platform). getauxval m' a t = Some v))"
proof -
  let ?g = "guest_aux info haux platform" and ?pad = "(length args + length env) mod 2"
  define k where "k = 34 + length args + length env"
  define hi where "hi = stack_top - of_nat (8 * ?pad)"
  have sub: "range_at (hi - of_nat (8 * k)) (8 * k) \<subseteq> range_at (stack_top - of_nat (8 * n)) (8 * n)"
    using padded_range[of ?pad k stack_top] n by (simp add: hi_def k_def algebra_simps)
  then have "sources_apart hi k [(argv, length args), (envp, length env + 1), (auxv, 2 * length haux + 1)]"
    using apart by (fastforce simp: sources_apart_def)
  from setup_stack_layout[OF args env aux k_def _ _ hi_def this, of info platform] n
  obtain m' sp where s: "setup_stack info auxv platform (length args) argv envp m stack_top = Some (m', sp)"
    "stacked m hi (initial_words args env ?g) (m', sp)" by (auto simp: k_def)
  have sp: "sp = hi - of_nat (8 * k)" and w: "words_at m' sp (initial_words args env ?g)"
    and o: "\<And>x. x \<notin> range_at sp (8 * k) \<Longrightarrow> m' x = m x"
    using s(2) unfolding stacked_def length_initial_words k_def[symmetric] fst_conv snd_conv by blast+
  have nz: "0 \<notin> fst ` set ?g" by (simp add: guest_aux_def)
  note parts = initial_words_split[OF w nz env(2)]
  have pg: "aux_value ?g AT_PAGESZ = aux_value haux AT_PAGESZ" by (simp add: guest_aux_def aux_value_def)
  have "16 dvd unat sp"
    using aligned_pointer[of "length args + length env" stack_top] top n(1)
    by (simp add: sp hi_def k_def add.assoc del: of_nat_mult of_nat_add)
  moreover have "\<forall>x. x \<notin> range_at (stack_top - of_nat (8 * n)) (8 * n) \<longrightarrow> m' x = m x"
    using sub o sp by blast
  moreover have "start_main sp 0 (w\<lparr>mem := m'\<rparr>) = 
    Some (Inr \<lparr>su_argc = int (length args), su_argv = sp + 8, su_environ = sp + of_nat (8 * (length args + 2)),
       su_auxv = sp + of_nat (8 * (length args + 2)) + of_nat (8 * length env) + 8,
         su_world = w\<lparr>mem := m', pagesize := aux_value haux AT_PAGESZ\<rparr>\<rparr>)"
    using start_main_static[of "w\<lparr>mem := m'\<rparr>" sp "length args", OF _ _ refl] parts(1,4,5) n pg by simp
  ultimately show ?thesis using s(1) parts(2,3,5) guest_aux_value[of _ _ info haux platform]
    unfolding Let_def by auto
qed

text \<open>A client with one argument, an empty environment and an auxiliary vector with the page size.\<close>

definition demo_tables :: memory where
  "demo_tables x = (if x = 0x1001 then 0x20 else if x = 0x1200 then 6 else if x = 0x1209 then 0x10 else 0)"

definition demo_info :: binary_info where
  "demo_info = \<lparr>exec_entry = 0x401000, elf_entry = 0x401000, machine = 62, bi_phdr = 0x400040, bi_phnum = 2, bi_phent = 56\<rparr>"

theorem guest_stack_startup_witness:
  "\<exists>m' sp su. setup_stack demo_info 0x1200 0x3000 1 0x1000 0x1100 demo_tables 0x7f0000000000 = Some (m', sp) \<and>
     16 dvd unat sp \<and> start_main sp 0 ((boot_world ())\<lparr>mem := m'\<rparr>) = Some (Inr su) \<and> su_argc su = 1 \<and>
     load64 m' (su_argv su) = 0x2000 \<and> getauxval m' (su_auxv su) AT_ENTRY = Some 0x401000"
proof -
  have l: "load64 demo_tables 0x1000 = 0x2000" "load64 demo_tables 0x1100 = 0" "load64 demo_tables 0x1200 = 6"
    "load64 demo_tables 0x1208 = 0x1000" "load64 demo_tables 0x1210 = 0"
    by code_simp+
  have ap: "sources_apart 0x7f0000000000 36 [(0x1000, length [0x2000 :: u64]), (0x1100, length ([] :: u64 list) + 1),
      (0x1200, 2 * length [(6 :: u64, 0x1000 :: u64)] + 1)]"
    by (auto simp: sources_apart_def in_range_64)
  have w: "words_at demo_tables 0x1000 [0x2000]" "words_at demo_tables 0x1100 ([] @ [0])"
    "words_at demo_tables 0x1200 (flat [(6, 0x1000)] @ [0])" by (simp_all add: l)
  have t: "8 * 36 \<le> unat (0x7f0000000000 :: u64)" "16 dvd unat (0x7f0000000000 :: u64)" by simp_all
  have h: "(0 :: u64) \<notin> set []" "0 \<notin> fst ` set [(6 :: u64, 0x1000 :: u64)]"
    "36 = 35 + length [0x2000 :: u64] + length ([] :: u64 list)" "(36 :: nat) < 2 ^ 28"
    "length [(6 :: u64, 0x1000 :: u64)] < 2 ^ 28" by simp_all
  from guest_stack_startup[OF w(1,2) h(1) w(3) h(2-5) t ap, of demo_info "0x3000" "boot_world ()"]
  obtain m' sp where r: "setup_stack demo_info 0x1200 0x3000 1 0x1000 0x1100 demo_tables 0x7f0000000000 = Some (m', sp)"
    "16 dvd unat sp" "start_main sp 0 ((boot_world ())\<lparr>mem := m'\<rparr>) = Some (Inr \<lparr>su_argc = 1, su_argv = sp + 8,
       su_environ = sp + 24, su_auxv = 32 + sp, su_world = (boot_world ())\<lparr>mem := m', pagesize := aux_value [(6, 0x1000)] 6\<rparr>\<rparr>)"
    "load64 m' (sp + 8) = 0x2000" "\<forall>(t, v) \<in> set (guest_aux demo_info [(6, 0x1000)] 0x3000). getauxval m' (32 + sp) t = Some v"
    by (auto simp: Let_def)
  have "(AT_ENTRY, 0x401000) \<in> set (guest_aux demo_info [(6, 0x1000)] 0x3000)" by (simp add: guest_aux_def demo_info_def)
  with r show ?thesis by (intro exI[of _ m'] exI[of _ sp]) (force simp: split_beta)
qed

subsection \<open>The outcome of main\<close>

definition failed :: "'k outcome \<Rightarrow> bool" where
  "failed out \<longleftrightarrow> (\<exists>r w. out = Returned r w \<and> r \<noteq> 0)"

lemma failed_fail: "fail sys loc msg r w = Some (Inl out) \<Longrightarrow> r \<noteq> 0 \<Longrightarrow> failed out"
  by (auto simp: fail_def failed_def)

lemma fail_Inr [simp]: "fail sys loc msg r w \<noteq> Some (Inr b)"
  by (simp add: fail_def)

lemma main_load_failed: "main_load sys loc se obs su = Some (Inl out) \<Longrightarrow> failed out"
  by (auto simp: main_load_def Let_def bind_eq_Some_conv split: if_splits prod.splits dest!: failed_fail)

lemma main_connect_failed: "main_connect sys loc f b = Some (Inl out) \<Longrightarrow> failed out"
  by (auto simp: main_connect_def Let_def bind_eq_Some_conv split: if_splits prod.splits option.splits dest!: failed_fail)

lemma main_stack_failed: "main_stack sys loc platform su b = Some (Inl out) \<Longrightarrow> failed out"
  by (auto simp: main_stack_def Let_def bind_eq_Some_conv c_int_bad split: if_splits prod.splits dest!: failed_fail)

lemma main_object_failed: "main_object sys loc f rs b = Some (Inl out) \<Longrightarrow> failed out"
  by (auto simp: main_object_def Let_def bind_eq_Some_conv split: if_splits dest!: failed_fail)

lemma main_link_failed: "main_link sys loc f plt0 obs b = Some (Inl out) \<Longrightarrow> failed out"
  by (auto simp: main_link_def Let_def bind_eq_Some_conv
      split: if_splits prod.splits dest!: failed_fail main_object_failed)

lemma main_cases:
  assumes "main sys loc state_addr se f platform plt0 obs su = Some out"
  obtains (fails) "failed out"
  | (enters) b1 b2 b3 b4 where "main_load sys loc se obs su = Some (Inr b1)" "main_connect sys loc f b1 = Some (Inr b2)"
    "main_stack sys loc platform su b2 = Some (Inr b3)" "main_link sys loc f plt0 obs b3 = Some (Inr b4)"
    "main_enter sys loc state_addr b4 = Some out"
proof -
  from assms obtain r where r: "and_then (main_load sys loc se obs su) (\<lambda>b. and_then (main_connect sys loc f b) (\<lambda>b.
      and_then (main_stack sys loc platform su b) (main_link sys loc f plt0 obs))) = Some r"
    "(case r of Inl q \<Rightarrow> Some q | Inr b \<Rightarrow> main_enter sys loc state_addr b) = Some out"
    by (auto simp: main_def bind_eq_Some_conv)
  from r(1) show thesis
  proof (cases rule: and_then_cases)
    case (go b1)
    from go(2) show thesis
    proof (cases rule: and_then_cases)
      case (go b2)
      from go(2) show thesis
      proof (cases rule: and_then_cases)
        case (go b3)
        then show thesis using r(2) that \<open>main_load _ _ _ _ _ = _\<close> \<open>main_connect _ _ _ _ = _\<close>
          by (cases r) (auto dest: main_link_failed)
      qed (use r(2) that in \<open>auto dest: main_load_failed main_connect_failed main_stack_failed\<close>)
    qed (use r(2) that in \<open>auto dest: main_load_failed main_connect_failed main_stack_failed\<close>)
  qed (use r(2) that in \<open>auto dest: main_load_failed main_connect_failed main_stack_failed\<close>)
qed

text \<open>
  C16: When \<^verbatim>\<open>main\<close> returns instead of entering the guest, its return value is not zero, whichever step has
  failed: the arguments, the heap, the executable, the server, the calling convention, the stack, the
  linker, the first object, the thread area or the architecture.
\<close>

theorem main_failure_reported:
  assumes "main sys loc state_addr se f platform plt0 obs su = Some (Returned r w)"
  shows "r \<noteq> 0"
  using assms
proof (cases rule: main_cases)
  case fails
  then show ?thesis by (simp add: failed_def)
next
  case enters
  then show ?thesis
    by (auto simp: main_enter_def Let_def split: prod.splits if_splits option.splits)
qed

lemma c_int_bad_neg:
  assumes "BAD_ADDR r"
  shows "c_int r < 0"
proof -
  define k where "k = 2 ^ 64 - uint r"
  have "0xfffffffffffff000 < uint r" using assms by (simp add: BAD_ADDR_def word_less_def)
  then have k: "0 < k" "k < 0x1000" using uint_lt2p[of r] by (simp_all add: k_def)
  have "(ucast r :: u32) = word_of_int (uint r)" by (simp add: unsigned_def)
  also have "\<dots> = word_of_int (- k)" by (simp add: k_def)
  finally have "c_int r = signed_take_bit 31 (- k)"
    using sint_sbintrunc'[of "- k", where 'a = 32] by (simp only: c_int_def) simp
  also have "\<dots> = - k" using k by (intro signed_take_bit_int_eq_self) simp_all
  finally show ?thesis using k by simp
qed

lemma rtld_init_objects:
  "rtld_init sys d f plt0 obs rs = (ret, rs') \<Longrightarrow> \<not> ret < 0 \<Longrightarrow> objects (rs_rtld rs') = obs"
  by (auto simp: rtld_init_def Let_def split: prod.splits if_splits option.splits dest: c_int_bad_neg)

lemma rtld_perf_init_objects:
  "rtld_perf_init sys loc r mode w = Some (ret, r', w') \<Longrightarrow> objects r' = objects r"
  by (auto simp: rtld_perf_init_def rtld_perf_dump_init_def Let_def split: if_splits prod.splits option.splits)

lemma main_object_state:
  assumes "main_object sys loc f rs b = Some (Inr b')"
  shows "table_grows (objects (rs_rtld rs)) (objects (st_rtld (bt_state b'))) \<and>
    st_tc (bt_state b') = st_tc (bt_state b) \<and> bt_disp b' = bt_disp b"
  using assms
  by (auto simp: main_object_def Let_def bind_eq_Some_conv dest!: rtld_add_object_grows split: if_splits)

lemma main_link_state:
  assumes "main_link sys loc f plt0 obs b = Some (Inr b')"
  shows "(table_inv obs \<longrightarrow> table_inv (objects (st_rtld (bt_state b')))) \<and> st_tc (bt_state b') = st_tc (bt_state b) \<and> bt_disp b' = bt_disp b"
  using assms
  by (auto simp: main_link_def Let_def bind_eq_Some_conv table_grows_def split: if_splits prod.splits
      dest!: main_object_state rtld_init_objects rtld_perf_init_objects)

text \<open>Setting the thread pointer writes no memory.\<close>

definition thread_area_keeps :: "'k sysfn \<Rightarrow> bool" where
  "thread_area_keeps sys \<longleftrightarrow> (\<forall>tp m k. fst (snd (sys NR_arch_prctl [ARCH_SET_FS, tp] m k)) = m)"

lemma set_thread_area_mem: "thread_area_keeps sys \<Longrightarrow> mem (snd (set_thread_area sys tp w)) = mem w"
  by (simp add: thread_area_keeps_def set_thread_area_def ret_int_def syscall2_def do_syscall_def case_prod_beta)

text \<open>The memory of the guest's state once it is cleared and its two pointers are set.\<close>

definition cleared :: "memory \<Rightarrow> u64 \<Rightarrow> u64 \<Rightarrow> memory" where
  "cleared m p state_addr = store64 (store64 (memset m p 0 0x4500) p p) (p + 8) state_addr"

lemma cleared_byte:
  assumes "16 \<le> i" and "i < 0x4500"
  shows "cleared m p sa (p + of_nat i) = 0"
proof -
  have u: "unat (of_nat i :: u64) = i" "unat (of_nat i - 8 :: u64) = i - 8"
    using assms unat_of_nat_64[of i] unat_of_nat_64[of "i - 8"] by (simp_all add: of_nat_diff)
  have "p + of_nat i - (p + 8) = (of_nat i - 8 :: u64)" by simp
  moreover have "\<not> i - 8 < 8" "\<not> i < 8" using assms by simp_all
  ultimately show ?thesis
    using assms by (simp add: cleared_def store64_def memset_write_bytes write_bytes_apply u del: le_bytes.simps)
qed

lemma cleared_bytes:
  assumes "16 \<le> i" and "i + n \<le> 0x4500"
  shows "read_bytes (cleared m p sa) (p + of_nat i) n = replicate n 0"
proof (rule nth_equalityI)
  fix j assume "j < length (read_bytes (cleared m p sa) (p + of_nat i) n)"
  then have j: "j < n" by simp
  with assms cleared_byte[of "i + j" m p sa]
  show "read_bytes (cleared m p sa) (p + of_nat i) n ! j = replicate n 0 ! j"
    by (simp add: nth_read_bytes algebra_simps)
qed simp

lemma le_word_zero [simp]: "le_word (replicate n 0) = 0"
  by (induction n) simp_all

lemma cleared_loads:
  "16 \<le> i \<Longrightarrow> i + 8 \<le> 0x4500 \<Longrightarrow> load64 (cleared m p sa) (p + of_nat i) = 0"
  "16 \<le> i \<Longrightarrow> i + 4 \<le> 0x4500 \<Longrightarrow> load32 (cleared m p sa) (p + of_nat i) = 0"
  unfolding load64_def load32_def by (simp_all only: cleared_bytes le_word_zero)

lemma cleared_pointers: "load64 (cleared m p sa) p = p" "load64 (cleared m p sa) (p + 8) = sa"
proof -
  have "range_at p 8 \<inter> range_at (p + 8) 8 = {}" by (rule range_at_disjoint) simp_all
  then have "read_bytes (cleared m p sa) p 8 = read_bytes (store64 (memset m p 0 0x4500) p p) p 8"
    unfolding cleared_def store64_def[of _ "p + 8"] by (intro read_bytes_outside) simp_all
  then show "load64 (cleared m p sa) p = p"
    unfolding load64_def using load_store64[of "memset m p 0 0x4500" p p] by (simp add: load64_def)
qed (simp add: cleared_def load_store64)

text \<open>A guest's state with nothing in it.\<close>

definition zero_cpu :: "'k state \<Rightarrow> 'k cpu_state" where
  "zero_cpu st = \<lparr>cs_state = st, regdata = (\<lambda>_. 0), quick_tlb = (\<lambda>_. (0, 0)), sigpending = 0, cs_sigmask = 0,
     cs_sigaltstack = \<lparr>ss_sp = 0, ss_flags = 0, ss_size = 0\<rparr>, cs_siginfo = replicate 128 0\<rparr>"

lemma cpu_at_cleared: "cpu_at st (cleared m p sa) p = zero_cpu st"
proof -
  note l = cleared_loads[of "0x4440" m p sa] cleared_loads[of "0x4448" m p sa] cleared_loads[of "0x4450" m p sa]
    cleared_loads[of "0x4458" m p sa] cleared_loads[of "0x4460" m p sa] cleared_bytes[of "0x4468" 128 m p sa]
  have "regdata (cpu_at st (cleared m p sa) p) = (\<lambda>_. 0)" "quick_tlb (cpu_at st (cleared m p sa) p) = (\<lambda>_. (0, 0))"
    unfolding cpu_at_def by (auto simp: cleared_loads simp del: of_nat_add of_nat_mult)
  then show ?thesis using l by (simp add: cpu_at_def zero_cpu_def)
qed

lemma zero_cpu_inv: "tlb_inv (zero_cpu st) \<longleftrightarrow> table_inv (objects (st_rtld st))" "signal_inv (zero_cpu st)"
  by (simp_all add: tlb_inv_def signal_inv_def zero_cpu_def sigs_def)

lemma inv_regdata [simp]:
  "tlb_inv (cs\<lparr>regdata := r\<rparr>) = tlb_inv cs" "signal_inv (cs\<lparr>regdata := r\<rparr>) = signal_inv cs"
  by (simp_all add: tlb_inv_def signal_inv_def)

lemma main_enter_cases:
  assumes "main_enter sys loc state_addr b = Some (Entered lf cs)" and "thread_area_keeps sys"
  obtains st i where "sp_index (tsc_guest_arch (st_tsc (bt_state b))) = Some i" "lf = loop_func (bt_disp b)"
    "cs = (zero_cpu st)\<lparr>regdata := (\<lambda>_. 0)(0 := exec_entry (bt_info b), i := bt_sp b)\<rparr>"
    "st_rtld st = st_rtld (bt_state b)" "st_tc st = st_tc (bt_state b)" "st_tsc st = st_tsc (bt_state b)"
proof -
  obtain p g w1 where a: "mem_alloc_data sys (rs_arenas (st_rs (bt_state b))) 0x4500 64 (st_world (bt_state b)) = (p, g, w1)"
    by (rule prod_cases3)
  obtain ret w3 where t: "set_thread_area sys p (w1\<lparr>mem := cleared (mem w1) p state_addr\<rparr>) = (ret, w3)" by (rule prod.exhaust)
  have m: "mem w3 = cleared (mem w1) p state_addr"
    using set_thread_area_mem[OF assms(2), of p "w1\<lparr>mem := cleared (mem w1) p state_addr\<rparr>"] t by simp
  let ?st = "(bt_state b)\<lparr>st_rs := (st_rs (bt_state b))\<lparr>rs_arenas := g, rs_world := w3\<rparr>\<rparr>"
  from assms(1) obtain i where "sp_index (tsc_guest_arch (st_tsc (bt_state b))) = Some i" "lf = loop_func (bt_disp b)"
    "cs = (zero_cpu ?st)\<lparr>regdata := (\<lambda>_. 0)(0 := exec_entry (bt_info b), i := bt_sp b)\<rparr>"
    unfolding main_enter_def Let_def a
    by (auto simp: t m cpu_at_cleared zero_cpu_def simp flip: cleared_def split: if_splits option.splits)
  then show thesis by (rule that) simp_all
qed

text \<open>
  A run of \<^verbatim>\<open>main\<close> that enters the guest calls the loop function of the calling convention that the server has
  chosen, for an architecture whose stack pointer is known.
\<close>

lemma main_entered:
  assumes "main sys loc state_addr se f platform plt0 obs su = Some (Entered lf cs)" and "thread_area_keeps sys"
  shows "lf \<noteq> 0 \<and> (\<exists>d. dispatch_get False f (cs_state cs) = Some d \<and> loop_func d = lf) \<and>
    sp_index (tsc_guest_arch (st_tsc (cs_state cs))) \<noteq> None \<and> signal_inv cs \<and> (table_inv obs \<longrightarrow> tlb_inv cs)"
  using assms(1)
proof (cases rule: main_cases)
  case fails
  then show ?thesis by (simp add: failed_def)
next
  case (enters b1 b2 b3 b4)
  from enters(5) assms(2) obtain st i where m: "sp_index (tsc_guest_arch (st_tsc (bt_state b4))) = Some i"
    "lf = loop_func (bt_disp b4)" "cs = (zero_cpu st)\<lparr>regdata := (\<lambda>_. 0)(0 := exec_entry (bt_info b4), i := bt_sp b4)\<rparr>"
    "st_rtld st = st_rtld (bt_state b4)" "st_tc st = st_tc (bt_state b4)" "st_tsc st = st_tsc (bt_state b4)"
    by (rule main_enter_cases)
  have l: "table_inv obs \<longrightarrow> table_inv (objects (st_rtld (bt_state b4)))" "st_tc (bt_state b4) = st_tc (bt_state b3)"
    "bt_disp b4 = bt_disp b3"
    using main_link_state[OF enters(4)] by simp_all
  have k: "st_tc (bt_state b3) = st_tc (bt_state b2)" "bt_disp b3 = bt_disp b2"
    using enters(3) by (auto simp: main_stack_def Let_def bind_eq_Some_conv split: if_splits prod.splits)
  have d: "dispatch_get False f (bt_state b2) = Some (bt_disp b2)" "loop_func (bt_disp b2) \<noteq> 0"
    using enters(2) by (auto simp: main_connect_def Let_def bind_eq_Some_conv split: if_splits option.splits)
  have "cs_state cs = st" by (simp add: m(3) zero_cpu_def)
  with l k d m zero_cpu_inv[of st] show ?thesis by (simp add: dispatch_get_def)
qed


text \<open>An x86-64 guest whose state is allocated in memory full of 0xcc.\<close>

definition demo_boot :: "unit boot" where
  "demo_boot = \<lparr>bt_argc = 1, bt_argv = 0x1010, bt_config = 0x1800, bt_info = demo_info,
     bt_state = (zero_state no_objects fresh_arenas ((boot_world ())\<lparr>mem := (\<lambda>_. 0xcc)\<rparr>))
       \<lparr>st_tsc := \<lparr>tsc_guest_arch = EM_X86_64, tsc_host_arch = EM_X86_64, tsc_host_cpu_features = 0, tsc_server_mode = 0, tsc_stack_alignment = 8\<rparr>\<rparr>,
     bt_disp = no_dispatcher\<lparr>loop_func := 0x5000\<rparr>, bt_sp = 0x7eff00000000\<rparr>"


text \<open>Without the arguments \<^verbatim>\<open>main\<close> stops at once, with an empty function table.\<close>

definition demo_startup :: "unit startup" where
  "demo_startup = \<lparr>su_argc = 2, su_argv = 0x1000, su_environ = 0x1100, su_auxv = 0x1200, su_world = boot_world ()\<rparr>"

lemma demo_usage:
  "main grant_sys 0x20000 0x30000 demo_sigenv (\<lambda>_. 0x5000) 0x3000 [] no_objects demo_startup =
     Some (Returned 1 (puts_w grant_sys 0x20000 ''usage: CONFSTR EXECUTABLE [ARGS...]'' (boot_world ())))"
  by (simp add: main_def main_load_def demo_startup_def fail_def)

theorem main_failure_reported_witness:
  "\<exists>r w. main grant_sys 0x20000 0x30000 demo_sigenv (\<lambda>_. 0x5000) 0x3000 [] no_objects demo_startup = Some (Returned r w) \<and> r \<noteq> 0"
  using main_failure_reported[OF demo_usage] demo_usage by blast

end
