(* ===== verification/Client_Math.thy ===== *)
theory Client_Math
  imports Prelude Complex_Main
begin

text \<open>
  The rounding functions of \<^verbatim>\<open>client/math.c\<close>. A \<^verbatim>\<open>float\<close> or \<^verbatim>\<open>double\<close> is the word of its bits, as the unions of
  the source read it, and \<open>f32_value\<close> and \<open>f64_value\<close> give the number it stands for. The functions are
  shown to round as their names say for every finite argument.
\<close>

unbundle bit_operations_syntax

subsection \<open>Operations\<close>

definition EXP_F32 :: "u32 \<Rightarrow> int" where
  "EXP_F32 vi = sint (signed_drop_bit 23 vi AND 0xff) - 0x7f"

definition EXP_F64 :: "u64 \<Rightarrow> int" where
  "EXP_F64 vi = sint (signed_drop_bit 52 vi AND 0x7ff) - 0x3ff"

text \<open>The constants 0.0, -0.0, 1.0 and -1.0.\<close>

abbreviation (input) f32_pzero :: u32 where "f32_pzero \<equiv> 0"
abbreviation (input) f32_nzero :: u32 where "f32_nzero \<equiv> 0x80000000"
abbreviation (input) f32_pone :: u32 where "f32_pone \<equiv> 0x3f800000"
abbreviation (input) f32_none :: u32 where "f32_none \<equiv> 0xbf800000"
abbreviation (input) f64_pzero :: u64 where "f64_pzero \<equiv> 0"
abbreviation (input) f64_nzero :: u64 where "f64_nzero \<equiv> 0x8000000000000000"
abbreviation (input) f64_pone :: u64 where "f64_pone \<equiv> 0x3ff0000000000000"
abbreviation (input) f64_none :: u64 where "f64_none \<equiv> 0xbff0000000000000"

definition floorf :: "u32 \<Rightarrow> u32" where
  "floorf vi =
     (let e = EXP_F32 vi in
      if e < 0 then (if vi = 0x80000000 then f32_nzero else if vi <s 0 then f32_none else f32_pzero)
      else if e < 23 then
        let msk = drop_bit (nat e) 0x7fffff in (vi + (if vi <s 0 then msk else 0)) AND NOT msk
      else vi)"

definition floor_d :: "u64 \<Rightarrow> u64" where
  "floor_d vi =
     (let e = EXP_F64 vi in
      if e < 0 then (if vi = 0x8000000000000000 then f64_nzero else if vi <s 0 then f64_none else f64_pzero)
      else if e < 52 then
        let msk = drop_bit (nat e) 0xfffffffffffff in (vi + (if vi <s 0 then msk else 0)) AND NOT msk
      else vi)"

definition ceilf :: "u32 \<Rightarrow> u32" where
  "ceilf vi =
     (let e = EXP_F32 vi in
      if e < 0 then (if vi <s 0 then f32_nzero else if vi = 0 then f32_pzero else f32_pone)
      else if e < 23 then
        let msk = drop_bit (nat e) 0x7fffff in (vi + (if 0 \<le>s vi then msk else 0)) AND NOT msk
      else vi)"

definition ceil_d :: "u64 \<Rightarrow> u64" where
  "ceil_d vi =
     (let e = EXP_F64 vi in
      if e < 0 then (if vi <s 0 then f64_nzero else if vi = 0 then f64_pzero else f64_pone)
      else if e < 52 then
        let msk = drop_bit (nat e) 0xfffffffffffff in (vi + (if 0 \<le>s vi then msk else 0)) AND NOT msk
      else vi)"

definition roundf :: "u32 \<Rightarrow> u32" where
  "roundf vi =
     (let e = EXP_F32 vi in
      if e < - 1 then vi AND 0x80000000
      else if e = - 1 then (if vi <s 0 then f32_none else f32_pone)
      else if e < 23 then
        let msk = drop_bit (nat e) 0x7fffff in
        if vi AND msk \<noteq> 0 then (vi + (1 + drop_bit 1 msk)) AND NOT msk else vi
      else vi)"

definition round_d :: "u64 \<Rightarrow> u64" where
  "round_d vi =
     (let e = EXP_F64 vi in
      if e < - 1 then vi AND 0x8000000000000000
      else if e = - 1 then (if vi <s 0 then f64_none else f64_pone)
      else if e < 52 then
        let msk = drop_bit (nat e) 0xfffffffffffff in
        if vi AND msk \<noteq> 0 then (vi + (1 + drop_bit 1 msk)) AND NOT msk else vi
      else vi)"

definition truncf :: "u32 \<Rightarrow> u32" where
  "truncf vi =
     (let e = EXP_F32 vi in
      if e < 0 then (if vi <s 0 then f32_nzero else f32_pzero)
      else if e < 23 then let msk = drop_bit (nat e) 0x7fffff in vi AND NOT msk
      else vi)"

definition trunc_d :: "u64 \<Rightarrow> u64" where
  "trunc_d vi =
     (let e = EXP_F64 vi in
      if e < 0 then (if vi <s 0 then f64_nzero else f64_pzero)
      else if e < 52 then let msk = drop_bit (nat e) 0xfffffffffffff in vi AND NOT msk
      else vi)"

text \<open>
  The arithmetic of the machine is a parameter: the product is rounded before the sum, as the comment in the source
  says.
\<close>

definition fmaf :: "(u32 \<Rightarrow> u32 \<Rightarrow> u32) \<Rightarrow> (u32 \<Rightarrow> u32 \<Rightarrow> u32) \<Rightarrow> u32 \<Rightarrow> u32 \<Rightarrow> u32 \<Rightarrow> u32" where
  "fmaf fmul fadd x y z = fadd (fmul x y) z"

definition fma_d :: "(u64 \<Rightarrow> u64 \<Rightarrow> u64) \<Rightarrow> (u64 \<Rightarrow> u64 \<Rightarrow> u64) \<Rightarrow> u64 \<Rightarrow> u64 \<Rightarrow> u64 \<Rightarrow> u64" where
  "fma_d fmul fadd x y z = fadd (fmul x y) z"

subsection \<open>The numbers\<close>

text \<open>
  A format with \<open>p\<close> bits of fraction and the bias \<open>b\<close>: the bits below the sign are the biased exponent and the fraction;
  with the exponent 0 the fraction has no hidden bit.
\<close>

definition mag_value :: "nat \<Rightarrow> nat \<Rightarrow> nat \<Rightarrow> real" where
  "mag_value p b m =
     (let e = m div 2 ^ p; f = m mod 2 ^ p in
      if e = 0 then real f * 2 / 2 ^ (b + p) else real (2 ^ p + f) * 2 ^ e / 2 ^ (b + p))"

definition mag :: "'a::len word \<Rightarrow> nat" where
  "mag v = unat v mod 2 ^ (LENGTH('a) - 1)"

definition neg :: "'a::len word \<Rightarrow> bool" where
  "neg v \<longleftrightarrow> 2 ^ (LENGTH('a) - 1) \<le> unat v"

definition fp_value :: "nat \<Rightarrow> nat \<Rightarrow> 'a::len word \<Rightarrow> real" where
  "fp_value p b v = (if neg v then - mag_value p b (mag v) else mag_value p b (mag v))"

abbreviation f32_value :: "u32 \<Rightarrow> real" where "f32_value \<equiv> fp_value 23 127"
abbreviation f64_value :: "u64 \<Rightarrow> real" where "f64_value \<equiv> fp_value 52 1023"

definition toward_zero :: "real \<Rightarrow> int" where
  "toward_zero x = (if x < 0 then - \<lfloor>- x\<rfloor> else \<lfloor>x\<rfloor>)"

definition half_away :: "real \<Rightarrow> int" where
  "half_away x = (if x < 0 then - \<lfloor>- x + 1 / 2\<rfloor> else \<lfloor>x + 1 / 2\<rfloor>)"

text \<open>What the functions do to the bits below the sign.\<close>

definition trunc_mag :: "nat \<Rightarrow> nat \<Rightarrow> nat \<Rightarrow> nat" where
  "trunc_mag p b m =
     (let e = m div 2 ^ p in
      if e < b then 0 else if e < b + p then m div 2 ^ (b + p - e) * 2 ^ (b + p - e) else m)"

definition ceil_mag :: "nat \<Rightarrow> nat \<Rightarrow> nat \<Rightarrow> nat" where
  "ceil_mag p b m =
     (let e = m div 2 ^ p; k = b + p - e in
      if e < b then if m = 0 then 0 else b * 2 ^ p
      else if e < b + p then (m + (2 ^ k - 1)) div 2 ^ k * 2 ^ k else m)"

definition round_mag :: "nat \<Rightarrow> nat \<Rightarrow> nat \<Rightarrow> nat" where
  "round_mag p b m =
     (let e = m div 2 ^ p; k = b + p - e in
      if e + 1 < b then 0
      else if e < b then b * 2 ^ p
      else if e < b + p then (m + 2 ^ (k - 1)) div 2 ^ k * 2 ^ k else m)"

lemma mag_value_scaled:
  assumes "b * 2 ^ p \<le> m" "0 < b" and e: "e = m div 2 ^ p" "e \<le> b + p"
    and n: "e * 2 ^ p \<le> n" "n \<le> (e + 1) * 2 ^ p"
  shows "mag_value p b n = real (n - (e - 1) * 2 ^ p) / 2 ^ (b + p - e)"
proof -
  have "b \<le> e" using assms(1) unfolding e(1) by (simp add: less_eq_div_iff_mult_less_eq)
  then have e0: "0 < e" using assms(2) by simp
  then obtain d where d: "e = Suc d" by (cases e) auto
  have pw: "(2::real) ^ (b + p) = 2 ^ e * 2 ^ (b + p - e)" using e(2) by (simp flip: power_add)
  show ?thesis
  proof (cases "n = (e + 1) * 2 ^ p")
    case True
    then have "n div 2 ^ p = e + 1" "n mod 2 ^ p = 0" by simp_all
    then show ?thesis unfolding mag_value_def Let_def pw using True
      by (simp add: d algebra_simps of_nat_diff)
  next
    case False
    then have "n < (e + 1) * 2 ^ p" using n(2) by simp
    then have q: "n div 2 ^ p = e" using n(1) by (intro div_nat_eqI) (simp_all add: mult.commute)
    have "n mod 2 ^ p = n - e * 2 ^ p" by (simp add: q flip: minus_div_mult_eq_mod)
    then show ?thesis unfolding mag_value_def Let_def q pw using n(1) e0
      by (simp add: d field_simps of_nat_diff)
  qed
qed

text \<open>Between 1 and the first number without a fraction, adding \<open>r\<close> and clearing the low bits is a rounding.\<close>

lemma mag_value_block:
  assumes "b * 2 ^ p \<le> m" "0 < b" "m div 2 ^ p < b + p" "k = b + p - m div 2 ^ p" "r < 2 ^ k"
  obtains M where "mag_value p b m = real M / 2 ^ k"
    "mag_value p b ((m + r) div 2 ^ k * 2 ^ k) = real ((M + r) div 2 ^ k)"
proof -
  define e where "e = m div 2 ^ p"
  have be: "b \<le> e" using assms(1) unfolding e_def by (simp add: less_eq_div_iff_mult_less_eq)
  then have kp: "k \<le> p" using assms(4) by (simp add: e_def)
  have "(2::nat) ^ p = 2 ^ (p - k) * 2 ^ k" using kp by (simp flip: power_add)
  then obtain q where q: "(2::nat) ^ p = q * 2 ^ k" by blast
  have lo: "e * 2 ^ p \<le> m" and hi: "m < (e + 1) * 2 ^ p"
    unfolding e_def by (simp_all add: mult.commute[of _ "2 ^ p"] dividend_less_times_div less_Suc_eq_le)
  define M where "M = m - (e - 1) * 2 ^ p"
  have c: "(e - 1) * 2 ^ p \<le> e * 2 ^ p" by simp
  then have "(e - 1) * 2 ^ p \<le> m" using lo by (rule le_trans)
  then have "m = M + (e - 1) * 2 ^ p" unfolding M_def by (rule le_add_diff_inverse2[symmetric])
  then have mM: "m = M + (e - 1) * q * 2 ^ k" using q by simp
  let ?n = "(m + r) div 2 ^ k * 2 ^ k"
  have n: "?n = ((M + r) div 2 ^ k) * 2 ^ k + (e - 1) * 2 ^ p"
  proof -
    have "m + r = (M + r) + (e - 1) * q * 2 ^ k" using mM by simp
    then have "(m + r) div 2 ^ k = (e - 1) * q + (M + r) div 2 ^ k" by (simp only: div_mult_self1) simp
    then show ?thesis by (simp add: add_mult_distrib q)
  qed
  have "e * q * 2 ^ k \<le> m + r" using lo q by simp
  then have "e * q \<le> (m + r) div 2 ^ k" by (simp add: less_eq_div_iff_mult_less_eq)
  then have n1: "e * 2 ^ p \<le> ?n" using q by simp
  have "m + r < ((e + 1) * q + 1) * 2 ^ k" using hi q assms(5) by (simp add: algebra_simps)
  then have "(m + r) div 2 ^ k < (e + 1) * q + 1" by (simp add: div_less_iff_less_mult)
  then have "(m + r) div 2 ^ k * 2 ^ k \<le> (e + 1) * q * 2 ^ k" by (intro mult_right_mono) auto
  then have n2: "?n \<le> (e + 1) * 2 ^ p" unfolding q by (simp only: mult.assoc)
  have eb: "e \<le> b + p" "k = b + p - e" using assms(3,4) by (simp_all add: e_def)
  note v = mag_value_scaled[OF assms(1,2) e_def eb(1)]
  have "mag_value p b m = real M / 2 ^ k" using v[OF lo] hi by (simp add: M_def eb(2))
  moreover have "?n - (e - 1) * 2 ^ p = ((M + r) div 2 ^ k) * 2 ^ k" using n by simp
  then have "mag_value p b ?n = real ((M + r) div 2 ^ k)" using v[OF n1 n2] by (simp add: eb(2))
  ultimately show thesis by (rule that)
qed

lemma ceiling_nat_div: "\<lceil>real M / 2 ^ k\<rceil> = int ((M + (2 ^ k - 1)) div 2 ^ k)"
proof (rule ceiling_unique)
  let ?z = "(M + (2 ^ k - 1)) div 2 ^ k"
  have "?z * 2 ^ k \<le> M + (2 ^ k - 1)" by (rule div_times_less_eq_dividend)
  then have "?z * 2 ^ k < M + 2 ^ k" using zero_less_power[of "2 :: nat" k] by linarith
  then have "real (?z * 2 ^ k) < real (M + 2 ^ k)" by (rule of_nat_less_iff[THEN iffD2])
  then show "real_of_int (int ?z) - 1 < real M / 2 ^ k" by (simp add: field_simps)
  have "M + (2 ^ k - 1) < ?z * 2 ^ k + 2 ^ k"
  proof -
    have "(M + (2 ^ k - 1)) mod 2 ^ k < 2 ^ k" by simp
    then show ?thesis using div_mult_mod_eq[of "M + (2 ^ k - 1)" "2 ^ k"] by linarith
  qed
  then have "M \<le> ?z * 2 ^ k" by linarith
  then have "real M \<le> real (?z * 2 ^ k)" by (rule of_nat_le_iff[THEN iffD2])
  then show "real M / 2 ^ k \<le> real_of_int (int ?z)" by (simp add: field_simps)
qed

lemma round_nat_div: "0 < k \<Longrightarrow> \<lfloor>real M / 2 ^ k + 1 / 2\<rfloor> = int ((M + 2 ^ (k - 1)) div 2 ^ k)"
proof -
  assume "0 < k"
  then have "real M / 2 ^ k + 1 / 2 = real (M + 2 ^ (k - 1)) / real (2 ^ k)"
    by (cases k) (simp_all add: field_simps)
  then show ?thesis by (simp only: floor_divide_of_nat_eq)
qed

lemma mag_value_small: "m div 2 ^ p < c \<Longrightarrow> 0 < c \<Longrightarrow> mag_value p b m < 2 ^ c / 2 ^ b"
proof -
  assume c: "m div 2 ^ p < c" "0 < c"
  have "m mod 2 ^ p < 2 ^ p" by simp
  then have "real (m mod 2 ^ p) < real (2 ^ p)" by (rule of_nat_less_iff[THEN iffD2])
  then have f: "real (m mod 2 ^ p) < 2 ^ p" by simp
  have "mag_value p b m < 2 ^ c * 2 ^ p / 2 ^ (b + p)"
  proof (cases "m div 2 ^ p = 0")
    case True
    have "real (m mod 2 ^ p) * 2 < 2 ^ p * 2" using f by simp
    also have "\<dots> = 2 ^ 1 * 2 ^ p" by simp
    also have "\<dots> \<le> 2 ^ c * 2 ^ p" using c(2) by (intro mult_right_mono power_increasing) auto
    finally have "real (m mod 2 ^ p) * 2 < 2 ^ c * 2 ^ p" .
    then show ?thesis using True by (simp add: mag_value_def divide_strict_right_mono)
  next
    case False
    have "real (2 ^ p + m mod 2 ^ p) * 2 ^ (m div 2 ^ p) < 2 ^ Suc p * 2 ^ (m div 2 ^ p)" using f by simp
    also have "\<dots> = 2 ^ Suc (m div 2 ^ p) * 2 ^ p" by simp
    also have "\<dots> \<le> 2 ^ c * 2 ^ p" using c(1) by (intro mult_right_mono power_increasing) auto
    finally show ?thesis using False by (simp add: mag_value_def divide_strict_right_mono)
  qed
  then show ?thesis by (simp add: power_add)
qed

lemma mag_value_nonneg: "0 \<le> mag_value p b m"
  by (simp add: mag_value_def Let_def)

lemma mag_value_zero: "mag_value p b m = 0 \<longleftrightarrow> m = 0"
proof
  assume v: "mag_value p b m = 0"
  have "m div 2 ^ p = 0"
  proof (rule ccontr)
    assume "m div 2 ^ p \<noteq> 0"
    then have "mag_value p b m = real (2 ^ p + m mod 2 ^ p) * 2 ^ (m div 2 ^ p) / 2 ^ (b + p)" by (simp add: mag_value_def)
    with v have "real (2 ^ p + m mod 2 ^ p) = 0" by (simp del: of_nat_add)
    then show False by (simp only: of_nat_eq_0_iff) simp
  qed
  moreover from this v have "m mod 2 ^ p = 0" by (simp add: mag_value_def)
  ultimately show "m = 0" using div_mult_mod_eq[of m "2 ^ p"] by simp
qed (simp add: mag_value_def)

lemma mag_value_0 [simp]: "mag_value p b 0 = 0"
  by (simp add: mag_value_zero)

lemma mag_value_one: "0 < b \<Longrightarrow> mag_value p b (b * 2 ^ p) = 1"
  by (simp add: mag_value_def power_add)

lemma mag_value_half: "m div 2 ^ p = b - 1 \<Longrightarrow> 1 < b \<Longrightarrow> 1 / 2 \<le> mag_value p b m"
proof -
  assume b: "m div 2 ^ p = b - 1" "1 < b"
  then have "(1::real) / 2 = 2 ^ p * 2 ^ (b - 1) / 2 ^ (b + p)"
    by (cases b) (simp_all add: power_add)
  also have "\<dots> \<le> real (2 ^ p + m mod 2 ^ p) * 2 ^ (b - 1) / 2 ^ (b + p)"
    by (intro divide_right_mono mult_right_mono) simp_all
  finally show ?thesis using b by (simp add: mag_value_def)
qed

lemma mag_value_integral: "b + p \<le> m div 2 ^ p \<Longrightarrow> 0 < b \<Longrightarrow> mag_value p b m \<in> \<int>"
proof -
  assume b: "b + p \<le> m div 2 ^ p" "0 < b"
  then have "(2::real) ^ (m div 2 ^ p) / 2 ^ (b + p) = 2 ^ (m div 2 ^ p - (b + p))"
    by (simp add: power_diff)
  then have "mag_value p b m = of_int (int ((2 ^ p + m mod 2 ^ p) * 2 ^ (m div 2 ^ p - (b + p))))"
    using b by (simp add: mag_value_def flip: times_divide_eq_right)
  then show ?thesis by (metis Ints_of_int)
qed

lemma mag_value_below_one: "m div 2 ^ p < b \<Longrightarrow> mag_value p b m < 1"
  using mag_value_small[of m p b b] by simp

lemma exponent_le: "\<not> (m :: nat) div 2 ^ p < b \<Longrightarrow> b * 2 ^ p \<le> m"
  by (simp add: not_less less_eq_div_iff_mult_less_eq)

lemma mag_trunc:
  assumes "1 < b"
  shows "mag_value p b (trunc_mag p b m) = \<lfloor>mag_value p b m\<rfloor>"
proof -
  consider "m div 2 ^ p < b" | "\<not> m div 2 ^ p < b" "m div 2 ^ p < b + p" | "b + p \<le> m div 2 ^ p" by linarith
  then show ?thesis
  proof cases
    case 1
    then have "\<lfloor>mag_value p b m\<rfloor> = 0"
      using mag_value_below_one[of m p b] mag_value_nonneg[of p b m] by (simp add: floor_eq_iff)
    then show ?thesis using 1 by (simp add: trunc_mag_def mag_value_zero)
  next
    case 2
    from mag_value_block[OF exponent_le[OF 2(1)] _ 2(2) refl, of 0] assms obtain M where
      "mag_value p b m = real M / 2 ^ (b + p - m div 2 ^ p)"
      "mag_value p b (trunc_mag p b m) = real (M div 2 ^ (b + p - m div 2 ^ p))"
      using 2 by (auto simp: trunc_mag_def Let_def)
    then show ?thesis using floor_divide_of_nat_eq[where m = M and n = "2 ^ (b + p - m div 2 ^ p)" and 'a = real] by simp
  next
    case 3
    then show ?thesis using mag_value_integral[OF 3] assms by (auto simp: trunc_mag_def elim: Ints_cases)
  qed
qed

lemma mag_ceil:
  assumes "1 < b"
  shows "mag_value p b (ceil_mag p b m) = \<lceil>mag_value p b m\<rceil>"
proof -
  consider "m = 0" | "m \<noteq> 0" "m div 2 ^ p < b" | "m \<noteq> 0" "\<not> m div 2 ^ p < b" "m div 2 ^ p < b + p" | "b + p \<le> m div 2 ^ p"
    by linarith
  then show ?thesis
  proof cases
    case 2
    then have "0 < mag_value p b m" using mag_value_zero[of p b m] mag_value_nonneg[of p b m] by linarith
    then have "\<lceil>mag_value p b m\<rceil> = 1"
      using mag_value_below_one[OF 2(2)] by (simp add: ceiling_eq_iff)
    then show ?thesis using 2 assms by (simp add: ceil_mag_def mag_value_one)
  next
    case 3
    from mag_value_block[OF exponent_le[OF 3(2)] _ 3(3) refl, of "2 ^ (b + p - m div 2 ^ p) - 1"] assms obtain M where
      "mag_value p b m = real M / 2 ^ (b + p - m div 2 ^ p)"
      "mag_value p b (ceil_mag p b m) = real ((M + (2 ^ (b + p - m div 2 ^ p) - 1)) div 2 ^ (b + p - m div 2 ^ p))"
      using 3 by (auto simp: ceil_mag_def Let_def)
    then show ?thesis using ceiling_nat_div[of M "b + p - m div 2 ^ p"] by simp
  next
    case 4
    then show ?thesis using mag_value_integral[OF 4] assms by (auto simp: ceil_mag_def elim: Ints_cases)
  qed (use assms in \<open>simp add: ceil_mag_def mag_value_zero\<close>)
qed

lemma mag_round:
  assumes "1 < b"
  shows "mag_value p b (round_mag p b m) = \<lfloor>mag_value p b m + 1 / 2\<rfloor>"
proof -
  consider "m div 2 ^ p + 1 < b" | "m div 2 ^ p = b - 1" | "\<not> m div 2 ^ p < b" "m div 2 ^ p < b + p" | "b + p \<le> m div 2 ^ p"
    by linarith
  then show ?thesis
  proof cases
    case 1
    have "mag_value p b m < 2 ^ (b - 1) / 2 ^ b" using 1 assms by (intro mag_value_small) auto
    also have "\<dots> = 1 / 2" using assms by (cases b) auto
    finally have "\<lfloor>mag_value p b m + 1 / 2\<rfloor> = 0" using mag_value_nonneg[of p b m] by (simp add: floor_eq_iff)
    then show ?thesis using 1 by (simp add: round_mag_def mag_value_zero)
  next
    case 2
    then have "m div 2 ^ p < b" using assms by simp
    then have "\<lfloor>mag_value p b m + 1 / 2\<rfloor> = 1"
      using mag_value_below_one[of m p b] mag_value_half[OF 2 assms] by (simp add: floor_eq_iff)
    then show ?thesis using 2 assms by (simp add: round_mag_def mag_value_one)
  next
    case 3
    let ?k = "b + p - m div 2 ^ p"
    have k: "0 < ?k" "2 ^ (?k - 1) < (2::nat) ^ ?k" using 3 by simp_all
    from mag_value_block[OF exponent_le[OF 3(1)] _ 3(2) refl k(2)] assms obtain M where
      "mag_value p b m = real M / 2 ^ ?k"
      "mag_value p b (round_mag p b m) = real ((M + 2 ^ (?k - 1)) div 2 ^ ?k)"
      using 3 by (auto simp: round_mag_def Let_def)
    then show ?thesis using round_nat_div[OF k(1), of M] by simp
  next
    case 4
    then obtain z where "mag_value p b m = of_int z" using mag_value_integral[OF 4] assms by (auto elim: Ints_cases)
    moreover have "\<lfloor>real_of_int z + 1 / 2\<rfloor> = z" by (simp add: floor_eq_iff)
    ultimately show ?thesis using 4 by (simp add: round_mag_def)
  qed
qed

subsection \<open>Sign and magnitude of words\<close>

lemma unat_sign_mag: "unat (v :: 'a::len word) = (if neg v then 2 ^ (LENGTH('a) - 1) else 0) + mag v"
proof -
  have "(2 :: nat) ^ LENGTH('a) = 2 * 2 ^ (LENGTH('a) - 1)" using power_Suc[of "2 :: nat" "LENGTH('a) - 1"] by simp
  then have v: "unat v < 2 * 2 ^ (LENGTH('a) - 1)" using unsigned_less[of v, where 'a = nat] by simp
  show ?thesis
  proof (cases "neg v")
    case True
    then have n: "2 ^ (LENGTH('a) - 1) \<le> unat v" by (simp add: neg_def)
    then have "mag v = unat v - 2 ^ (LENGTH('a) - 1)" unfolding mag_def using v by (subst le_mod_geq) auto
    with True n show ?thesis by simp
  qed (simp add: neg_def mag_def)
qed

lemma sign_magI:
  assumes "unat (w :: 'a::len word) = (if s then 2 ^ (LENGTH('a) - 1) else 0) + m" "m < 2 ^ (LENGTH('a) - 1)"
  shows "neg w = s" "mag w = m"
  using assms by (auto simp: neg_def mag_def)

lemma mag_less: "mag (v :: 'a::len word) < 2 ^ (LENGTH('a) - 1)"
  by (simp add: mag_def)

lemma neg_iff_bit: "neg (v :: 'a::len word) \<longleftrightarrow> bit v (LENGTH('a) - 1)"
proof -
  have "unat v div 2 ^ (LENGTH('a) - 1) = (if neg v then 1 else 0)"
    using mag_less[of v] by (subst unat_sign_mag) simp
  moreover have "bit v (LENGTH('a) - 1) \<longleftrightarrow> odd (unat v div 2 ^ (LENGTH('a) - 1))"
    by (simp add: bit_unsigned_iff flip: bit_iff_odd)
  ultimately show ?thesis by simp
qed

lemma sless_neg: "v <s 0 \<longleftrightarrow> neg (v :: 'a::len word)" "0 \<le>s v \<longleftrightarrow> \<not> neg v"
  by (simp_all add: neg_iff_bit word_sless_alt word_sle_eq bit_last_iff not_less)

lemma clear_low:
  assumes "k \<le> LENGTH('a) - 1"
  shows "neg (x AND NOT (mask k) :: 'a::len word) = neg x" "mag (x AND NOT (mask k)) = mag x div 2 ^ k * 2 ^ k"
proof -
  let ?h = "(2 :: nat) ^ (LENGTH('a) - 1)"
  have h: "?h = 2 ^ (LENGTH('a) - 1 - k) * 2 ^ k" using assms by (simp flip: power_add)
  have "unat (x AND NOT (mask k)) = unat x div 2 ^ k * 2 ^ k"
  proof -
    have "x AND NOT (mask k) = push_bit k (drop_bit k x)"
      by (rule bit_word_eqI) (auto simp: bit_simps)
    moreover have "unat (push_bit k (drop_bit k x)) = take_bit LENGTH('a) (unat x div 2 ^ k * 2 ^ k)"
      unfolding unsigned_push_bit_eq unat_drop_bit_eq by (simp only: push_bit_eq_mult drop_bit_eq_div)
    moreover have "unat x div 2 ^ k * 2 ^ k < 2 ^ LENGTH('a)"
      using unsigned_less[of x, where 'a = nat] div_times_less_eq_dividend[of "unat x" "2 ^ k"] by linarith
    ultimately show ?thesis by (simp add: take_bit_nat_eq_self)
  qed
  also have "\<dots> = (if neg x then ?h else 0) + mag x div 2 ^ k * 2 ^ k"
  proof -
    define q where "q = (2 :: nat) ^ (LENGTH('a) - 1 - k)"
    have "unat x = (if neg x then q else 0) * 2 ^ k + mag x" using unat_sign_mag[of x] h by (simp add: q_def)
    then have "unat x div 2 ^ k * 2 ^ k = (if neg x then q * 2 ^ k else 0) + mag x div 2 ^ k * 2 ^ k"
      by (simp add: add_mult_distrib)
    then show ?thesis unfolding h q_def .
  qed
  finally have u: "unat (x AND NOT (mask k)) = (if neg x then ?h else 0) + mag x div 2 ^ k * 2 ^ k" .
  have "mag x div 2 ^ k * 2 ^ k < ?h"
    using mag_less[of x] div_times_less_eq_dividend[of "mag x" "2 ^ k"] by linarith
  with sign_magI[OF u] show "neg (x AND NOT (mask k)) = neg x" "mag (x AND NOT (mask k)) = mag x div 2 ^ k * 2 ^ k"
    by simp_all
qed

lemma add_low:
  assumes "mag v + r < 2 ^ (LENGTH('a) - 1)"
  shows "neg (v + of_nat r :: 'a::len word) = neg v" "mag (v + of_nat r) = mag v + r"
proof -
  have l: "(2 :: nat) ^ LENGTH('a) = 2 * 2 ^ (LENGTH('a) - 1)" using power_Suc[of "2 :: nat" "LENGTH('a) - 1"] by simp
  have "r < 2 ^ LENGTH('a)" using assms l by linarith
  then have "unat (v + of_nat r) = (unat v + r) mod 2 ^ LENGTH('a)"
    by (simp add: unat_word_ariths unat_of_nat take_bit_nat_eq_self)
  also have "\<dots> = unat v + r" using assms l by (subst unat_sign_mag) (simp add: unat_sign_mag[of v])
  finally have "unat (v + of_nat r) = (if neg v then 2 ^ (LENGTH('a) - 1) else 0) + (mag v + r)"
    by (simp add: unat_sign_mag[of v])
  from sign_magI[OF this assms] show "neg (v + of_nat r) = neg v" "mag (v + of_nat r) = mag v + r" .
qed

subsection \<open>The shape of the functions\<close>

text \<open>
  Both formats have the same code with other constants. The interface is that code over \<open>p\<close> bits of fraction and the
  bias \<open>b\<close>: what the functions do to sign and magnitude is proved once.
\<close>

locale rounding_code =
  fixes p b :: nat and ex :: "'a::len word \<Rightarrow> int" and fl ce ro tr :: "'a word \<Rightarrow> 'a word"
    and pone none nzero :: "'a word"
  assumes bias: "1 < b" and room: "(b + p + 1) * 2 ^ p \<le> 2 ^ (LENGTH('a) - 1)" and frac: "p < LENGTH('a)"
    and ex: "ex v = int (mag v div 2 ^ p) - int b"
    and pone: "unat pone = b * 2 ^ p" and none: "unat none = 2 ^ (LENGTH('a) - 1) + b * 2 ^ p"
    and nzero: "unat nzero = 2 ^ (LENGTH('a) - 1)"
    and fl: "fl v = (if ex v < 0 then (if v = nzero then nzero else if v <s 0 then none else 0)
      else if ex v < int p then
        let msk = drop_bit (nat (ex v)) (mask p) in (v + (if v <s 0 then msk else 0)) AND NOT msk else v)"
    and ce: "ce v = (if ex v < 0 then (if v <s 0 then nzero else if v = 0 then 0 else pone)
      else if ex v < int p then
        let msk = drop_bit (nat (ex v)) (mask p) in (v + (if 0 \<le>s v then msk else 0)) AND NOT msk else v)"
    and ro: "ro v = (if ex v < - 1 then v AND nzero else if ex v = - 1 then (if v <s 0 then none else pone)
      else if ex v < int p then
        let msk = drop_bit (nat (ex v)) (mask p) in
        if v AND msk \<noteq> 0 then (v + (1 + drop_bit 1 msk)) AND NOT msk else v else v)"
    and tr: "tr v = (if ex v < 0 then (if v <s 0 then nzero else 0)
      else if ex v < int p then let msk = drop_bit (nat (ex v)) (mask p) in v AND NOT msk else v)"
begin

lemma small_exp: "ex v < 0 \<longleftrightarrow> mag v div 2 ^ p < b" "ex v < int p \<longleftrightarrow> mag v div 2 ^ p < b + p"
  "ex v < - 1 \<longleftrightarrow> mag v div 2 ^ p + 1 < b" "ex v = - 1 \<longleftrightarrow> mag v div 2 ^ p + 1 = b"
  by (auto simp: ex)

lemma msk: "\<not> mag v div 2 ^ p < b \<Longrightarrow>
  drop_bit (nat (ex v)) (mask p) = (mask (b + p - mag v div 2 ^ p) :: 'a word)"
proof -
  assume "\<not> mag v div 2 ^ p < b"
  then have "b \<le> mag v div 2 ^ p" by simp
  then have "nat (ex v) = mag v div 2 ^ p - b" by (simp add: ex)
  moreover have "drop_bit n (mask p) = (mask (p - n) :: 'a word)" for n
    using frac by (intro bit_word_eqI) (auto simp: bit_simps)
  ultimately show ?thesis using \<open>b \<le> mag v div 2 ^ p\<close> by (simp add: add.commute)
qed

lemma signs: "neg nzero" "mag nzero = 0" "neg none" "mag none = b * 2 ^ p" "\<not> neg pone" "mag pone = b * 2 ^ p"
  "\<not> neg (0 :: 'a word)" "mag (0 :: 'a word) = 0"
proof -
  have "b * 2 ^ p < (b + p + 1) * 2 ^ p" by (simp add: add_mult_distrib)
  then have l: "b * 2 ^ p < 2 ^ (LENGTH('a) - 1)" using room by linarith
  show "neg nzero" "mag nzero = 0" using sign_magI[of nzero True 0] nzero by simp_all
  show "neg none" "mag none = b * 2 ^ p" using sign_magI[of none True "b * 2 ^ p"] none l by simp_all
  show "\<not> neg pone" "mag pone = b * 2 ^ p" using sign_magI[of pone False "b * 2 ^ p"] pone l by simp_all
  show "\<not> neg (0 :: 'a word)" "mag (0 :: 'a word) = 0" by (simp_all add: neg_def mag_def)
qed

lemma block:
  assumes "\<not> mag v div 2 ^ p < b" "mag v div 2 ^ p < b + p" "k = b + p - mag v div 2 ^ p" "r < 2 ^ k"
  shows "neg ((v + of_nat r) AND NOT (mask k) :: 'a word) = neg v"
    "mag ((v + of_nat r) AND NOT (mask k)) = (mag v + r) div 2 ^ k * 2 ^ k"
proof -
  have kp: "k \<le> p" using assms by simp
  have "(2::nat) ^ k \<le> 2 ^ p" using kp by simp
  then have "r < 2 ^ p" using assms(4) by linarith
  moreover have "mag v < (mag v div 2 ^ p + 1) * 2 ^ p" by (simp add: mult.commute dividend_less_times_div)
  moreover have "(mag v div 2 ^ p + 1) * 2 ^ p \<le> (b + p) * 2 ^ p" using assms(2) by (intro mult_right_mono) auto
  moreover have "(b + p + 1) * 2 ^ p = (b + p) * 2 ^ p + (2 :: nat) ^ p" by simp
  ultimately have "mag v + r < (b + p + 1) * 2 ^ p" by linarith
  then have m: "mag v + r < 2 ^ (LENGTH('a) - 1)" using room by linarith
  have "k \<le> LENGTH('a) - 1" using kp frac by simp
  from clear_low[OF this, of "v + of_nat r"] add_low[OF m]
  show "neg ((v + of_nat r) AND NOT (mask k)) = neg v"
    "mag ((v + of_nat r) AND NOT (mask k)) = (mag v + r) div 2 ^ k * 2 ^ k" by simp_all
qed

lemma mask_nat: "k \<le> p \<Longrightarrow> (mask k :: 'a word) = of_nat (2 ^ k - 1)"
  by (simp add: mask_eq_exp_minus_1 of_nat_diff)

lemma tr_mag: "neg (tr v) = neg v" "mag (tr v) = trunc_mag p b (mag v)"
proof -
  have "neg (tr v) = neg v \<and> mag (tr v) = trunc_mag p b (mag v)"
    using block[of v _ 0] msk[of v] signs by (auto simp: tr small_exp trunc_mag_def Let_def sless_neg)
  then show "neg (tr v) = neg v" "mag (tr v) = trunc_mag p b (mag v)" by simp_all
qed

lemma zero_iff: "v = 0 \<longleftrightarrow> \<not> neg v \<and> mag v = 0" "v = nzero \<longleftrightarrow> neg v \<and> mag v = 0"
  using unat_sign_mag[of v] mag_less[of v] nzero by (auto simp: signs word_unat_eq_iff)

lemma add_msk:
  assumes "\<not> mag v div 2 ^ p < b" "mag v div 2 ^ p < b + p"
  defines "k \<equiv> b + p - mag v div 2 ^ p"
  shows "neg ((v + mask k) AND NOT (mask k) :: 'a word) = neg v"
    "mag ((v + mask k) AND NOT (mask k)) = (mag v + (2 ^ k - 1)) div 2 ^ k * 2 ^ k"
proof -
  have "k \<le> p" using assms(1) by (simp add: k_def)
  note m = mask_nat[OF this, symmetric]
  have "(2 :: nat) ^ k - 1 < 2 ^ k" by simp
  note b = block[OF assms(1,2) k_def[THEN meta_eq_to_obj_eq] this, unfolded m]
  show "neg ((v + mask k) AND NOT (mask k) :: 'a word) = neg v"
    "mag ((v + mask k) AND NOT (mask k)) = (mag v + (2 ^ k - 1)) div 2 ^ k * 2 ^ k" by (fact b)+
qed

lemma fl_mag: "neg (fl v) = neg v" "mag (fl v) = (if neg v then ceil_mag p b (mag v) else trunc_mag p b (mag v))"
proof -
  have "neg (fl v) = neg v \<and> mag (fl v) = (if neg v then ceil_mag p b (mag v) else trunc_mag p b (mag v))"
    using block[of v _ 0] msk[of v] signs add_msk[of v]
    by (auto simp: fl small_exp trunc_mag_def ceil_mag_def Let_def sless_neg zero_iff)
  then show "neg (fl v) = neg v" "mag (fl v) = (if neg v then ceil_mag p b (mag v) else trunc_mag p b (mag v))"
    by simp_all
qed

lemma ce_mag: "neg (ce v) = neg v" "mag (ce v) = (if neg v then trunc_mag p b (mag v) else ceil_mag p b (mag v))"
proof -
  have "neg (ce v) = neg v \<and> mag (ce v) = (if neg v then trunc_mag p b (mag v) else ceil_mag p b (mag v))"
    using block[of v _ 0] msk[of v] signs add_msk[of v]
    by (auto simp: ce small_exp trunc_mag_def ceil_mag_def Let_def sless_neg zero_iff)
  then show "neg (ce v) = neg v" "mag (ce v) = (if neg v then trunc_mag p b (mag v) else ceil_mag p b (mag v))"
    by simp_all
qed

lemma sign_only: "neg (v AND nzero) = neg v" "mag (v AND nzero) = 0"
proof -
  have "unat (of_nat (2 ^ (LENGTH('a) - 1)) :: 'a word) = 2 ^ (LENGTH('a) - 1)"
    by (simp only: unat_of_nat) simp
  then have nz: "nzero = 2 ^ (LENGTH('a) - 1)" using nzero by (simp add: word_unat_eq_iff)
  have "v AND nzero = (if neg v then nzero else 0)"
    unfolding nz by (rule bit_word_eqI) (auto simp: neg_iff_bit bit_simps)
  then show "neg (v AND nzero) = neg v" "mag (v AND nzero) = 0" using signs by simp_all
qed

lemma low_bits: "k \<le> p \<Longrightarrow> (v :: 'a word) AND mask k = 0 \<longleftrightarrow> mag v mod 2 ^ k = 0"
proof -
  assume k: "k \<le> p"
  have "v AND mask k = take_bit k v" by (simp add: take_bit_eq_mask)
  then have "unat (v AND mask k) = take_bit k (unat v)" by (simp only: unsigned_take_bit_eq)
  then have "unat (v AND mask k) = unat v mod 2 ^ k" by (simp only: take_bit_eq_mod)
  moreover have "(2 :: nat) ^ k dvd 2 ^ (LENGTH('a) - 1)" using k frac by (intro le_imp_power_dvd) simp
  ultimately have "unat (v AND mask k) = mag v mod 2 ^ k" by (simp add: mag_def mod_mod_cancel)
  then show ?thesis by (simp add: word_unat_eq_iff)
qed

lemma half_msk: "0 < k \<Longrightarrow> k \<le> p \<Longrightarrow> 1 + drop_bit 1 (mask k) = (of_nat (2 ^ (k - 1)) :: 'a word)"
proof -
  assume k: "0 < k" "k \<le> p"
  have "drop_bit 1 (mask k) = (mask (k - 1) :: 'a word)"
    using k frac by (intro bit_word_eqI) (auto simp: bit_simps)
  then show ?thesis by (simp add: mask_eq_exp_minus_1)
qed

lemma ro_mag: "neg (ro v) = neg v" "mag (ro v) = round_mag p b (mag v)"
proof -
  let ?k = "b + p - mag v div 2 ^ p"
  consider "ex v < - 1" | "ex v = - 1" | "\<not> mag v div 2 ^ p < b" "mag v div 2 ^ p < b + p" | "b + p \<le> mag v div 2 ^ p"
    by (simp add: ex) linarith
  then have "neg (ro v) = neg v \<and> mag (ro v) = round_mag p b (mag v)"
  proof cases
    case 3
    then have k: "0 < ?k" "?k \<le> p" "(2 :: nat) ^ (?k - 1) < 2 ^ ?k" by simp_all
    have r: "round_mag p b (mag v) = (mag v + 2 ^ (?k - 1)) div 2 ^ ?k * 2 ^ ?k"
      using 3 by (simp add: round_mag_def Let_def)
    have "ro v = (if v AND mask ?k \<noteq> 0 then (v + (1 + drop_bit 1 (mask ?k))) AND NOT (mask ?k) else v)"
      using 3 msk[OF 3(1)] unfolding ro small_exp Let_def by simp
    then have c: "ro v = (if mag v mod 2 ^ ?k \<noteq> 0 then (v + of_nat (2 ^ (?k - 1))) AND NOT (mask ?k) else v)"
      unfolding half_msk[OF k(1,2)] by (simp only: low_bits[OF k(2)])
    show ?thesis
    proof (cases "mag v mod 2 ^ ?k = 0")
      case True
      have "(mag v + 2 ^ (?k - 1)) div 2 ^ ?k = mag v div 2 ^ ?k"
        using True k(3) by (simp add: div_add1_eq[of "mag v"])
      then show ?thesis using True unfolding r c by (simp add: dvd_eq_mod_eq_0)
    next
      case False
      then show ?thesis using block[OF 3 refl k(3)] unfolding r c by simp
    qed
  next
    case 4
    then show ?thesis by (simp add: ro small_exp round_mag_def Let_def)
  qed (use signs sign_only bias in \<open>auto simp: ro small_exp round_mag_def Let_def sless_neg\<close>)
  then show "neg (ro v) = neg v" "mag (ro v) = round_mag p b (mag v)" by simp_all
qed

lemmas mags = tr_mag fl_mag ce_mag ro_mag

lemma fl_rounds: "fp_value p b (fl v) = \<lfloor>fp_value p b v\<rfloor>"
  using mag_trunc[OF bias, of p "mag v"] mag_ceil[OF bias, of p "mag v"] by (simp add: fp_value_def mags floor_minus)

lemma ce_rounds: "fp_value p b (ce v) = \<lceil>fp_value p b v\<rceil>"
  using mag_trunc[OF bias, of p "mag v"] mag_ceil[OF bias, of p "mag v"] by (simp add: fp_value_def mags ceiling_minus)

lemma value_neg: "fp_value p b v < 0 \<longleftrightarrow> neg v \<and> mag v \<noteq> 0"
  using mag_value_nonneg[of p b "mag v"] mag_value_zero[of p b "mag v"] by (auto simp: fp_value_def)

lemma tr_rounds: "fp_value p b (tr v) = toward_zero (fp_value p b v)"
  using mag_trunc[OF bias, of p "mag v"] value_neg[of v]
  by (auto simp: fp_value_def mags toward_zero_def split: if_splits)

lemma ro_rounds: "fp_value p b (ro v) = half_away (fp_value p b v)"
  using mag_round[OF bias, of p "mag v"] value_neg[of v]
  by (auto simp: fp_value_def mags half_away_def split: if_splits)

lemma kept: "b + p \<le> mag v div 2 ^ p \<Longrightarrow> fl v = v \<and> ce v = v \<and> ro v = v \<and> tr v = v"
  by (simp add: fl ce ro tr small_exp)

end

lemma exp_field:
  assumes "p + j = LENGTH('a) - 1"
  shows "sint (signed_drop_bit p (v :: 'a::len word) AND mask j) = int (mag v div 2 ^ p)"
proof -
  let ?w = "signed_drop_bit p v AND mask j"
  have "?w = take_bit j (drop_bit p v)"
    using assms by (intro bit_word_eqI) (auto simp: bit_simps min_def)
  then have "unat ?w = take_bit j (drop_bit p (unat v))" by (simp only: unsigned_take_bit_eq unat_drop_bit_eq)
  also have "\<dots> = drop_bit p (take_bit (LENGTH('a) - 1) (unat v))"
  proof -
    have "LENGTH('a) - 1 - p = j" using assms by simp
    then show ?thesis by (simp only: drop_bit_take_bit)
  qed
  also have "\<dots> = mag v div 2 ^ p" by (simp add: mag_def drop_bit_eq_div take_bit_eq_mod)
  finally have u: "unat ?w = mag v div 2 ^ p" .
  also have "\<dots> \<le> mag v" by simp
  also have "\<dots> < 2 ^ (LENGTH('a) - 1)" by (rule mag_less)
  finally have "int (unat ?w) < int (2 ^ (LENGTH('a) - 1))" by (rule of_nat_less_iff[THEN iffD2])
  then have "uint ?w < 2 ^ (LENGTH('a) - Suc 0)" by simp
  then have "sint ?w = uint ?w"
    unfolding sint_uint by (intro signed_take_bit_int_eq_self) (auto intro: order_trans[of _ 0])
  also have "\<dots> = int (unat ?w)" by simp
  finally show ?thesis unfolding u .
qed

lemma fp_masks:
  "(0x7fffff :: u32) = mask 23" "(0xff :: u32) = mask 8" "(0xfffffffffffff :: u64) = mask 52" "(0x7ff :: u64) = mask 11"
  by (simp_all add: mask_eq_exp_minus_1)

lemma EXP_mag: "EXP_F32 v = int (mag v div 2 ^ 23) - int 127" "EXP_F64 u = int (mag u div 2 ^ 52) - int 1023"
  using exp_field[of 23 8 v] exp_field[of 52 11 u] by (simp_all add: EXP_F32_def EXP_F64_def fp_masks(2,4))

lemmas f32_code = floorf_def ceilf_def roundf_def truncf_def
lemmas f64_code = floor_d_def ceil_d_def round_d_def trunc_d_def

interpretation f32: rounding_code 23 127 EXP_F32 floorf ceilf roundf truncf f32_pone f32_none f32_nzero
proof (unfold_locales, goal_cases)
  case (4 v)
  then show ?case by (rule EXP_mag)
qed (simp_all only: f32_code Let_def fp_masks(1) of_nat_numeral, simp_all)

interpretation f64: rounding_code 52 1023 EXP_F64 floor_d ceil_d round_d trunc_d f64_pone f64_none f64_nzero
proof (unfold_locales, goal_cases)
  case (4 v)
  then show ?case by (rule EXP_mag)
qed (simp_all only: f64_code Let_def fp_masks(3) of_nat_numeral, simp_all)

subsection \<open>Properties\<close>

text \<open>
  A function that rounds by \<open>g\<close>: it keeps the sign bit, returns infinities and NaNs, whose exponent is \<open>maxe\<close>,
  unchanged, and gives \<open>g\<close> of every other number exactly.
\<close>

definition rounds_by :: "nat \<Rightarrow> nat \<Rightarrow> nat \<Rightarrow> (real \<Rightarrow> int) \<Rightarrow> ('a::len word \<Rightarrow> 'a word) \<Rightarrow> bool" where
  "rounds_by p b maxe g f \<longleftrightarrow>
     (\<forall>v. neg (f v) = neg v \<and>
       (if mag v div 2 ^ p = maxe then f v = v else fp_value p b (f v) = of_int (g (fp_value p b v))))"

text \<open>
  C12: floor, ceil, trunc and round compute, for every float and every double, the greatest integer
  below, the least integer above, the next integer towards zero and the nearest integer with halves
  away from zero, exactly; they keep the sign bit, also of a zero, and return infinities and NaNs unchanged.
\<close>

theorem rounding_correct:
  "rounds_by 23 127 0xff floor floorf \<and> rounds_by 52 1023 0x7ff floor floor_d \<and>
   rounds_by 23 127 0xff ceiling ceilf \<and> rounds_by 52 1023 0x7ff ceiling ceil_d \<and>
   rounds_by 23 127 0xff half_away roundf \<and> rounds_by 52 1023 0x7ff half_away round_d \<and>
   rounds_by 23 127 0xff toward_zero truncf \<and> rounds_by 52 1023 0x7ff toward_zero trunc_d"
  unfolding rounds_by_def
  by (simp add: f32.mags f64.mags f32.kept f64.kept f32.fl_rounds f32.ce_rounds f32.ro_rounds f32.tr_rounds
      f64.fl_rounds f64.ce_rounds f64.ro_rounds f64.tr_rounds)

text \<open>Two of the source's test cases.\<close>

lemma rounding_examples: "f32_value 0xc27e0000 = - 63.5" "floorf 0xc27e0000 = 0xc2800000" "f32_value 0xc2800000 = - 64"
  by (simp_all add: fp_value_def neg_def mag_def mag_value_def floorf_def EXP_F32_def Let_def sless_neg)

end
