(* ===== verification/Frvdec.thy ===== *)
theory Frvdec
  imports Libc_Printf "HOL-Library.Signed_Division"
begin

text \<open>
  The RISC-V decoder \<^verbatim>\<open>subprojects/frvdec\<close>: 32-bit instructions (\<^verbatim>\<open>frv_decode4\<close>), compressed instructions
  (\<^verbatim>\<open>frv_decode2\<close>), the choice between them, and the formatting of a decoded instruction. Decoded
  instructions are shown to have the operands and the range of immediates their mnemonic calls for, and
  every immediate to be gathered from the instruction bits that the architecture assigns to it.
\<close>

unbundle bit_operations_syntax

subsection \<open>Mnemonics\<close>

text \<open>The enumerators are used as indices, so they are numbers.\<close>

abbreviation (input) FRV_INVALID :: nat where "FRV_INVALID \<equiv> 0"
abbreviation (input) FRV_LB :: nat where "FRV_LB \<equiv> 1"
abbreviation (input) FRV_LH :: nat where "FRV_LH \<equiv> 2"
abbreviation (input) FRV_LW :: nat where "FRV_LW \<equiv> 3"
abbreviation (input) FRV_LD :: nat where "FRV_LD \<equiv> 4"
abbreviation (input) FRV_LBU :: nat where "FRV_LBU \<equiv> 5"
abbreviation (input) FRV_LHU :: nat where "FRV_LHU \<equiv> 6"
abbreviation (input) FRV_LWU :: nat where "FRV_LWU \<equiv> 7"
abbreviation (input) FRV_SB :: nat where "FRV_SB \<equiv> 8"
abbreviation (input) FRV_SH :: nat where "FRV_SH \<equiv> 9"
abbreviation (input) FRV_SW :: nat where "FRV_SW \<equiv> 10"
abbreviation (input) FRV_SD :: nat where "FRV_SD \<equiv> 11"
abbreviation (input) FRV_ADDI :: nat where "FRV_ADDI \<equiv> 12"
abbreviation (input) FRV_SLLI :: nat where "FRV_SLLI \<equiv> 13"
abbreviation (input) FRV_SLTI :: nat where "FRV_SLTI \<equiv> 14"
abbreviation (input) FRV_SLTIU :: nat where "FRV_SLTIU \<equiv> 15"
abbreviation (input) FRV_XORI :: nat where "FRV_XORI \<equiv> 16"
abbreviation (input) FRV_SRAI :: nat where "FRV_SRAI \<equiv> 17"
abbreviation (input) FRV_SRLI :: nat where "FRV_SRLI \<equiv> 18"
abbreviation (input) FRV_ORI :: nat where "FRV_ORI \<equiv> 19"
abbreviation (input) FRV_ANDI :: nat where "FRV_ANDI \<equiv> 20"
abbreviation (input) FRV_ADD :: nat where "FRV_ADD \<equiv> 21"
abbreviation (input) FRV_SLL :: nat where "FRV_SLL \<equiv> 22"
abbreviation (input) FRV_SLT :: nat where "FRV_SLT \<equiv> 23"
abbreviation (input) FRV_SLTU :: nat where "FRV_SLTU \<equiv> 24"
abbreviation (input) FRV_XOR :: nat where "FRV_XOR \<equiv> 25"
abbreviation (input) FRV_SRL :: nat where "FRV_SRL \<equiv> 26"
abbreviation (input) FRV_OR :: nat where "FRV_OR \<equiv> 27"
abbreviation (input) FRV_AND :: nat where "FRV_AND \<equiv> 28"
abbreviation (input) FRV_SUB :: nat where "FRV_SUB \<equiv> 29"
abbreviation (input) FRV_SRA :: nat where "FRV_SRA \<equiv> 30"
abbreviation (input) FRV_FENCE :: nat where "FRV_FENCE \<equiv> 31"
abbreviation (input) FRV_FENCEI :: nat where "FRV_FENCEI \<equiv> 32"
abbreviation (input) FRV_AUIPC :: nat where "FRV_AUIPC \<equiv> 33"
abbreviation (input) FRV_LUI :: nat where "FRV_LUI \<equiv> 34"
abbreviation (input) FRV_JAL :: nat where "FRV_JAL \<equiv> 35"
abbreviation (input) FRV_JALR :: nat where "FRV_JALR \<equiv> 36"
abbreviation (input) FRV_BEQ :: nat where "FRV_BEQ \<equiv> 37"
abbreviation (input) FRV_BNE :: nat where "FRV_BNE \<equiv> 38"
abbreviation (input) FRV_BLT :: nat where "FRV_BLT \<equiv> 39"
abbreviation (input) FRV_BGE :: nat where "FRV_BGE \<equiv> 40"
abbreviation (input) FRV_BLTU :: nat where "FRV_BLTU \<equiv> 41"
abbreviation (input) FRV_BGEU :: nat where "FRV_BGEU \<equiv> 42"
abbreviation (input) FRV_ECALL :: nat where "FRV_ECALL \<equiv> 43"
abbreviation (input) FRV_ADDIW :: nat where "FRV_ADDIW \<equiv> 44"
abbreviation (input) FRV_SLLIW :: nat where "FRV_SLLIW \<equiv> 45"
abbreviation (input) FRV_SRAIW :: nat where "FRV_SRAIW \<equiv> 46"
abbreviation (input) FRV_SRLIW :: nat where "FRV_SRLIW \<equiv> 47"
abbreviation (input) FRV_ADDW :: nat where "FRV_ADDW \<equiv> 48"
abbreviation (input) FRV_SLLW :: nat where "FRV_SLLW \<equiv> 49"
abbreviation (input) FRV_SRLW :: nat where "FRV_SRLW \<equiv> 50"
abbreviation (input) FRV_SUBW :: nat where "FRV_SUBW \<equiv> 51"
abbreviation (input) FRV_SRAW :: nat where "FRV_SRAW \<equiv> 52"
abbreviation (input) FRV_MUL :: nat where "FRV_MUL \<equiv> 53"
abbreviation (input) FRV_MULH :: nat where "FRV_MULH \<equiv> 54"
abbreviation (input) FRV_MULHSU :: nat where "FRV_MULHSU \<equiv> 55"
abbreviation (input) FRV_MULHU :: nat where "FRV_MULHU \<equiv> 56"
abbreviation (input) FRV_DIV :: nat where "FRV_DIV \<equiv> 57"
abbreviation (input) FRV_DIVU :: nat where "FRV_DIVU \<equiv> 58"
abbreviation (input) FRV_REM :: nat where "FRV_REM \<equiv> 59"
abbreviation (input) FRV_REMU :: nat where "FRV_REMU \<equiv> 60"
abbreviation (input) FRV_MULW :: nat where "FRV_MULW \<equiv> 61"
abbreviation (input) FRV_DIVW :: nat where "FRV_DIVW \<equiv> 62"
abbreviation (input) FRV_DIVUW :: nat where "FRV_DIVUW \<equiv> 63"
abbreviation (input) FRV_REMW :: nat where "FRV_REMW \<equiv> 64"
abbreviation (input) FRV_REMUW :: nat where "FRV_REMUW \<equiv> 65"
abbreviation (input) FRV_LRW :: nat where "FRV_LRW \<equiv> 66"
abbreviation (input) FRV_SCW :: nat where "FRV_SCW \<equiv> 67"
abbreviation (input) FRV_LRD :: nat where "FRV_LRD \<equiv> 68"
abbreviation (input) FRV_SCD :: nat where "FRV_SCD \<equiv> 69"
abbreviation (input) FRV_AMOADDW :: nat where "FRV_AMOADDW \<equiv> 70"
abbreviation (input) FRV_AMOSWAPW :: nat where "FRV_AMOSWAPW \<equiv> 71"
abbreviation (input) FRV_AMOXORW :: nat where "FRV_AMOXORW \<equiv> 72"
abbreviation (input) FRV_AMOORW :: nat where "FRV_AMOORW \<equiv> 73"
abbreviation (input) FRV_AMOANDW :: nat where "FRV_AMOANDW \<equiv> 74"
abbreviation (input) FRV_AMOMINW :: nat where "FRV_AMOMINW \<equiv> 75"
abbreviation (input) FRV_AMOMAXW :: nat where "FRV_AMOMAXW \<equiv> 76"
abbreviation (input) FRV_AMOMINUW :: nat where "FRV_AMOMINUW \<equiv> 77"
abbreviation (input) FRV_AMOMAXUW :: nat where "FRV_AMOMAXUW \<equiv> 78"
abbreviation (input) FRV_AMOADDD :: nat where "FRV_AMOADDD \<equiv> 79"
abbreviation (input) FRV_AMOSWAPD :: nat where "FRV_AMOSWAPD \<equiv> 80"
abbreviation (input) FRV_AMOXORD :: nat where "FRV_AMOXORD \<equiv> 81"
abbreviation (input) FRV_AMOORD :: nat where "FRV_AMOORD \<equiv> 82"
abbreviation (input) FRV_AMOANDD :: nat where "FRV_AMOANDD \<equiv> 83"
abbreviation (input) FRV_AMOMIND :: nat where "FRV_AMOMIND \<equiv> 84"
abbreviation (input) FRV_AMOMAXD :: nat where "FRV_AMOMAXD \<equiv> 85"
abbreviation (input) FRV_AMOMINUD :: nat where "FRV_AMOMINUD \<equiv> 86"
abbreviation (input) FRV_AMOMAXUD :: nat where "FRV_AMOMAXUD \<equiv> 87"
abbreviation (input) FRV_CSRRW :: nat where "FRV_CSRRW \<equiv> 88"
abbreviation (input) FRV_CSRRS :: nat where "FRV_CSRRS \<equiv> 89"
abbreviation (input) FRV_CSRRC :: nat where "FRV_CSRRC \<equiv> 90"
abbreviation (input) FRV_CSRRWI :: nat where "FRV_CSRRWI \<equiv> 91"
abbreviation (input) FRV_CSRRSI :: nat where "FRV_CSRRSI \<equiv> 92"
abbreviation (input) FRV_CSRRCI :: nat where "FRV_CSRRCI \<equiv> 93"
abbreviation (input) FRV_FLW :: nat where "FRV_FLW \<equiv> 94"
abbreviation (input) FRV_FSW :: nat where "FRV_FSW \<equiv> 95"
abbreviation (input) FRV_FMVXW :: nat where "FRV_FMVXW \<equiv> 96"
abbreviation (input) FRV_FMVWX :: nat where "FRV_FMVWX \<equiv> 97"
abbreviation (input) FRV_FCLASSS :: nat where "FRV_FCLASSS \<equiv> 98"
abbreviation (input) FRV_FMADDS :: nat where "FRV_FMADDS \<equiv> 99"
abbreviation (input) FRV_FMSUBS :: nat where "FRV_FMSUBS \<equiv> 100"
abbreviation (input) FRV_FNMSUBS :: nat where "FRV_FNMSUBS \<equiv> 101"
abbreviation (input) FRV_FNMADDS :: nat where "FRV_FNMADDS \<equiv> 102"
abbreviation (input) FRV_FADDS :: nat where "FRV_FADDS \<equiv> 103"
abbreviation (input) FRV_FSUBS :: nat where "FRV_FSUBS \<equiv> 104"
abbreviation (input) FRV_FMULS :: nat where "FRV_FMULS \<equiv> 105"
abbreviation (input) FRV_FDIVS :: nat where "FRV_FDIVS \<equiv> 106"
abbreviation (input) FRV_FSQRTS :: nat where "FRV_FSQRTS \<equiv> 107"
abbreviation (input) FRV_FSGNJS :: nat where "FRV_FSGNJS \<equiv> 108"
abbreviation (input) FRV_FSGNJNS :: nat where "FRV_FSGNJNS \<equiv> 109"
abbreviation (input) FRV_FSGNJXS :: nat where "FRV_FSGNJXS \<equiv> 110"
abbreviation (input) FRV_FMINS :: nat where "FRV_FMINS \<equiv> 111"
abbreviation (input) FRV_FMAXS :: nat where "FRV_FMAXS \<equiv> 112"
abbreviation (input) FRV_FLES :: nat where "FRV_FLES \<equiv> 113"
abbreviation (input) FRV_FLTS :: nat where "FRV_FLTS \<equiv> 114"
abbreviation (input) FRV_FEQS :: nat where "FRV_FEQS \<equiv> 115"
abbreviation (input) FRV_FCVTWS :: nat where "FRV_FCVTWS \<equiv> 116"
abbreviation (input) FRV_FCVTWUS :: nat where "FRV_FCVTWUS \<equiv> 117"
abbreviation (input) FRV_FCVTLS :: nat where "FRV_FCVTLS \<equiv> 118"
abbreviation (input) FRV_FCVTLUS :: nat where "FRV_FCVTLUS \<equiv> 119"
abbreviation (input) FRV_FCVTSW :: nat where "FRV_FCVTSW \<equiv> 120"
abbreviation (input) FRV_FCVTSWU :: nat where "FRV_FCVTSWU \<equiv> 121"
abbreviation (input) FRV_FCVTSL :: nat where "FRV_FCVTSL \<equiv> 122"
abbreviation (input) FRV_FCVTSLU :: nat where "FRV_FCVTSLU \<equiv> 123"
abbreviation (input) FRV_FLD :: nat where "FRV_FLD \<equiv> 124"
abbreviation (input) FRV_FSD :: nat where "FRV_FSD \<equiv> 125"
abbreviation (input) FRV_FMVXD :: nat where "FRV_FMVXD \<equiv> 126"
abbreviation (input) FRV_FMVDX :: nat where "FRV_FMVDX \<equiv> 127"
abbreviation (input) FRV_FCLASSD :: nat where "FRV_FCLASSD \<equiv> 128"
abbreviation (input) FRV_FMADDD :: nat where "FRV_FMADDD \<equiv> 129"
abbreviation (input) FRV_FMSUBD :: nat where "FRV_FMSUBD \<equiv> 130"
abbreviation (input) FRV_FNMSUBD :: nat where "FRV_FNMSUBD \<equiv> 131"
abbreviation (input) FRV_FNMADDD :: nat where "FRV_FNMADDD \<equiv> 132"
abbreviation (input) FRV_FADDD :: nat where "FRV_FADDD \<equiv> 133"
abbreviation (input) FRV_FSUBD :: nat where "FRV_FSUBD \<equiv> 134"
abbreviation (input) FRV_FMULD :: nat where "FRV_FMULD \<equiv> 135"
abbreviation (input) FRV_FDIVD :: nat where "FRV_FDIVD \<equiv> 136"
abbreviation (input) FRV_FSQRTD :: nat where "FRV_FSQRTD \<equiv> 137"
abbreviation (input) FRV_FSGNJD :: nat where "FRV_FSGNJD \<equiv> 138"
abbreviation (input) FRV_FSGNJND :: nat where "FRV_FSGNJND \<equiv> 139"
abbreviation (input) FRV_FSGNJXD :: nat where "FRV_FSGNJXD \<equiv> 140"
abbreviation (input) FRV_FMIND :: nat where "FRV_FMIND \<equiv> 141"
abbreviation (input) FRV_FMAXD :: nat where "FRV_FMAXD \<equiv> 142"
abbreviation (input) FRV_FLED :: nat where "FRV_FLED \<equiv> 143"
abbreviation (input) FRV_FLTD :: nat where "FRV_FLTD \<equiv> 144"
abbreviation (input) FRV_FEQD :: nat where "FRV_FEQD \<equiv> 145"
abbreviation (input) FRV_FCVTSD :: nat where "FRV_FCVTSD \<equiv> 146"
abbreviation (input) FRV_FCVTDS :: nat where "FRV_FCVTDS \<equiv> 147"
abbreviation (input) FRV_FCVTWD :: nat where "FRV_FCVTWD \<equiv> 148"
abbreviation (input) FRV_FCVTWUD :: nat where "FRV_FCVTWUD \<equiv> 149"
abbreviation (input) FRV_FCVTLD :: nat where "FRV_FCVTLD \<equiv> 150"
abbreviation (input) FRV_FCVTLUD :: nat where "FRV_FCVTLUD \<equiv> 151"
abbreviation (input) FRV_FCVTDW :: nat where "FRV_FCVTDW \<equiv> 152"
abbreviation (input) FRV_FCVTDWU :: nat where "FRV_FCVTDWU \<equiv> 153"
abbreviation (input) FRV_FCVTDL :: nat where "FRV_FCVTDL \<equiv> 154"
abbreviation (input) FRV_FCVTDLU :: nat where "FRV_FCVTDLU \<equiv> 155"

subsection \<open>Instructions\<close>

text \<open>The options: the register width.\<close>

abbreviation (input) FRV_RV32 :: u32 where "FRV_RV32 \<equiv> 0"
abbreviation (input) FRV_RV64 :: u32 where "FRV_RV64 \<equiv> 1"
abbreviation (input) FRV_RV128 :: u32 where "FRV_RV128 \<equiv> 2"
abbreviation (input) FRV_RVMSK :: u32 where "FRV_RVMSK \<equiv> 3"
abbreviation (input) FRV_UNDEF :: int where "FRV_UNDEF \<equiv> - 1"
abbreviation (input) FRV_PARTIAL :: int where "FRV_PARTIAL \<equiv> - 2"
abbreviation (input) FRV_REG_INV :: u8 where "FRV_REG_INV \<equiv> 0xff"

text \<open>The immediate is an \<^verbatim>\<open>int32_t\<close>: the word, read by \<open>sint\<close>.\<close>

record frv_inst =
  mnem :: nat
  rd :: u8
  rs1 :: u8
  rs2 :: u8
  rs3 :: u8
  misc :: u8
  imm :: u32

definition UBFX :: "u32 \<Rightarrow> nat \<Rightarrow> nat \<Rightarrow> u32" where
  "UBFX val lo hi = drop_bit lo val AND (push_bit (hi - lo + 1) 1 - 1)"

text \<open>A field moved up by \<open>shl\<close> bits and sign-extended from its top bit, by way of a bit field of a structure.\<close>

definition SBFXIZ :: "u32 \<Rightarrow> nat \<Rightarrow> nat \<Rightarrow> nat \<Rightarrow> u32" where
  "SBFXIZ val lo hi shl = signed_take_bit (hi - lo + shl) (push_bit shl (UBFX val lo hi))"

definition LOAD_LE_2 :: "u8 list \<Rightarrow> u32" where
  "LOAD_LE_2 buf = ucast (buf ! 0) OR push_bit 8 (ucast (buf ! 1))"

definition LOAD_LE_4 :: "u8 list \<Rightarrow> u32" where
  "LOAD_LE_4 buf = LOAD_LE_2 buf OR push_bit 16 (LOAD_LE_2 (drop 2 buf))"

text \<open>An array of mnemonics, with zeros behind the initialisers.\<close>

definition pick :: "nat list \<Rightarrow> u32 \<Rightarrow> nat" where
  "pick ms i = (if unat i < length ms then ms ! unat i else FRV_INVALID)"

subsection \<open>32-bit instructions\<close>

abbreviation (input) ENC_F_RD :: u32 where "ENC_F_RD \<equiv> 1"
abbreviation (input) ENC_F_RS1 :: u32 where "ENC_F_RS1 \<equiv> 2"
abbreviation (input) ENC_F_RS2 :: u32 where "ENC_F_RS2 \<equiv> 4"
abbreviation (input) ENC_F_RS3 :: u32 where "ENC_F_RS3 \<equiv> 8"
abbreviation (input) ENC_F_IMM_MASK :: u32 where "ENC_F_IMM_MASK \<equiv> 0x70"
abbreviation (input) ENC_F_IMM_U :: u32 where "ENC_F_IMM_U \<equiv> 0x10"
abbreviation (input) ENC_F_IMM_I :: u32 where "ENC_F_IMM_I \<equiv> 0x20"
abbreviation (input) ENC_F_IMM_S :: u32 where "ENC_F_IMM_S \<equiv> 0x30"
abbreviation (input) ENC_F_IMM_J :: u32 where "ENC_F_IMM_J \<equiv> 0x40"
abbreviation (input) ENC_F_IMM_B :: u32 where "ENC_F_IMM_B \<equiv> 0x50"
abbreviation (input) ENC_F_IMM_SHAMT :: u32 where "ENC_F_IMM_SHAMT \<equiv> 0x60"
abbreviation (input) ENC_F_IMM_AMO :: u32 where "ENC_F_IMM_AMO \<equiv> 0x70"
abbreviation (input) ENC_F_RM :: u32 where "ENC_F_RM \<equiv> 0x80"
abbreviation (input) ENC_R :: u32 where "ENC_R \<equiv> 0x07"
abbreviation (input) ENC_R2 :: u32 where "ENC_R2 \<equiv> 0x03"
abbreviation (input) ENC_R4 :: u32 where "ENC_R4 \<equiv> 0x0f"
abbreviation (input) ENC_I :: u32 where "ENC_I \<equiv> 0x23"
abbreviation (input) ENC_I_SHAMT :: u32 where "ENC_I_SHAMT \<equiv> 0x63"
abbreviation (input) ENC_S :: u32 where "ENC_S \<equiv> 0x36"
abbreviation (input) ENC_B :: u32 where "ENC_B \<equiv> 0x56"
abbreviation (input) ENC_U :: u32 where "ENC_U \<equiv> 0x11"
abbreviation (input) ENC_J :: u32 where "ENC_J \<equiv> 0x41"
abbreviation (input) ENC_R_AMO :: u32 where "ENC_R_AMO \<equiv> 0x77"
abbreviation (input) ENC_R_RM :: u32 where "ENC_R_RM \<equiv> 0x87"
abbreviation (input) ENC_R2_RM :: u32 where "ENC_R2_RM \<equiv> 0x83"
abbreviation (input) ENC_R4_RM :: u32 where "ENC_R4_RM \<equiv> 0x8f"

text \<open>
  The encoding and the mnemonic of an opcode; \<open>None\<close> is the return in the middle of the switch. The switches
  over \<^verbatim>\<open>funct3\<close> and \<^verbatim>\<open>funct7\<close> of the larger opcodes are definitions of their own.
\<close>

definition opimm_op :: "u32 \<Rightarrow> u32 \<Rightarrow> u32 \<times> nat" where
  "opimm_op funct3 funct7 =
     (if funct3 = 0 then (ENC_I, FRV_ADDI)
      else if funct3 = 1 then (ENC_I_SHAMT, FRV_SLLI)
      else if funct3 = 2 then (ENC_I, FRV_SLTI)
      else if funct3 = 3 then (ENC_I, FRV_SLTIU)
      else if funct3 = 4 then (ENC_I, FRV_XORI)
      else if funct3 = 5 then (ENC_I_SHAMT, if funct7 AND 0x20 \<noteq> 0 then FRV_SRAI else FRV_SRLI)
      else if funct3 = 6 then (ENC_I, FRV_ORI)
      else if funct3 = 7 then (ENC_I, FRV_ANDI)
      else (0, 0))"

definition opimm32_op :: "u32 \<Rightarrow> u32 \<Rightarrow> (u32 \<times> nat) option" where
  "opimm32_op funct3 funct7 =
     (if funct3 = 0 then Some (ENC_I, FRV_ADDIW)
      else if funct3 = 1 then Some (ENC_I_SHAMT, FRV_SLLIW)
      else if funct3 = 5 then Some (ENC_I_SHAMT, if funct7 AND 0x20 \<noteq> 0 then FRV_SRAIW else FRV_SRLIW)
      else None)"

definition amo_op :: "u32 \<Rightarrow> u32 \<Rightarrow> nat option" where
  "amo_op funct3 funct7 =
     (let f = drop_bit 2 funct7 in
      if f = 0x00 then Some (pick [0, 0, FRV_AMOADDW, FRV_AMOADDD, 0, 0, 0, 0] funct3)
      else if f = 0x01 then Some (pick [0, 0, FRV_AMOSWAPW, FRV_AMOSWAPD, 0, 0, 0, 0] funct3)
      else if f = 0x02 then Some (pick [0, 0, FRV_LRW, FRV_LRD, 0, 0, 0, 0] funct3)
      else if f = 0x03 then Some (pick [0, 0, FRV_SCW, FRV_SCD, 0, 0, 0, 0] funct3)
      else if f = 0x04 then Some (pick [0, 0, FRV_AMOXORW, FRV_AMOXORD, 0, 0, 0, 0] funct3)
      else if f = 0x08 then Some (pick [0, 0, FRV_AMOORW, FRV_AMOORD, 0, 0, 0, 0] funct3)
      else if f = 0x0c then Some (pick [0, 0, FRV_AMOANDW, FRV_AMOANDD, 0, 0, 0, 0] funct3)
      else if f = 0x10 then Some (pick [0, 0, FRV_AMOMINW, FRV_AMOMIND, 0, 0, 0, 0] funct3)
      else if f = 0x14 then Some (pick [0, 0, FRV_AMOMAXW, FRV_AMOMAXD, 0, 0, 0, 0] funct3)
      else if f = 0x18 then Some (pick [0, 0, FRV_AMOMINUW, FRV_AMOMINUD, 0, 0, 0, 0] funct3)
      else if f = 0x1c then Some (pick [0, 0, FRV_AMOMAXUW, FRV_AMOMAXUD, 0, 0, 0, 0] funct3)
      else None)"

definition op_op :: "u32 \<Rightarrow> u32 \<Rightarrow> nat option" where
  "op_op funct3 funct7 =
     (if funct7 = 0x00 then Some (pick [FRV_ADD, FRV_SLL, FRV_SLT, FRV_SLTU, FRV_XOR, FRV_SRL, FRV_OR, FRV_AND] funct3)
      else if funct7 = 0x01 then
        Some (pick [FRV_MUL, FRV_MULH, FRV_MULHSU, FRV_MULHU, FRV_DIV, FRV_DIVU, FRV_REM, FRV_REMU] funct3)
      else if funct7 = 0x20 then Some (pick [FRV_SUB, 0, 0, 0, 0, FRV_SRA, 0, 0] funct3)
      else None)"

definition op32_op :: "u32 \<Rightarrow> u32 \<Rightarrow> nat option" where
  "op32_op funct3 funct7 =
     (if funct7 = 0x00 then Some (pick [FRV_ADDW, FRV_SLLW, 0, 0, 0, FRV_SRLW, 0, 0] funct3)
      else if funct7 = 0x01 then Some (pick [FRV_MULW, 0, 0, 0, FRV_DIVW, FRV_DIVUW, FRV_REMW, FRV_REMUW] funct3)
      else if funct7 = 0x20 then Some (pick [FRV_SUBW, 0, 0, 0, 0, FRV_SRAW, 0, 0] funct3)
      else None)"

definition fp_op :: "u32 \<Rightarrow> u32 \<Rightarrow> u32 \<Rightarrow> (u32 \<times> nat) option" where
  "fp_op rs2f funct3 funct7 =
     (if funct7 = 0x00 then Some (ENC_R_RM, FRV_FADDS)
      else if funct7 = 0x01 then Some (ENC_R_RM, FRV_FADDD)
      else if funct7 = 0x04 then Some (ENC_R_RM, FRV_FSUBS)
      else if funct7 = 0x05 then Some (ENC_R_RM, FRV_FSUBD)
      else if funct7 = 0x08 then Some (ENC_R_RM, FRV_FMULS)
      else if funct7 = 0x09 then Some (ENC_R_RM, FRV_FMULD)
      else if funct7 = 0x0c then Some (ENC_R_RM, FRV_FDIVS)
      else if funct7 = 0x0d then Some (ENC_R_RM, FRV_FDIVD)
      else if funct7 = 0x20 then Some (ENC_R2_RM, pick [0, FRV_FCVTSD] rs2f)
      else if funct7 = 0x21 then Some (ENC_R2_RM, pick [FRV_FCVTDS] rs2f)
      else if funct7 = 0x2c then Some (ENC_R2_RM, FRV_FSQRTS)
      else if funct7 = 0x2d then Some (ENC_R2_RM, FRV_FSQRTD)
      else if funct7 = 0x10 then Some (ENC_R, pick [FRV_FSGNJS, FRV_FSGNJNS, FRV_FSGNJXS, 0, 0, 0, 0, 0] funct3)
      else if funct7 = 0x11 then Some (ENC_R, pick [FRV_FSGNJD, FRV_FSGNJND, FRV_FSGNJXD, 0, 0, 0, 0, 0] funct3)
      else if funct7 = 0x14 then Some (ENC_R, pick [FRV_FMINS, FRV_FMAXS, 0, 0, 0, 0, 0, 0] funct3)
      else if funct7 = 0x15 then Some (ENC_R, pick [FRV_FMIND, FRV_FMAXD, 0, 0, 0, 0, 0, 0] funct3)
      else if funct7 = 0x50 then Some (ENC_R, pick [FRV_FLES, FRV_FLTS, FRV_FEQS, 0, 0, 0, 0, 0] funct3)
      else if funct7 = 0x51 then Some (ENC_R, pick [FRV_FLED, FRV_FLTD, FRV_FEQD, 0, 0, 0, 0, 0] funct3)
      else if funct7 = 0x60 then Some (ENC_R2_RM, pick [FRV_FCVTWS, FRV_FCVTWUS, FRV_FCVTLS, FRV_FCVTLUS] rs2f)
      else if funct7 = 0x61 then Some (ENC_R2_RM, pick [FRV_FCVTWD, FRV_FCVTWUD, FRV_FCVTLD, FRV_FCVTLUD] rs2f)
      else if funct7 = 0x68 then Some (ENC_R2_RM, pick [FRV_FCVTSW, FRV_FCVTSWU, FRV_FCVTSL, FRV_FCVTSLU] rs2f)
      else if funct7 = 0x69 then Some (ENC_R2_RM, pick [FRV_FCVTDW, FRV_FCVTDWU, FRV_FCVTDL, FRV_FCVTDLU] rs2f)
      else if funct7 = 0x70 then Some (ENC_R2, pick [FRV_FMVXW, FRV_FCLASSS, 0, 0, 0, 0, 0, 0] funct3)
      else if funct7 = 0x71 then Some (ENC_R2, pick [FRV_FMVXD, FRV_FCLASSD, 0, 0, 0, 0, 0, 0] funct3)
      else if funct7 = 0x78 then Some (ENC_R2, pick [FRV_FMVWX, 0, 0, 0, 0, 0, 0, 0] funct3)
      else if funct7 = 0x79 then Some (ENC_R2, pick [FRV_FMVDX, 0, 0, 0, 0, 0, 0, 0] funct3)
      else None)"

definition decode_op :: "u32 \<Rightarrow> (u32 \<times> nat) option" where
  "decode_op inst =
     (let opcode = UBFX inst 2 6; funct3 = UBFX inst 12 14; funct7 = UBFX inst 25 31 in
      if opcode = 0x00 then
        Some (ENC_I, pick [FRV_LB, FRV_LH, FRV_LW, FRV_LD, FRV_LBU, FRV_LHU, FRV_LWU, 0] funct3)
      else if opcode = 0x01 then Some (ENC_I, pick [0, 0, FRV_FLW, FRV_FLD, 0, 0, 0, 0] funct3)
      else if opcode = 0x03 then Some (ENC_I, pick [FRV_FENCE, FRV_FENCEI, 0, 0, 0, 0, 0, 0] funct3)
      else if opcode = 0x04 then Some (opimm_op funct3 funct7)
      else if opcode = 0x05 then Some (ENC_U, FRV_AUIPC)
      else if opcode = 0x06 then opimm32_op funct3 funct7
      else if opcode = 0x08 then Some (ENC_S, pick [FRV_SB, FRV_SH, FRV_SW, FRV_SD, 0, 0, 0, 0] funct3)
      else if opcode = 0x09 then Some (ENC_S, pick [0, 0, FRV_FSW, FRV_FSD, 0, 0, 0, 0] funct3)
      else if opcode = 0x0b then map_option (Pair ENC_R_AMO) (amo_op funct3 funct7)
      else if opcode = 0x0c then map_option (Pair ENC_R) (op_op funct3 funct7)
      else if opcode = 0x0d then Some (ENC_U, FRV_LUI)
      else if opcode = 0x0e then map_option (Pair ENC_R) (op32_op funct3 funct7)
      else if opcode = 0x10 then Some (ENC_R4_RM, pick [FRV_FMADDS, FRV_FMADDD] (UBFX inst 25 26))
      else if opcode = 0x11 then Some (ENC_R4_RM, pick [FRV_FMSUBS, FRV_FMSUBD] (UBFX inst 25 26))
      else if opcode = 0x12 then Some (ENC_R4_RM, pick [FRV_FNMSUBS, FRV_FNMSUBD] (UBFX inst 25 26))
      else if opcode = 0x13 then Some (ENC_R4_RM, pick [FRV_FNMADDS, FRV_FNMADDD] (UBFX inst 25 26))
      else if opcode = 0x14 then fp_op (UBFX inst 20 24) funct3 funct7
      else if opcode = 0x18 then
        Some (ENC_B, pick [FRV_BEQ, FRV_BNE, 0, 0, FRV_BLT, FRV_BGE, FRV_BLTU, FRV_BGEU] funct3)
      else if opcode = 0x19 then Some (ENC_I, FRV_JALR)
      else if opcode = 0x1b then Some (ENC_J, FRV_JAL)
      else if opcode = 0x1c then
        Some (ENC_I, pick [FRV_ECALL, FRV_CSRRW, FRV_CSRRS, FRV_CSRRC, 0, FRV_CSRRWI, FRV_CSRRSI, FRV_CSRRCI] funct3)
      else Some (0, 0))"

definition imm4 :: "u32 \<Rightarrow> u32 \<Rightarrow> u32" where
  "imm4 encoding inst =
     (let k = encoding AND ENC_F_IMM_MASK in
      if k = ENC_F_IMM_U then push_bit 12 (UBFX inst 12 31)
      else if k = ENC_F_IMM_I then signed_drop_bit 20 inst
      else if k = ENC_F_IMM_S then (signed_drop_bit 20 inst AND NOT 0x1f) OR UBFX inst 7 11
      else if k = ENC_F_IMM_J then
        (inst AND 0xff000) OR (drop_bit (20 - 11) inst AND push_bit 11 1) OR (drop_bit 11 inst AND push_bit 20 1)
          OR (signed_drop_bit (30 - 10) inst AND 0xffe007fe)
      else if k = ENC_F_IMM_B then
        (signed_drop_bit (31 - 12) inst AND 0xfffff000) OR (push_bit (11 - 7) inst AND push_bit 11 1)
          OR (drop_bit (30 - 10) inst AND 0x7e0) OR (drop_bit (11 - 4) inst AND 0x1e)
      else if k = ENC_F_IMM_SHAMT then UBFX inst 20 25
      else if k = ENC_F_IMM_AMO then UBFX inst 25 26
      else 0)"

definition reg_if :: "u32 \<Rightarrow> u32 \<Rightarrow> u32 \<Rightarrow> u8" where
  "reg_if encoding flag field = (if encoding AND flag \<noteq> 0 then ucast field else FRV_REG_INV)"

definition frv_decode4 :: "u32 \<Rightarrow> frv_inst \<Rightarrow> int \<times> frv_inst" where
  "frv_decode4 inst fi =
     (case decode_op inst of
        None \<Rightarrow> (FRV_UNDEF, fi)
      | Some (encoding, m) \<Rightarrow>
          if m = 0 then (FRV_UNDEF, fi)
          else
            (4, \<lparr>mnem = m, rd = reg_if encoding ENC_F_RD (UBFX inst 7 11),
                 rs1 = reg_if encoding ENC_F_RS1 (UBFX inst 15 19), rs2 = reg_if encoding ENC_F_RS2 (UBFX inst 20 24),
                 rs3 = reg_if encoding ENC_F_RS3 (UBFX inst 27 31),
                 misc = (if encoding AND ENC_F_RM \<noteq> 0 then ucast (UBFX inst 12 14) else misc fi),
                 imm = imm4 encoding inst\<rparr>))"

subsection \<open>Compressed instructions\<close>

datatype imm_enc =
    ENC_I_NONE | ENC_U_53_76 | ENC_U_53_26 | ENC_U_5_42_76 | ENC_U_5_43_86 | ENC_U_52_76 | ENC_U_53_86
  | ENC_I_5_40 | ENC_I_11_4_98_10_6_7_31_5 | ENC_I_8_43_76_21_5 | ENC_I_EBREAK
  | ENC_NZU_54_96_2_3 | ENC_NZI_5_40 | ENC_NZU_5_40 | ENC_NZI_9_4_6_87_5 | ENC_NZI_17_1612

text \<open>\<open>imm_enc \<ge> ENC_NZ_START\<close>: the immediate must not be zero.\<close>

definition imm_nonzero :: "imm_enc \<Rightarrow> bool" where
  "imm_nonzero e \<longleftrightarrow>
     e \<in> {ENC_NZU_54_96_2_3, ENC_NZI_5_40, ENC_NZU_5_40, ENC_NZI_9_4_6_87_5, ENC_NZI_17_1612}"

text \<open>
  What the switch leaves in \<^verbatim>\<open>mnem\<close>, \<^verbatim>\<open>rd\<close>, \<^verbatim>\<open>rs1\<close>, \<^verbatim>\<open>rs2\<close> and \<^verbatim>\<open>imm_enc\<close>, or \<open>None\<close> for a return in the middle.
\<close>

type_synonym rvc_fields = "nat \<times> u8 \<times> u8 \<times> u8 \<times> imm_enc"

abbreviation (input) nothing :: rvc_fields where "nothing \<equiv> (0, FRV_REG_INV, FRV_REG_INV, FRV_REG_INV, ENC_I_NONE)"

text \<open>The quadrants 0, 1 and 2 of the opcode.\<close>

definition rvc_q0 :: "u32 \<Rightarrow> u32 \<Rightarrow> rvc_fields option" where
  "rvc_q0 inst opt =
     (let rs2c = ucast (UBFX inst 2 4 + 8); rs1c = ucast (UBFX inst 7 9 + 8); w = opt AND FRV_RVMSK;
          f = inst AND 0xe003; no = FRV_REG_INV
      in
      if f = 0x0000 then Some (FRV_ADDI, rs2c, 2, no, ENC_NZU_54_96_2_3)
      else if f = 0x2000 then if w = FRV_RV128 then None else Some (FRV_FLD, rs2c, rs1c, no, ENC_U_53_76)
      else if f = 0x4000 then Some (FRV_LW, rs2c, rs1c, no, ENC_U_53_26)
      else if f = 0x6000 then
        if w = FRV_RV32 then Some (FRV_FLW, rs2c, rs1c, no, ENC_U_53_26)
        else Some (FRV_LD, rs2c, rs1c, no, ENC_U_53_76)
      else if f = 0xa000 then
        if w \<noteq> FRV_RV128 then Some (FRV_FSD, no, rs1c, rs2c, ENC_U_53_76) else Some nothing
      else if f = 0xc000 then Some (FRV_SW, no, rs1c, rs2c, ENC_U_53_26)
      else if f = 0xe000 then
        if w = FRV_RV32 then Some (FRV_FSW, no, rs1c, rs2c, ENC_U_53_26)
        else Some (FRV_SD, no, rs1c, rs2c, ENC_U_53_76)
      else Some nothing)"

definition rvc_alu :: "u32 \<Rightarrow> rvc_fields" where
  "rvc_alu inst =
     (let rs2c = ucast (UBFX inst 2 4 + 8); rs1c = ucast (UBFX inst 7 9 + 8); f = UBFX inst 10 11; no = FRV_REG_INV in
      if f = 0 then (FRV_SRLI, rs1c, rs1c, no, ENC_NZU_5_40)
      else if f = 1 then (FRV_SRAI, rs1c, rs1c, no, ENC_NZU_5_40)
      else if f = 2 then (FRV_ANDI, rs1c, rs1c, no, ENC_I_5_40)
      else if f = 3 then
        (pick [FRV_SUB, FRV_XOR, FRV_OR, FRV_AND, FRV_SUBW, FRV_ADDW] (UBFX inst 5 6 OR push_bit 2 (UBFX inst 12 12)),
         rs1c, rs1c, rs2c, ENC_I_NONE)
      else nothing)"

definition rvc_q1 :: "u32 \<Rightarrow> u32 \<Rightarrow> rvc_fields option" where
  "rvc_q1 inst opt =
     (let rs1f = ucast (UBFX inst 7 11); rs1c = ucast (UBFX inst 7 9 + 8); w = opt AND FRV_RVMSK;
          f = inst AND 0xe003; no = FRV_REG_INV
      in
      if f = 0x0001 then Some (FRV_ADDI, rs1f, rs1f, no, ENC_NZI_5_40)
      else if f = 0x2001 then
        if w = FRV_RV32 then Some (FRV_JAL, 1, no, no, ENC_I_11_4_98_10_6_7_31_5)
        else if rs1f = 0 then None else Some (FRV_ADDIW, rs1f, rs1f, no, ENC_I_5_40)
      else if f = 0x4001 then if rs1f = 0 then None else Some (FRV_ADDI, rs1f, 0, no, ENC_I_5_40)
      else if f = 0x6001 then
        if rs1f = 0 then None
        else if rs1f = 2 then Some (FRV_ADDI, rs1f, rs1f, no, ENC_NZI_9_4_6_87_5)
        else Some (FRV_LUI, rs1f, no, no, ENC_NZI_17_1612)
      else if f = 0x8001 then Some (rvc_alu inst)
      else if f = 0xa001 then Some (FRV_JAL, 0, no, no, ENC_I_11_4_98_10_6_7_31_5)
      else if f = 0xc001 then Some (FRV_BEQ, no, rs1c, 0, ENC_I_8_43_76_21_5)
      else if f = 0xe001 then Some (FRV_BNE, no, rs1c, 0, ENC_I_8_43_76_21_5)
      else Some nothing)"

definition rvc_q2 :: "u32 \<Rightarrow> u32 \<Rightarrow> rvc_fields option" where
  "rvc_q2 inst opt =
     (let rs2f = ucast (UBFX inst 2 6); rs1f = ucast (UBFX inst 7 11); w = opt AND FRV_RVMSK;
          f = inst AND 0xe003; no = FRV_REG_INV
      in
      if f = 0x0002 then Some (FRV_SLLI, rs1f, rs1f, no, ENC_NZU_5_40)
      else if f = 0x2002 then
        if w \<noteq> FRV_RV128 then Some (FRV_FLD, rs1f, 2, no, ENC_U_5_43_86) else Some nothing
      else if f = 0x4002 then Some (FRV_LW, rs1f, 2, no, ENC_U_5_42_76)
      else if f = 0x6002 then
        if w = FRV_RV32 then Some (FRV_FLW, rs1f, 2, no, ENC_U_5_42_76)
        else Some (FRV_LD, rs1f, 2, no, ENC_U_5_43_86)
      else if f = 0x8002 then
        if inst AND 0x1000 = 0 then
          if rs1f = 0 then None
          else if rs2f = 0 then Some (FRV_JALR, 0, rs1f, no, ENC_I_NONE)
          else Some (FRV_ADD, rs1f, 0, rs2f, ENC_I_NONE)
        else if rs1f = 0 then Some (FRV_ECALL, no, no, no, ENC_I_EBREAK)
        else if rs2f = 0 then Some (FRV_JALR, 1, rs1f, no, ENC_I_NONE)
        else Some (FRV_ADD, rs1f, rs1f, rs2f, ENC_I_NONE)
      else if f = 0xa002 then
        if w \<noteq> FRV_RV128 then Some (FRV_FSD, no, 2, rs2f, ENC_U_53_86) else Some nothing
      else if f = 0xc002 then Some (FRV_SW, no, 2, rs2f, ENC_U_52_76)
      else if f = 0xe002 then
        if w = FRV_RV32 then Some (FRV_FSW, no, 2, rs2f, ENC_U_52_76)
        else Some (FRV_SD, no, 2, rs2f, ENC_U_53_86)
      else Some nothing)"

text \<open>The cases of the switch are disjoint, so it may be entered by quadrant.\<close>

definition rvc_op :: "u32 \<Rightarrow> u32 \<Rightarrow> rvc_fields option" where
  "rvc_op inst opt =
     (if inst AND 3 = 0 then rvc_q0 inst opt else if inst AND 3 = 1 then rvc_q1 inst opt
      else if inst AND 3 = 2 then rvc_q2 inst opt else Some nothing)"

fun imm2 :: "imm_enc \<Rightarrow> u32 \<Rightarrow> u32" where
  "imm2 ENC_I_NONE inst = 0"
| "imm2 ENC_I_EBREAK inst = 1"
| "imm2 ENC_I_5_40 inst = SBFXIZ inst 12 12 5 OR UBFX inst 2 6"
| "imm2 ENC_NZI_9_4_6_87_5 inst =
     SBFXIZ inst 12 12 9 OR push_bit 7 (UBFX inst 3 4) OR push_bit 6 (UBFX inst 5 5)
       OR push_bit 5 (UBFX inst 2 2) OR push_bit 4 (UBFX inst 6 6)"
| "imm2 ENC_NZU_54_96_2_3 inst =
     push_bit 6 (UBFX inst 7 10) OR push_bit 4 (UBFX inst 11 12) OR push_bit 3 (UBFX inst 5 5)
       OR push_bit 2 (UBFX inst 6 6)"
| "imm2 ENC_U_53_76 inst = push_bit 6 (UBFX inst 5 6) OR push_bit 3 (UBFX inst 10 12)"
| "imm2 ENC_U_53_26 inst =
     push_bit 6 (UBFX inst 5 5) OR push_bit 3 (UBFX inst 10 12) OR push_bit 2 (UBFX inst 6 6)"
| "imm2 ENC_U_5_43_86 inst =
     push_bit 6 (UBFX inst 2 4) OR push_bit 5 (UBFX inst 12 12) OR push_bit 3 (UBFX inst 5 6)"
| "imm2 ENC_U_5_42_76 inst =
     push_bit 6 (UBFX inst 2 3) OR push_bit 5 (UBFX inst 12 12) OR push_bit 2 (UBFX inst 4 6)"
| "imm2 ENC_U_52_76 inst = push_bit 6 (UBFX inst 7 8) OR push_bit 2 (UBFX inst 9 12)"
| "imm2 ENC_U_53_86 inst = push_bit 6 (UBFX inst 7 9) OR push_bit 3 (UBFX inst 10 12)"
| "imm2 ENC_NZU_5_40 inst = push_bit 5 (UBFX inst 12 12) OR UBFX inst 2 6"
| "imm2 ENC_NZI_5_40 inst = SBFXIZ inst 12 12 5 OR UBFX inst 2 6"
| "imm2 ENC_I_8_43_76_21_5 inst =
     SBFXIZ inst 12 12 8 OR push_bit 6 (UBFX inst 5 6) OR push_bit 5 (UBFX inst 2 2)
       OR push_bit 3 (UBFX inst 10 11) OR push_bit 1 (UBFX inst 3 4)"
| "imm2 ENC_I_11_4_98_10_6_7_31_5 inst =
     SBFXIZ inst 12 12 11 OR push_bit 10 (UBFX inst 8 8) OR push_bit 8 (UBFX inst 9 10)
       OR push_bit 7 (UBFX inst 6 6) OR push_bit 6 (UBFX inst 7 7) OR push_bit 5 (UBFX inst 2 2)
       OR push_bit 4 (UBFX inst 11 11) OR push_bit 1 (UBFX inst 3 5)"
| "imm2 ENC_NZI_17_1612 inst = SBFXIZ inst 12 12 17 OR push_bit 12 (UBFX inst 2 6)"

text \<open>The fields are stored before the last check, so a rejected instruction has changed them.\<close>

definition frv_decode2 :: "u16 \<Rightarrow> u32 \<Rightarrow> frv_inst \<Rightarrow> int \<times> frv_inst" where
  "frv_decode2 half opt fi =
     (let inst = ucast half in
      case rvc_op inst opt of
        None \<Rightarrow> (FRV_UNDEF, fi)
      | Some (m, d, s1, s2, enc) \<Rightarrow>
          if m = 0 then (FRV_UNDEF, fi)
          else
            let fi1 = fi\<lparr>mnem := m, rd := d, rs1 := s1, rs2 := s2, rs3 := FRV_REG_INV, imm := imm2 enc inst\<rparr> in
            if imm_nonzero enc \<and> imm fi1 = 0 \<and> (rd fi1 \<noteq> 0 \<or> mnem fi1 \<noteq> FRV_ADDI) then (FRV_UNDEF, fi1)
            else (2, fi1))"

definition frv_decode :: "u8 list \<Rightarrow> u32 \<Rightarrow> frv_inst \<Rightarrow> int \<times> frv_inst" where
  "frv_decode buf opt fi =
     (if length buf < 2 then (FRV_PARTIAL, fi)
      else if buf ! 0 AND 3 \<noteq> 3 then frv_decode2 (ucast (LOAD_LE_2 buf)) opt fi
      else if buf ! 0 AND 0x1c \<noteq> 0x1c then
        if length buf < 4 then (FRV_PARTIAL, fi) else frv_decode4 (LOAD_LE_4 buf) fi
      else (FRV_UNDEF, fi))"

subsection \<open>Formatting\<close>

text \<open>
  \<^verbatim>\<open>strlcat\<close> on the array that begins at \<open>dst\<close>: the skipped part, the copied part, the terminator.
\<close>

fun strlcpy_at :: "string \<Rightarrow> string \<Rightarrow> nat \<Rightarrow> string" where
  "strlcpy_at dst src n =
     (if deref src \<noteq> NUL \<and> n > 1 then
        deref src # (case src of [] \<Rightarrow> tl dst | c # src' \<Rightarrow> strlcpy_at (tl dst) src' (n - 1))
      else if n \<noteq> 0 then NUL # tl dst else dst)"

fun strlcat :: "string \<Rightarrow> string \<Rightarrow> nat \<Rightarrow> string" where
  "strlcat [] src n = strlcpy_at [] src n"
| "strlcat (c # dst) src n =
     (if c \<noteq> NUL \<and> n \<noteq> 0 then c # strlcat dst src (n - 1) else strlcpy_at (c # dst) src n)"

text \<open>The digits of a number that is not positive, with C's division.\<close>

function frv_digits :: "int \<Rightarrow> string \<Rightarrow> string" where
  "frv_digits absneg acc =
     (let acc1 = char_of (nat (48 - absneg smod 10)) # acc; q = absneg sdiv 10 in
      if q \<noteq> 0 then frv_digits q acc1 else acc1)"
  by pat_completeness auto
termination
proof (relation "measure (\<lambda>(a, acc). nat \<bar>a\<bar>)", simp, goal_cases)
  case (1 absneg acc acc1 q)
  then have "\<bar>absneg\<bar> div 10 \<noteq> 0" by (auto simp: signed_divide_int_def sgn_if split: if_splits)
  then have "\<bar>absneg\<bar> div 10 < \<bar>absneg\<bar>" by simp
  with 1 show ?case by (auto simp: signed_divide_int_def abs_mult abs_sgn_eq)
qed

declare frv_digits.simps [simp del]

definition frv_format_int :: "int \<Rightarrow> string" where
  "frv_format_int val =
     (let absneg = (if val < 0 then val else - val); ds = frv_digits absneg [] in
      if val < 0 then CHR ''-'' # ds else ds)"

definition mnem_str :: "(nat \<times> string) list" where
  "mnem_str = [
    (FRV_LB, ''lb''), (FRV_LH, ''lh''), (FRV_LW, ''lw''), (FRV_LD, ''ld''), (FRV_LBU, ''lbu''),
    (FRV_LHU, ''lhu''), (FRV_LWU, ''lwu''), (FRV_SB, ''sb''), (FRV_SH, ''sh''), (FRV_SW, ''sw''),
    (FRV_SD, ''sd''), (FRV_ADDI, ''addi''), (FRV_SLLI, ''slli''), (FRV_SLTI, ''slti''),
    (FRV_SLTIU, ''sltiu''), (FRV_XORI, ''xori''), (FRV_SRAI, ''srai''), (FRV_SRLI, ''srli''),
    (FRV_ORI, ''ori''), (FRV_ANDI, ''andi''), (FRV_ADD, ''add''), (FRV_SLL, ''sll''), (FRV_SLT, ''slt''),
    (FRV_SLTU, ''sltu''), (FRV_XOR, ''xor''), (FRV_SRL, ''srl''), (FRV_OR, ''or''), (FRV_AND, ''and''),
    (FRV_SUB, ''sub''), (FRV_SRA, ''sra''), (FRV_FENCE, ''fence''), (FRV_FENCEI, ''fencei''),
    (FRV_AUIPC, ''auipc''), (FRV_LUI, ''lui''), (FRV_JAL, ''jal''), (FRV_JALR, ''jalr''), (FRV_BEQ, ''beq''),
    (FRV_BNE, ''bne''), (FRV_BLT, ''blt''), (FRV_BGE, ''bge''), (FRV_BLTU, ''bltu''), (FRV_BGEU, ''bgeu''),
    (FRV_ECALL, ''ecall''), (FRV_ADDIW, ''addiw''), (FRV_SLLIW, ''slliw''), (FRV_SRAIW, ''sraiw''),
    (FRV_SRLIW, ''srliw''), (FRV_ADDW, ''addw''), (FRV_SLLW, ''sllw''), (FRV_SRLW, ''srlw''),
    (FRV_SUBW, ''subw''), (FRV_SRAW, ''sraw''), (FRV_MUL, ''mul''), (FRV_MULH, ''mulh''),
    (FRV_MULHSU, ''mulhsu''), (FRV_MULHU, ''mulhu''), (FRV_DIV, ''div''), (FRV_DIVU, ''divu''),
    (FRV_REM, ''rem''), (FRV_REMU, ''remu''), (FRV_MULW, ''mulw''), (FRV_DIVW, ''divw''),
    (FRV_DIVUW, ''divuw''), (FRV_REMW, ''remw''), (FRV_REMUW, ''remuw''), (FRV_LRW, ''lr.w''),
    (FRV_SCW, ''sc.w''), (FRV_LRD, ''lr.d''), (FRV_SCD, ''sc.d''), (FRV_AMOADDW, ''amoadd.w''),
    (FRV_AMOADDD, ''amoadd.d''), (FRV_AMOSWAPW, ''amoswap.w''), (FRV_AMOSWAPD, ''amoswap.d''),
    (FRV_AMOXORW, ''amoxor.w''), (FRV_AMOXORD, ''amoxor.d''), (FRV_AMOORW, ''amoor.w''),
    (FRV_AMOORD, ''amoor.d''), (FRV_AMOANDW, ''amoand.w''), (FRV_AMOANDD, ''amoand.d''),
    (FRV_AMOMINW, ''amomin.w''), (FRV_AMOMIND, ''amomin.d''), (FRV_AMOMAXW, ''amomax.w''),
    (FRV_AMOMAXD, ''amomax.d''), (FRV_AMOMINUW, ''amominu.w''), (FRV_AMOMINUD, ''amominu.d''),
    (FRV_AMOMAXUW, ''amomaxu.w''), (FRV_AMOMAXUD, ''amomaxu.d''), (FRV_CSRRW, ''csrrw''),
    (FRV_CSRRWI, ''csrrwi''), (FRV_CSRRS, ''csrrs''), (FRV_CSRRSI, ''csrrsi''), (FRV_CSRRC, ''csrrc''),
    (FRV_CSRRCI, ''csrrci''), (FRV_FLW, ''flw''), (FRV_FSW, ''fsw''), (FRV_FMVXW, ''fmv.x.w''),
    (FRV_FMVWX, ''fmv.w.x''), (FRV_FCLASSS, ''fclass.s''), (FRV_FMADDS, ''fmadd.s''),
    (FRV_FMSUBS, ''fmsub.s''), (FRV_FNMSUBS, ''fnmsub.s''), (FRV_FNMADDS, ''fnmadd.s''),
    (FRV_FADDS, ''fadd.s''), (FRV_FSUBS, ''fsub.s''), (FRV_FMULS, ''fmul.s''), (FRV_FDIVS, ''fdiv.s''),
    (FRV_FSQRTS, ''fsqrt.s''), (FRV_FSGNJS, ''fsgnj.s''), (FRV_FSGNJNS, ''fsgnjn.s''),
    (FRV_FSGNJXS, ''fsgnjx.s''), (FRV_FMINS, ''fmin.s''), (FRV_FMAXS, ''fmax.s''), (FRV_FLES, ''fle.s''),
    (FRV_FLTS, ''flt.s''), (FRV_FEQS, ''feq.s''), (FRV_FCVTWS, ''fcvt.w.s''), (FRV_FCVTWUS, ''fcvt.wu.s''),
    (FRV_FCVTLS, ''fcvt.l.s''), (FRV_FCVTLUS, ''fcvt.lu.s''), (FRV_FCVTSW, ''fcvt.s.w''),
    (FRV_FCVTSWU, ''fcvt.s.wu''), (FRV_FCVTSL, ''fcvt.s.l''), (FRV_FCVTSLU, ''fcvt.s.lu''),
    (FRV_FLD, ''fld''), (FRV_FSD, ''fsd''), (FRV_FMVXD, ''fmv.x.d''), (FRV_FMVDX, ''fmv.d.x''),
    (FRV_FCLASSD, ''fclass.d''), (FRV_FMADDD, ''fmadd.d''), (FRV_FMSUBD, ''fmsub.d''),
    (FRV_FNMSUBD, ''fnmsub.d''), (FRV_FNMADDD, ''fnmadd.d''), (FRV_FADDD, ''fadd.d''),
    (FRV_FSUBD, ''fsub.d''), (FRV_FMULD, ''fmul.d''), (FRV_FDIVD, ''fdiv.d''), (FRV_FSQRTD, ''fsqrt.d''),
    (FRV_FSGNJD, ''fsgnj.d''), (FRV_FSGNJND, ''fsgnjn.d''), (FRV_FSGNJXD, ''fsgnjx.d''),
    (FRV_FMIND, ''fmin.d''), (FRV_FMAXD, ''fmax.d''), (FRV_FLED, ''fle.d''), (FRV_FLTD, ''flt.d''),
    (FRV_FEQD, ''feq.d''), (FRV_FCVTSD, ''fcvt.s.d''), (FRV_FCVTDS, ''fcvt.d.s''),
    (FRV_FCVTWD, ''fcvt.w.d''), (FRV_FCVTWUD, ''fcvt.wu.d''), (FRV_FCVTLD, ''fcvt.l.d''),
    (FRV_FCVTLUD, ''fcvt.lu.d''), (FRV_FCVTDW, ''fcvt.d.w''), (FRV_FCVTDWU, ''fcvt.d.wu''),
    (FRV_FCVTDL, ''fcvt.d.l''), (FRV_FCVTDLU, ''fcvt.d.lu'')]"

text \<open>One operand, behind a space.\<close>

definition format_reg :: "u8 \<Rightarrow> nat \<Rightarrow> string \<Rightarrow> string" where
  "format_reg r len buf =
     (if r \<noteq> FRV_REG_INV then strlcat buf ('' r'' @ frv_format_int (uint r)) len else buf)"

definition frv_format :: "frv_inst \<Rightarrow> nat \<Rightarrow> string \<Rightarrow> string" where
  "frv_format fi len buf =
     (if len = 0 then buf
      else
        let buf0 = buf[0 := NUL] in
        case map_of mnem_str (mnem fi) of
          None \<Rightarrow> strlcat buf0 ''<invalid>'' len
        | Some s \<Rightarrow>
            let buf1 = strlcat buf0 s len;
                buf2 = format_reg (rs3 fi) len (format_reg (rs2 fi) len (format_reg (rs1 fi) len (format_reg (rd fi) len buf1)))
            in if imm fi \<noteq> 0 then strlcat buf2 ('' '' @ frv_format_int (sint (imm fi))) len else buf2)"

subsection \<open>Where the bits of the immediates come from\<close>

text \<open>
  The architecture's layout: the instruction bit that bit \<open>n\<close> of the immediate is a copy of, if any. For the
  compressed formats, the layout is the list of the immediate bits that the instruction bits 2, 3, \<dots>
  hold, and the last one is the sign.
\<close>

fun upto31 :: "nat \<Rightarrow> nat" where
  "upto31 n = min n 31"

definition imm_src4 :: "u32 \<Rightarrow> nat \<Rightarrow> nat option" where
  "imm_src4 k n =
     (if k = ENC_F_IMM_U then if n < 12 then None else Some n
      else if k = ENC_F_IMM_I then Some (upto31 (n + 20))
      else if k = ENC_F_IMM_S then if n < 5 then Some (n + 7) else Some (upto31 (n + 20))
      else if k = ENC_F_IMM_J then
        if n = 0 then None else if n < 11 then Some (n + 20) else if n = 11 then Some 20
        else if n < 20 then Some n else Some 31
      else if k = ENC_F_IMM_B then
        if n = 0 then None else if n < 5 then Some (n + 7) else if n < 11 then Some (n + 20)
        else if n = 11 then Some 7 else Some 31
      else if k = ENC_F_IMM_SHAMT then if n < 6 then Some (n + 20) else None
      else if k = ENC_F_IMM_AMO then if n < 2 then Some (n + 25) else None
      else None)"

text \<open>Case distinctions below a numeral, from the top down.\<close>

lemma below_numeral: "(n :: nat) < numeral k \<longleftrightarrow> n = pred_numeral k \<or> n < pred_numeral k"
  by (auto simp: numeral_eq_Suc less_Suc_eq)

lemma ex_below_numeral: "(\<exists>i < numeral k. P i) \<longleftrightarrow> P (pred_numeral k) \<or> (\<exists>i < pred_numeral k. P (i :: nat))"
  by (auto simp: numeral_eq_Suc less_Suc_eq)

lemmas below_unroll = below_numeral pred_numeral_simps BitM.simps

lemma bit_UBFX: "bit (UBFX val lo hi) n \<longleftrightarrow> n \<le> hi - lo \<and> bit val (lo + n)"
proof -
  have "push_bit k 1 - 1 = (mask k :: u32)" for k by (simp add: mask_eq_exp_minus_1)
  note m = this
  show ?thesis unfolding UBFX_def m by (auto simp: bit_simps dest: bit_imp_le_length)
qed

lemma imm4_bits:
  assumes "n < 32"
  shows "bit (imm4 e inst) n \<longleftrightarrow> (case imm_src4 (e AND ENC_F_IMM_MASK) n of None \<Rightarrow> False | Some k \<Rightarrow> bit inst k)"
  using assms[unfolded below_unroll]
  by (elim disjE; simp add: imm4_def imm_src4_def Let_def bit_simps bit_UBFX)

text \<open>The compressed formats, as the immediate bits in the instruction bits they come from.\<close>

fun imm_layout2 :: "imm_enc \<Rightarrow> (nat \<times> nat) list \<times> nat option" where
  "imm_layout2 ENC_U_53_76 = ([(5, 6), (6, 7), (10, 3), (11, 4), (12, 5)], None)"
| "imm_layout2 ENC_U_53_26 = ([(5, 6), (6, 2), (10, 3), (11, 4), (12, 5)], None)"
| "imm_layout2 ENC_U_5_42_76 = ([(2, 6), (3, 7), (4, 2), (5, 3), (6, 4), (12, 5)], None)"
| "imm_layout2 ENC_U_5_43_86 = ([(2, 6), (3, 7), (4, 8), (5, 3), (6, 4), (12, 5)], None)"
| "imm_layout2 ENC_U_52_76 = ([(7, 6), (8, 7), (9, 2), (10, 3), (11, 4), (12, 5)], None)"
| "imm_layout2 ENC_U_53_86 = ([(7, 6), (8, 7), (9, 8), (10, 3), (11, 4), (12, 5)], None)"
| "imm_layout2 ENC_NZU_54_96_2_3 = ([(5, 3), (6, 2), (7, 6), (8, 7), (9, 8), (10, 9), (11, 4), (12, 5)], None)"
| "imm_layout2 ENC_NZU_5_40 = ([(2, 0), (3, 1), (4, 2), (5, 3), (6, 4), (12, 5)], None)"
| "imm_layout2 ENC_I_5_40 = ([(2, 0), (3, 1), (4, 2), (5, 3), (6, 4)], Some 5)"
| "imm_layout2 ENC_NZI_5_40 = ([(2, 0), (3, 1), (4, 2), (5, 3), (6, 4)], Some 5)"
| "imm_layout2 ENC_NZI_9_4_6_87_5 = ([(2, 5), (3, 7), (4, 8), (5, 6), (6, 4)], Some 9)"
| "imm_layout2 ENC_NZI_17_1612 = ([(2, 12), (3, 13), (4, 14), (5, 15), (6, 16)], Some 17)"
| "imm_layout2 ENC_I_8_43_76_21_5 = ([(2, 5), (3, 1), (4, 2), (5, 6), (6, 7), (10, 3), (11, 4)], Some 8)"
| "imm_layout2 ENC_I_11_4_98_10_6_7_31_5 =
     ([(2, 5), (3, 1), (4, 2), (5, 3), (6, 7), (7, 6), (8, 10), (9, 8), (10, 9), (11, 4)], Some 11)"
| "imm_layout2 ENC_I_NONE = ([], None)"
| "imm_layout2 ENC_I_EBREAK = ([], None)"

definition imm_src2 :: "imm_enc \<Rightarrow> nat \<Rightarrow> nat option" where
  "imm_src2 e n =
     (case imm_layout2 e of (ps, sign) \<Rightarrow>
        case sign of
          Some k \<Rightarrow> if n < k then map_option fst (find (\<lambda>p. snd p = n) ps) else Some 12
        | None \<Rightarrow> map_option fst (find (\<lambda>p. snd p = n) ps))"

lemma bit_SBFXIZ:
  assumes "n < 32" and "shl < 31"
  shows "bit (SBFXIZ val lo lo shl) n \<longleftrightarrow> shl \<le> n \<and> bit val lo"
  using assms by (auto simp: SBFXIZ_def bit_simps bit_UBFX min_def)

lemma bit_times_2: "bit (x * 2 :: u32) n \<longleftrightarrow> n < 32 \<and> 0 < n \<and> bit x (n - 1)"
  using bit_double_iff[of x n] by (auto simp: mult.commute dest: bit_imp_le_length)

lemmas imm2_bit_simps = imm_src2_def bit_or_iff bit_push_bit_iff bit_UBFX bit_SBFXIZ bit_times_2

lemma imm2_bits:
  assumes "n < 32" and "e \<noteq> ENC_I_EBREAK"
  shows "bit (imm2 e inst) n \<longleftrightarrow> (case imm_src2 e n of None \<Rightarrow> False | Some k \<Rightarrow> bit inst k)"
proof -
  note d = assms(1)[unfolded below_unroll]
  show ?thesis
  proof (cases e)
    case ENC_I_NONE
    with d show ?thesis by (elim disjE; simp add: imm2_bit_simps)
  next
    case ENC_U_53_76
    with d show ?thesis by (elim disjE; simp add: imm2_bit_simps)
  next
    case ENC_U_53_26
    with d show ?thesis by (elim disjE; simp add: imm2_bit_simps)
  next
    case ENC_U_5_42_76
    with d show ?thesis by (elim disjE; simp add: imm2_bit_simps)
  next
    case ENC_U_5_43_86
    with d show ?thesis by (elim disjE; simp add: imm2_bit_simps)
  next
    case ENC_U_52_76
    with d show ?thesis by (elim disjE; simp add: imm2_bit_simps)
  next
    case ENC_U_53_86
    with d show ?thesis by (elim disjE; simp add: imm2_bit_simps)
  next
    case ENC_I_5_40
    with d show ?thesis by (elim disjE; simp add: imm2_bit_simps)
  next
    case ENC_I_11_4_98_10_6_7_31_5
    with d show ?thesis by (elim disjE; simp add: imm2_bit_simps)
  next
    case ENC_I_8_43_76_21_5
    with d show ?thesis by (elim disjE; simp add: imm2_bit_simps)
  next
    case ENC_I_EBREAK
    with assms(2) show ?thesis by simp
  next
    case ENC_NZU_54_96_2_3
    with d show ?thesis by (elim disjE; simp add: imm2_bit_simps)
  next
    case ENC_NZI_5_40
    with d show ?thesis by (elim disjE; simp add: imm2_bit_simps)
  next
    case ENC_NZU_5_40
    with d show ?thesis by (elim disjE; simp add: imm2_bit_simps)
  next
    case ENC_NZI_9_4_6_87_5
    with d show ?thesis by (elim disjE; simp add: imm2_bit_simps)
  next
    case ENC_NZI_17_1612
    with d show ?thesis by (elim disjE; simp add: imm2_bit_simps)
  qed
qed

text \<open>
  C11: Every immediate is assembled as the architecture lays it out: bit \<open>n\<close> of the immediate of a 32-bit or a
  compressed instruction is a copy of the instruction bit the format names, the sign is extended, and the
  remaining bits are zero. The one immediate that is not encoded is that of \<^verbatim>\<open>C.EBREAK\<close>, which is 1.
\<close>

theorem frv_immediates_by_layout:
  "(n < 32 \<longrightarrow>
     (bit (imm4 enc inst) n \<longleftrightarrow>
       (case imm_src4 (enc AND ENC_F_IMM_MASK) n of None \<Rightarrow> False | Some k \<Rightarrow> bit inst k)) \<and>
     (bit (imm2 e inst) n \<longleftrightarrow>
       (if e = ENC_I_EBREAK then n = 0 else case imm_src2 e n of None \<Rightarrow> False | Some k \<Rightarrow> bit inst k)))"
  using imm4_bits[of n enc inst] imm2_bits[of n e inst] by (auto simp: bit_1_iff)

theorem frv_immediates_by_layout_witness:
  "bit (imm4 ENC_J 0x00100000) 11 \<and> \<not> bit (imm4 ENC_J 0x00100000) 1 \<and> bit (imm2 ENC_I_5_40 0x1000) 20"
  using frv_immediates_by_layout[of 11 ENC_J "0x00100000" ENC_I_NONE]
    frv_immediates_by_layout[of 1 ENC_J "0x00100000" ENC_I_NONE] frv_immediates_by_layout[of 20 0 "0x1000" ENC_I_5_40]
  by (simp add: imm_src4_def imm_src2_def)

subsection \<open>The operands of a mnemonic\<close>

text \<open>
  The shapes of instructions: the mnemonics, which of the four registers they have, and the immediates they
  may have. The system instruction has two shapes, since the compressed form has no registers.
\<close>

definition fits :: "nat \<Rightarrow> int \<Rightarrow> bool" where
  "fits k i \<longleftrightarrow> - (2 ^ k) \<le> i \<and> i < 2 ^ k"

definition shapes :: "(nat list \<times> bool list \<times> (int \<Rightarrow> bool)) list" where
  "shapes =
     [([FRV_LB, FRV_LH, FRV_LW, FRV_LD, FRV_LBU, FRV_LHU, FRV_LWU, FRV_FLW, FRV_FLD, FRV_FENCE, FRV_FENCEI,
        FRV_ADDI, FRV_SLTI, FRV_SLTIU, FRV_XORI, FRV_ORI, FRV_ANDI, FRV_ADDIW, FRV_JALR, FRV_ECALL,
        FRV_CSRRW, FRV_CSRRS, FRV_CSRRC, FRV_CSRRWI, FRV_CSRRSI, FRV_CSRRCI],
       [True, True, False, False], fits 11),
      ([FRV_SLLI, FRV_SRAI, FRV_SRLI, FRV_SLLIW, FRV_SRAIW, FRV_SRLIW],
       [True, True, False, False], (\<lambda>i. 0 \<le> i \<and> i < 64)),
      ([FRV_SB, FRV_SH, FRV_SW, FRV_SD, FRV_FSW, FRV_FSD], [False, True, True, False], fits 11),
      ([FRV_BEQ, FRV_BNE, FRV_BLT, FRV_BGE, FRV_BLTU, FRV_BGEU],
       [False, True, True, False], (\<lambda>i. fits 12 i \<and> even i)),
      ([FRV_AUIPC, FRV_LUI], [True, False, False, False], (\<lambda>i. i mod 4096 = 0)),
      ([FRV_JAL], [True, False, False, False], (\<lambda>i. fits 20 i \<and> even i)),
      ([FRV_ECALL], [False, False, False, False], (\<lambda>i. i = 1)),
      ([FRV_ADD, FRV_SLL, FRV_SLT, FRV_SLTU, FRV_XOR, FRV_SRL, FRV_OR, FRV_AND, FRV_SUB, FRV_SRA,
        FRV_ADDW, FRV_SLLW, FRV_SRLW, FRV_SUBW, FRV_SRAW,
        FRV_MUL, FRV_MULH, FRV_MULHSU, FRV_MULHU, FRV_DIV, FRV_DIVU, FRV_REM, FRV_REMU,
        FRV_MULW, FRV_DIVW, FRV_DIVUW, FRV_REMW, FRV_REMUW,
        FRV_FADDS, FRV_FADDD, FRV_FSUBS, FRV_FSUBD, FRV_FMULS, FRV_FMULD, FRV_FDIVS, FRV_FDIVD,
        FRV_FSGNJS, FRV_FSGNJNS, FRV_FSGNJXS, FRV_FSGNJD, FRV_FSGNJND, FRV_FSGNJXD,
        FRV_FMINS, FRV_FMAXS, FRV_FMIND, FRV_FMAXD, FRV_FLES, FRV_FLTS, FRV_FEQS, FRV_FLED, FRV_FLTD, FRV_FEQD],
       [True, True, True, False], (\<lambda>i. i = 0)),
      ([FRV_LRW, FRV_SCW, FRV_LRD, FRV_SCD,
        FRV_AMOADDW, FRV_AMOSWAPW, FRV_AMOXORW, FRV_AMOORW, FRV_AMOANDW, FRV_AMOMINW, FRV_AMOMAXW, FRV_AMOMINUW,
        FRV_AMOMAXUW, FRV_AMOADDD, FRV_AMOSWAPD, FRV_AMOXORD, FRV_AMOORD, FRV_AMOANDD, FRV_AMOMIND, FRV_AMOMAXD,
        FRV_AMOMINUD, FRV_AMOMAXUD],
       [True, True, True, False], (\<lambda>i. 0 \<le> i \<and> i < 4)),
      ([FRV_FCVTSD, FRV_FCVTDS, FRV_FSQRTS, FRV_FSQRTD, FRV_FCVTWS, FRV_FCVTWUS, FRV_FCVTLS, FRV_FCVTLUS,
        FRV_FCVTWD, FRV_FCVTWUD, FRV_FCVTLD, FRV_FCVTLUD, FRV_FCVTSW, FRV_FCVTSWU, FRV_FCVTSL, FRV_FCVTSLU,
        FRV_FCVTDW, FRV_FCVTDWU, FRV_FCVTDL, FRV_FCVTDLU, FRV_FMVXW, FRV_FCLASSS, FRV_FMVXD, FRV_FCLASSD,
        FRV_FMVWX, FRV_FMVDX],
       [True, True, False, False], (\<lambda>i. i = 0)),
      ([FRV_FMADDS, FRV_FMADDD, FRV_FMSUBS, FRV_FMSUBD, FRV_FNMSUBS, FRV_FNMSUBD, FRV_FNMADDS, FRV_FNMADDD],
       [True, True, True, True], (\<lambda>i. i = 0))]"

definition regs_ok :: "bool list \<Rightarrow> frv_inst \<Rightarrow> bool" where
  "regs_ok uses fi \<longleftrightarrow>
     list_all2 (\<lambda>u r. if u then r < 32 else r = FRV_REG_INV) uses [rd fi, rs1 fi, rs2 fi, rs3 fi]"

definition frv_wf :: "frv_inst \<Rightarrow> bool" where
  "frv_wf fi \<longleftrightarrow> (\<exists>(ms, uses, ok) \<in> set shapes. mnem fi \<in> set ms \<and> regs_ok uses fi \<and> ok (sint (imm fi)))"

lemma UBFX_take: "UBFX val lo hi = take_bit (hi - lo + 1) (drop_bit lo val)"
  by (rule bit_eqI) (auto simp: bit_UBFX bit_simps less_Suc_eq_le)

lemma reg_UBFX: "(ucast (UBFX val lo (lo + 4)) :: u8) < 32"
proof -
  have "unat (ucast (UBFX val lo (lo + 4)) :: u8) < 2 ^ 5"
    using take_bit_nat_less_exp[of 5 "unat (drop_bit lo val)"]
    by (simp add: UBFX_take unsigned_ucast_eq unsigned_take_bit_eq)
  then show ?thesis by (simp add: word_less_nat_alt)
qed

lemma sint_bits: "bit (sint (w :: u32)) n \<longleftrightarrow> bit w (min n 31)"
  by (auto simp: bit_sint_iff min_def not_le dest: bit_imp_le_length)

lemma sint_fits:
  assumes "k < 32" and "\<And>n. k \<le> n \<Longrightarrow> n < 32 \<Longrightarrow> bit w n = bit (w :: u32) k"
  shows "fits k (sint w)"
proof -
  have "signed_take_bit k (sint w) = sint w"
  proof (rule bit_eqI)
    fix n
    show "bit (signed_take_bit k (sint w)) n = bit (sint w) n"
      using assms(1) assms(2)[of "min n 31"] by (auto simp: bit_signed_take_bit_iff sint_bits min_def)
  qed
  then show ?thesis
    unfolding fits_def using signed_take_bit_int_greater_eq_minus_exp[of k "sint w"] signed_take_bit_int_less_exp[of k "sint w"]
    by simp
qed

lemma sint_unsigned:
  assumes "k < 32" and "\<And>n. k \<le> n \<Longrightarrow> n < 32 \<Longrightarrow> \<not> bit (w :: u32) n"
  shows "0 \<le> sint w \<and> sint w < 2 ^ k"
proof -
  have "take_bit k (sint w) = sint w"
  proof (rule bit_eqI)
    fix n
    show "bit (take_bit k (sint w)) n = bit (sint w) n"
      using assms(1) assms(2)[of "min n 31"] by (auto simp: bit_take_bit_iff sint_bits min_def not_le[symmetric] split: if_splits)
  qed
  then show ?thesis using take_bit_nonnegative[of k "sint w"] take_bit_int_less_exp[of k "sint w"] by simp
qed

lemma sint_low_zero:
  assumes "k < 32" and "\<And>n. n < k \<Longrightarrow> \<not> bit (w :: u32) n"
  shows "sint w mod 2 ^ k = 0"
proof -
  have "take_bit k (sint w) = 0"
    by (rule bit_eqI) (use assms in \<open>auto simp: bit_take_bit_iff sint_bits min_def\<close>)
  then show ?thesis by (simp add: take_bit_eq_mod)
qed

text \<open>The pairs of encoding and mnemonic that the opcode switch produces.\<close>

definition enc_rows :: "(u32 list \<times> nat) list" where
  "enc_rows = [([ENC_I], 0), ([ENC_I_SHAMT], 1), ([ENC_S], 2), ([ENC_B], 3), ([ENC_U], 4), ([ENC_J], 5),
     ([ENC_R, ENC_R_RM], 7), ([ENC_R_AMO], 8), ([ENC_R2, ENC_R2_RM], 9), ([ENC_R4_RM], 10)]"

definition op_ok :: "u32 \<times> nat \<Rightarrow> bool" where
  "op_ok em \<longleftrightarrow> snd em = 0 \<or> (\<exists>(es, i) \<in> set enc_rows. fst em \<in> set es \<and> snd em \<in> set (fst (shapes ! i)))"

lemma pick_cases: "pick ms i = 0 \<or> pick ms i \<in> set ms"
  by (simp add: pick_def)

lemma op_ok_pick:
  assumes "\<forall>m \<in> set ms. op_ok (e, m)"
  shows "op_ok (e, pick ms i)"
  using pick_cases[of ms i] assms by (auto simp: op_ok_def)

definition opt_ok :: "(u32 \<times> nat) option \<Rightarrow> bool" where
  "opt_ok x \<longleftrightarrow> (\<forall>em. x = Some em \<longrightarrow> op_ok em)"

lemma opt_ok_if: "opt_ok x \<Longrightarrow> opt_ok y \<Longrightarrow> opt_ok (if c then x else y)"
  by simp

lemma opt_ok_simps: "opt_ok None" "op_ok em \<Longrightarrow> opt_ok (Some em)"
  by (simp_all add: opt_ok_def)

text \<open>Under \<open>map_option (Pair e)\<close> the conditionals are moved out first.\<close>

lemma map_pair_if: "map_option (Pair e) (if c then x else y) = (if c then map_option (Pair e) x else map_option (Pair e) y)"
  "map_option (Pair e) (Some m) = Some (e, m)" "map_option (Pair e) None = None"
  by simp_all

lemma op_ok_if: "op_ok x \<Longrightarrow> op_ok y \<Longrightarrow> op_ok (if c then x else y)"
  "op_ok (e, m) \<Longrightarrow> op_ok (e, m') \<Longrightarrow> op_ok (e, if c then m else m')"
  by simp_all

lemmas op_ok_eval = op_ok_def enc_rows_def shapes_def
lemmas opt_ok_rules = opt_ok_if opt_ok_simps op_ok_if op_ok_pick

lemma opimm_ok: "op_ok (opimm_op f3 f7)" "opt_ok (opimm32_op f3 f7)"
  unfolding opimm_op_def opimm32_op_def by (intro opt_ok_rules; simp add: op_ok_eval)+

lemma amo_ok: "opt_ok (map_option (Pair ENC_R_AMO) (amo_op f3 f7))"
  unfolding amo_op_def Let_def map_pair_if by (intro opt_ok_rules; simp add: op_ok_eval)

lemma op_op_ok: "opt_ok (map_option (Pair ENC_R) (op_op f3 f7))" "opt_ok (map_option (Pair ENC_R) (op32_op f3 f7))"
  unfolding op_op_def op32_op_def map_pair_if by (intro opt_ok_rules; simp add: op_ok_eval)+

lemma fp_ok: "opt_ok (fp_op r f3 f7)"
  unfolding fp_op_def by (intro opt_ok_rules; simp add: op_ok_eval)

lemma decode_op_ok: "opt_ok (decode_op inst)"
  unfolding decode_op_def Let_def by (intro opimm_ok amo_ok op_op_ok fp_ok opt_ok_rules; simp add: op_ok_eval)

lemma imm4_fits:
  "e AND ENC_F_IMM_MASK = ENC_F_IMM_I \<Longrightarrow> fits 11 (sint (imm4 e inst))"
  "e AND ENC_F_IMM_MASK = ENC_F_IMM_S \<Longrightarrow> fits 11 (sint (imm4 e inst))"
  "e AND ENC_F_IMM_MASK = ENC_F_IMM_B \<Longrightarrow> fits 12 (sint (imm4 e inst))"
  "e AND ENC_F_IMM_MASK = ENC_F_IMM_J \<Longrightarrow> fits 20 (sint (imm4 e inst))"
  by (intro sint_fits; simp add: imm4_bits imm_src4_def)+

lemma imm4_unsigned:
  "e AND ENC_F_IMM_MASK = ENC_F_IMM_SHAMT \<Longrightarrow> 0 \<le> sint (imm4 e inst) \<and> sint (imm4 e inst) < 2 ^ 6"
  "e AND ENC_F_IMM_MASK = ENC_F_IMM_AMO \<Longrightarrow> 0 \<le> sint (imm4 e inst) \<and> sint (imm4 e inst) < 2 ^ 2"
  by (intro sint_unsigned; simp add: imm4_bits imm_src4_def)+

lemma imm4_low_zero:
  "e AND ENC_F_IMM_MASK = ENC_F_IMM_B \<Longrightarrow> sint (imm4 e inst) mod 2 ^ 1 = 0"
  "e AND ENC_F_IMM_MASK = ENC_F_IMM_J \<Longrightarrow> sint (imm4 e inst) mod 2 ^ 1 = 0"
  "e AND ENC_F_IMM_MASK = ENC_F_IMM_U \<Longrightarrow> sint (imm4 e inst) mod 2 ^ 12 = 0"
  by (intro sint_low_zero; simp add: imm4_bits imm_src4_def)+

lemma imm4_zero: "e AND ENC_F_IMM_MASK = 0 \<Longrightarrow> imm4 e inst = 0"
  by (simp add: imm4_def)

lemma frv_wfI:
  assumes "mnem fi \<in> set (fst (shapes ! i))" and "i < length shapes"
    and "regs_ok (fst (snd (shapes ! i))) fi" and "snd (snd (shapes ! i)) (sint (imm fi))"
  shows "frv_wf fi"
  unfolding frv_wf_def using assms nth_mem[OF assms(2)] by (intro bexI[of _ "shapes ! i"]) (simp_all add: case_prod_beta)

lemma shapes_nth:
  "length shapes = 11"
  "snd (shapes ! 0) = ([True, True, False, False], fits 11)"
  "snd (shapes ! 1) = ([True, True, False, False], (\<lambda>i. 0 \<le> i \<and> i < 64))"
  "snd (shapes ! 2) = ([False, True, True, False], fits 11)"
  "snd (shapes ! 3) = ([False, True, True, False], (\<lambda>i. fits 12 i \<and> even i))"
  "snd (shapes ! 4) = ([True, False, False, False], (\<lambda>i. i mod 4096 = 0))"
  "snd (shapes ! 5) = ([True, False, False, False], (\<lambda>i. fits 20 i \<and> even i))"
  "snd (shapes ! 6) = ([False, False, False, False], (\<lambda>i. i = 1))"
  "snd (shapes ! 7) = ([True, True, True, False], (\<lambda>i. i = 0))"
  "snd (shapes ! 8) = ([True, True, True, False], (\<lambda>i. 0 \<le> i \<and> i < 4))"
  "snd (shapes ! 9) = ([True, True, False, False], (\<lambda>i. i = 0))"
  "snd (shapes ! 10) = ([True, True, True, True], (\<lambda>i. i = 0))"
  by (simp_all add: shapes_def)

lemma decode4_wf:
  assumes "frv_decode4 inst fi = (4, fi')"
  shows "frv_wf fi'"
proof -
  obtain e m where em: "decode_op inst = Some (e, m)" "m \<noteq> 0"
    and fi: "mnem fi' = m" "imm fi' = imm4 e inst" "rd fi' = reg_if e ENC_F_RD (UBFX inst 7 11)"
      "rs1 fi' = reg_if e ENC_F_RS1 (UBFX inst 15 19)" "rs2 fi' = reg_if e ENC_F_RS2 (UBFX inst 20 24)"
      "rs3 fi' = reg_if e ENC_F_RS3 (UBFX inst 27 31)"
    using assms by (auto simp: frv_decode4_def split: option.splits if_splits)
  have "op_ok (e, m)" using decode_op_ok[of inst] em(1) by (simp add: opt_ok_def)
  then obtain es i where row: "(es, i) \<in> set enc_rows" "e \<in> set es" "m \<in> set (fst (shapes ! i))"
    using em(2) by (auto simp: op_ok_def)
  have regs: "(ucast (UBFX inst 7 11) :: u8) < 32" "(ucast (UBFX inst 15 19) :: u8) < 32"
    "(ucast (UBFX inst 20 24) :: u8) < 32" "(ucast (UBFX inst 27 31) :: u8) < 32"
    using reg_UBFX[of inst 7] reg_UBFX[of inst 15] reg_UBFX[of inst 20] reg_UBFX[of inst 27] by simp_all
  have "i < length shapes" using row(1) by (auto simp: enc_rows_def shapes_nth)
  moreover have "regs_ok (fst (snd (shapes ! i))) fi' \<and> snd (snd (shapes ! i)) (sint (imm fi'))"
    using row(1,2) regs unfolding enc_rows_def
    by (auto simp: shapes_nth shapes_nth(3)[unfolded One_nat_def] regs_ok_def reg_if_def fi imm4_fits imm4_zero even_iff_mod_2_eq_zero
        imm4_unsigned[simplified] imm4_low_zero[simplified])
  ultimately show ?thesis using row(3) fi(1) by (intro frv_wfI[of _ i]) simp_all
qed

text \<open>The compressed formats.\<close>

declare imm2.simps [simp del]

lemma fits_mono: "fits k i \<Longrightarrow> k \<le> l \<Longrightarrow> fits l i"
proof -
  assume "k \<le> l"
  then have "(2 :: int) ^ k \<le> 2 ^ l" by (simp add: power_increasing)
  then show "fits k i \<Longrightarrow> fits l i" unfolding fits_def by linarith
qed

lemma imm2_fits: "e \<noteq> ENC_NZI_17_1612 \<Longrightarrow> fits 11 (sint (imm2 e inst))"
proof (cases "e = ENC_I_EBREAK")
  case False
  assume "e \<noteq> ENC_NZI_17_1612"
  with False show ?thesis
    by (intro sint_fits) (cases e; simp add: imm2_bits imm_src2_def)+
qed (simp add: fits_def imm2.simps)

lemma imm2_classes:
  "0 \<le> sint (imm2 ENC_NZU_5_40 inst) \<and> sint (imm2 ENC_NZU_5_40 inst) < 2 ^ 6"
  "sint (imm2 ENC_I_8_43_76_21_5 inst) mod 2 ^ 1 = 0"
  "sint (imm2 ENC_I_11_4_98_10_6_7_31_5 inst) mod 2 ^ 1 = 0"
  "sint (imm2 ENC_NZI_17_1612 inst) mod 2 ^ 12 = 0"
  by (intro sint_unsigned sint_low_zero; simp add: imm2_bits imm_src2_def)+

fun enc_ok :: "nat \<Rightarrow> imm_enc \<Rightarrow> bool" where
  "enc_ok i e =
     ((if i = 0 \<or> i = 2 then e \<noteq> ENC_NZI_17_1612 else if i = 1 then e = ENC_NZU_5_40
       else if i = 3 then e = ENC_I_8_43_76_21_5 else if i = 4 then e = ENC_NZI_17_1612
       else if i = 5 then e = ENC_I_11_4_98_10_6_7_31_5 else if i = 6 then e = ENC_I_EBREAK
       else e = ENC_I_NONE))"

definition leaf_ok :: "rvc_fields \<Rightarrow> bool" where
  "leaf_ok x =
     (case x of (m, d, s1, s2, e) \<Rightarrow>
        m = 0 \<or> (\<exists>i < 8. m \<in> set (fst (shapes ! i)) \<and> enc_ok i e \<and>
          list_all2 (\<lambda>u r. if u then r < 32 else r = FRV_REG_INV) (fst (snd (shapes ! i))) [d, s1, s2, FRV_REG_INV]))"

lemma enc_ok_imm:
  assumes "i < 8" and "enc_ok i e"
  shows "snd (snd (shapes ! i)) (sint (imm2 e inst))"
  using assms(1)[unfolded below_unroll] assms(2) imm2_classes[of inst, simplified] imm2_fits[of e inst] fits_mono[of 11 "sint (imm2 e inst)" 12]
    fits_mono[of 11 "sint (imm2 e inst)" 20]
  by (elim disjE) (simp_all add: shapes_nth shapes_nth(3)[unfolded One_nat_def] imm2.simps(1,2) even_iff_mod_2_eq_zero)

lemma leaf_wf:
  assumes "leaf_ok (m, d, s1, s2, e)" and "m \<noteq> 0"
  shows "frv_wf (fi\<lparr>mnem := m, rd := d, rs1 := s1, rs2 := s2, rs3 := FRV_REG_INV, imm := imm2 e inst\<rparr>)"
proof -
  from assms obtain i where i: "i < 8" "m \<in> set (fst (shapes ! i))" "enc_ok i e"
    "list_all2 (\<lambda>u r. if u then r < 32 else r = FRV_REG_INV) (fst (snd (shapes ! i))) [d, s1, s2, FRV_REG_INV]"
    by (auto simp: leaf_ok_def)
  from enc_ok_imm[OF i(1,3), of inst] show ?thesis
    using i by (intro frv_wfI[of _ i]) (simp_all add: regs_ok_def shapes_nth(1))
qed

lemma reg_UBFX3: "(ucast (UBFX val lo (lo + 2) + 8) :: u8) < 32"
proof -
  have b: "unat (UBFX val lo (lo + 2)) < 2 ^ 3"
    using take_bit_nat_less_exp[of 3 "unat (drop_bit lo val)"] by (simp add: UBFX_take unsigned_take_bit_eq)
  then have "unat (UBFX val lo (lo + 2) + 8) < 16" by (simp add: unat_word_ariths)
  then have "unat (ucast (UBFX val lo (lo + 2) + 8) :: u8) < 16" by (simp add: unsigned_ucast_eq take_bit_nat_eq_self)
  then show ?thesis by (simp add: word_less_nat_alt)
qed

definition rvc_ok :: "rvc_fields option \<Rightarrow> bool" where
  "rvc_ok x \<longleftrightarrow> (\<forall>y. x = Some y \<longrightarrow> leaf_ok y)"

lemma rvc_ok_if: "rvc_ok x \<Longrightarrow> rvc_ok y \<Longrightarrow> rvc_ok (if c then x else y)"
  by simp

lemma rvc_ok_simps: "rvc_ok None" "leaf_ok y \<Longrightarrow> rvc_ok (Some y)"
  by (simp_all add: rvc_ok_def)

lemma leaf_ok_if: "leaf_ok x \<Longrightarrow> leaf_ok y \<Longrightarrow> leaf_ok (if c then x else y)"
  by simp

lemma leaf_ok_pick:
  assumes "\<forall>m \<in> set ms. leaf_ok (m, d, s1, s2, e)"
  shows "leaf_ok (pick ms i, d, s1, s2, e)"
proof (cases "pick ms i = 0")
  case False
  with pick_cases[of ms i] have "pick ms i \<in> set ms" by blast
  with assms show ?thesis by blast
qed (simp add: leaf_ok_def)

lemmas rvc_regs = reg_UBFX[of _ 2, simplified] reg_UBFX[of _ 7, simplified]
  reg_UBFX3[of _ 2, simplified] reg_UBFX3[of _ 7, simplified]
lemmas leaf_ok_eval = leaf_ok_def ex_below_numeral pred_numeral_simps BitM.simps shapes_def rvc_regs
lemmas rvc_ok_rules = rvc_ok_if rvc_ok_simps leaf_ok_if leaf_ok_pick

lemma rvc_q0_ok: "rvc_ok (rvc_q0 inst opt)"
  unfolding rvc_q0_def Let_def by (intro rvc_ok_rules; simp add: leaf_ok_eval)

lemma rvc_alu_ok: "leaf_ok (rvc_alu inst)"
  unfolding rvc_alu_def Let_def by (intro rvc_ok_rules; simp add: leaf_ok_eval)

lemma rvc_q1_ok: "rvc_ok (rvc_q1 inst opt)"
  unfolding rvc_q1_def Let_def by (intro rvc_alu_ok rvc_ok_rules; simp add: leaf_ok_eval)

lemma rvc_q2_ok: "rvc_ok (rvc_q2 inst opt)"
  unfolding rvc_q2_def Let_def by (intro rvc_ok_rules; simp add: leaf_ok_eval)

lemma decode2_wf:
  assumes "frv_decode2 half opt fi = (2, fi')"
  shows "frv_wf fi'"
proof -
  have "rvc_ok (rvc_op (ucast half) opt)"
    unfolding rvc_op_def by (intro rvc_q0_ok rvc_q1_ok rvc_q2_ok rvc_ok_rules) (simp add: leaf_ok_def)
  then show ?thesis
    using assms by (auto simp: frv_decode2_def rvc_ok_def Let_def split: option.splits if_splits intro: leaf_wf)
qed

lemma decode4_ret: "fst (frv_decode4 inst fi) \<in> {4, FRV_UNDEF}"
  by (simp add: frv_decode4_def split: option.splits)

lemma decode2_ret: "fst (frv_decode2 half opt fi) \<in> {2, FRV_UNDEF}"
  by (simp add: frv_decode2_def Let_def split: option.splits)

lemma frv_decode_result:
  assumes "frv_decode buf opt fi = (ret, fi')"
  shows "(ret = 2 \<or> ret = 4) \<and> ret \<le> int (length buf) \<and> frv_wf fi' \<or> ret = FRV_UNDEF \<or> ret = FRV_PARTIAL \<and> fi' = fi"
proof -
  consider (short) "ret = FRV_PARTIAL" "fi' = fi" | (undef) "ret = FRV_UNDEF"
    | (half) "length buf \<ge> 2" "frv_decode2 (ucast (LOAD_LE_2 buf)) opt fi = (ret, fi')"
    | (word) "length buf \<ge> 4" "frv_decode4 (LOAD_LE_4 buf) fi = (ret, fi')"
    using assms by (fastforce simp: frv_decode_def not_less split: if_splits)
  then show ?thesis
  proof cases
    case half
    then show ?thesis using decode2_ret[of "ucast (LOAD_LE_2 buf)" opt fi] decode2_wf by auto
  next
    case word
    then show ?thesis using decode4_ret[of "LOAD_LE_4 buf" fi] decode4_wf by auto
  qed simp_all
qed

text \<open>
  C10: Decoding is well-typed: whatever the bytes, the options and the previous contents of the structure, the
  decoder returns the length of an instruction that lies within the buffer, or that the bytes are
  incomplete or undefined; and a decoded instruction has a valid mnemonic, exactly the registers that its mnemonic
  takes, each below 32, and an immediate in the range of its format, even for branches and jumps and with the
  low twelve bits clear for upper immediates.
\<close>

theorem frv_decode_typed:
  assumes "frv_decode buf opt fi = (ret, fi')"
  shows "(ret = 2 \<or> ret = 4) \<and> ret \<le> int (length buf) \<and> frv_wf fi' \<or> ret = FRV_UNDEF \<or> ret = FRV_PARTIAL \<and> fi' = fi"
  using assms by (rule frv_decode_result)

lemma frv_decode_typed_witness:
  "fst (frv_decode [0x13, 0x05, 0x10, 0x00] 0 (frv_inst.make 0 0 0 0 0 0 0)) = 4 \<and>
   frv_wf (snd (frv_decode [0x13, 0x05, 0x10, 0x00] 0 (frv_inst.make 0 0 0 0 0 0 0)))"
proof -
  have "fst (frv_decode [0x13, 0x05, 0x10, 0x00] 0 (frv_inst.make 0 0 0 0 0 0 0)) = 4" by code_simp
  then show ?thesis
    using frv_decode_typed[of "[0x13, 0x05, 0x10, 0x00]" 0 "frv_inst.make 0 0 0 0 0 0 0", OF prod.collapse[symmetric]]
    by simp
qed

subsection \<open>Formatting\<close>

text \<open>
  The text of an instruction, without regard to the room there is for it: numbers are the decimal texts of the
  printing functions, with a sign.
\<close>

definition int_text :: "int \<Rightarrow> string" where
  "int_text v = (if v < 0 then ''-'' else []) @ dec_text (word_of_int \<bar>v\<bar>)"

definition reg_text :: "u8 \<Rightarrow> string" where
  "reg_text r = (if r \<noteq> FRV_REG_INV then '' r'' @ int_text (uint r) else [])"

definition inst_text :: "frv_inst \<Rightarrow> string" where
  "inst_text fi =
     (case map_of mnem_str (mnem fi) of
        None \<Rightarrow> ''<invalid>''
      | Some s \<Rightarrow> s @ reg_text (rd fi) @ reg_text (rs1 fi) @ reg_text (rs2 fi) @ reg_text (rs3 fi)
          @ (if imm fi \<noteq> 0 then '' '' @ int_text (sint (imm fi)) else []))"

text \<open>A buffer that holds as much of a text as fits below \<open>len\<close>, terminated, and behind that what it held before.\<close>

definition holds_text :: "string \<Rightarrow> nat \<Rightarrow> string \<Rightarrow> string" where
  "holds_text buf len t = take (len - 1) t @ NUL # drop (Suc (length (take (len - 1) t))) buf"

lemma frv_digits_loop: "frv_digits (- int v) acc = digit_loop (v div 10) (char_of (48 + v mod 10) # acc)"
proof (induction v arbitrary: acc rule: less_induct)
  case (less v)
  have q: "- int v sdiv 10 = - int (v div 10)"
    by (cases "v = 0") (simp_all add: signed_divide_int_def zdiv_int)
  have "(- int v) smod 10 = - int (v mod 10)"
    by (cases "v = 0") (simp_all add: signed_modulo_int_def zmod_int)
  then have "nat (48 - (- int v) smod 10) = 48 + v mod 10" by simp
  then have e: "frv_digits (- int v) acc =
    (if - int (v div 10) \<noteq> 0 then frv_digits (- int (v div 10)) (char_of (48 + v mod 10) # acc)
     else char_of (48 + v mod 10) # acc)"
    using q by (simp only: frv_digits.simps[of "- int v"] Let_def)
  show ?case
  proof (cases "v div 10 = 0")
    case True
    then show ?thesis by (simp add: e digit_loop.simps[of 0])
  next
    case False
    then have "v div 10 < v" by simp
    with False less[of "v div 10"] show ?thesis
      by (simp add: e digit_loop.simps[of "v div 10"])
  qed
qed

lemma frv_format_int_text:
  assumes "\<bar>v\<bar> < 2 ^ 32"
  shows "frv_format_int v = int_text v"
proof -
  have v: "(if v < 0 then v else - v) = - int (nat \<bar>v\<bar>)" by simp
  have u: "unat (word_of_int \<bar>v\<bar> :: u32) = nat \<bar>v\<bar>"
    using assms by (simp add: unsigned_of_int take_bit_int_eq_self)
  have "frv_digits (- int (nat \<bar>v\<bar>)) [] = dec_text (word_of_int \<bar>v\<bar>)"
  proof (cases "v = 0")
    case True
    then show ?thesis using frv_digits_loop[of 0 "[]"] by (simp add: dec_text_def digit_loop.simps[of 0] char_of_def bit_0)
  next
    case False
    then have "word_of_int \<bar>v\<bar> \<noteq> (0 :: u32)" using u by auto
    then show ?thesis
      using False u by (simp only: frv_digits_loop dec_text_def if_False) (simp add: digit_loop.simps[of "nat \<bar>v\<bar>"])
  qed
  then show ?thesis by (simp only: frv_format_int_def int_text_def Let_def v) simp
qed

lemma digit_loop_no_NUL: "NUL \<notin> set acc \<Longrightarrow> NUL \<notin> set (digit_loop v acc)"
proof (induction v acc rule: digit_loop.induct)
  case (1 v acc)
  have "char_of (48 + v mod 10) \<noteq> NUL"
  proof
    assume "char_of (48 + v mod 10) = NUL"
    then have "(of_char (char_of (48 + v mod 10) :: char) :: nat) = of_char NUL" by simp
    then show False by (simp add: of_char_Char)
  qed
  with 1 show ?case by (subst digit_loop.simps) auto
qed

lemma int_text_no_NUL [simp]: "NUL \<notin> set (int_text v)"
  using digit_loop_no_NUL[of "[]"] by (auto simp: int_text_def dec_text_def)

lemma strlcpy_at_simps:
  "strlcpy_at dst [] n = (if n \<noteq> 0 then NUL # tl dst else dst)"
  "c \<noteq> NUL \<Longrightarrow> strlcpy_at dst (c # src) n =
    (if n > 1 then c # strlcpy_at (tl dst) src (n - 1) else if n \<noteq> 0 then NUL # tl dst else dst)"
  by (simp_all add: strlcpy_at.simps[of dst] deref_def)

declare strlcpy_at.simps [simp del]

lemma strlcpy_at_take:
  assumes "NUL \<notin> set src" "0 < n"
  shows "strlcpy_at dst src n = take (n - 1) src @ NUL # drop (Suc (length (take (n - 1) src))) dst"
  using assms
proof (induction src arbitrary: dst n)
  case (Cons c src)
  then have "c \<noteq> NUL" by auto
  with Cons show ?case by (cases "n - 1") (auto simp: strlcpy_at_simps drop_Suc)
qed (simp add: strlcpy_at_simps drop_Suc)

lemma strlcat_append:
  assumes "NUL \<notin> set t" "NUL \<notin> set src" "length t < n"
  shows "strlcat (t @ NUL # rest) src n =
    t @ take (n - length t - 1) src @ NUL # drop (length (take (n - length t - 1) src)) rest"
  using assms
proof (induction t arbitrary: n)
  case Nil
  then show ?case by (simp add: strlcpy_at_take)
qed auto

lemma strlcat_holds:
  assumes "NUL \<notin> set t" "NUL \<notin> set src" "0 < len"
  shows "strlcat (holds_text buf len t) src len = holds_text buf len (t @ src)"
proof -
  have "NUL \<notin> set (take (len - 1) t)" using assms(1) by (meson in_set_takeD)
  then show ?thesis
    using strlcat_append[of "take (len - 1) t" src len "drop (Suc (length (take (len - 1) t))) buf"] assms
    by (cases "length t \<le> len - 1") (auto simp: holds_text_def min_def add.commute)
qed

lemma format_reg_holds:
  assumes "NUL \<notin> set t" "0 < len"
  shows "format_reg r len (holds_text buf len t) = holds_text buf len (t @ reg_text r)"
proof -
  have "uint r < 2 ^ 8" using uint_lt2p[of r] by simp
  then have "frv_format_int (uint r) = int_text (uint r)" by (intro frv_format_int_text) simp
  then show ?thesis using assms by (simp add: format_reg_def reg_text_def strlcat_holds)
qed

lemma reg_text_no_NUL [simp]: "NUL \<notin> set (reg_text r)"
  by (simp add: reg_text_def)

lemma mnem_str_no_NUL: "map_of mnem_str m = Some s \<Longrightarrow> NUL \<notin> set s"
proof -
  have "\<forall>x \<in> set mnem_str. NUL \<notin> set (snd x)" by (simp add: mnem_str_def)
  then show "map_of mnem_str m = Some s \<Longrightarrow> NUL \<notin> set s" by (force dest: map_of_SomeD)
qed

text \<open>
  C35: frv_format into a buffer of len bytes stores the mnemonic, the registers and the immediate in decimal,
  cut to len - 1 characters, and a NUL behind them, and changes nothing behind the NUL.
\<close>

theorem frv_format_truncates:
  assumes "0 < len" "len \<le> length buf"
  shows "frv_format fi len buf = holds_text buf len (inst_text fi)"
proof -
  have s: "\<bar>sint (imm fi)\<bar> < 2 ^ 32" using sint_range_size[of "imm fi"] by (auto simp: word_size)
  have b: "buf[0 := NUL] = holds_text buf len []"
    using assms by (cases buf) (simp_all add: holds_text_def)
  show ?thesis
    using assms(1) mnem_str_no_NUL[of "mnem fi"]
    by (simp add: frv_format_def inst_text_def b Let_def strlcat_holds format_reg_holds frv_format_int_text[OF s]
        split: option.split)
qed

theorem frv_format_truncates_witness:
  "frv_format \<lparr>mnem = FRV_ADDI, rd = 10, rs1 = 0, rs2 = FRV_REG_INV, rs3 = FRV_REG_INV, misc = 0, imm = 1\<rparr> 7 ''.........''
   = ''addi r'' @ NUL # ''..''"
proof -
  let ?fi = "\<lparr>mnem = FRV_ADDI, rd = 10, rs1 = 0, rs2 = FRV_REG_INV, rs3 = FRV_REG_INV, misc = 0, imm = 1\<rparr>"
  have "take 6 (inst_text ?fi) = ''addi r''"
    by (simp add: inst_text_def reg_text_def mnem_str_def)
  then show ?thesis using frv_format_truncates[of 7 "''.........''" ?fi] by (simp add: holds_text_def)
qed

end
